theory Spec2Isabelle
  imports Complex_Main "HOL-Library.Log_Nat"
begin

section \<open>Reaction-time mini-games: a shallow embedding of the trial engines\<close>

text \<open>
  The repository holds independent React components, one per game. Each keeps its engine
  state in \<open>useState\<close> cells and \<open>useRef\<close> boxes and changes it from click handlers and
  timer callbacks. The embedding turns every component into a record of those cells and
  every handler into a function from state to state.

  Conventions of the embedding:
  \<^item> a handler runs against the state left by the handler before it (the component has
    re-rendered in between, so every closure reads the current cells);
  \<^item> \<open>emitEvent\<close> and \<open>emitScore\<close> append to lists kept in the state, so that "no event
    is emitted" is a statement about the state;
  \<^item> \<open>setTimeout\<close> appends the delay and the callback to a list kept in the state;
  \<^item> the \<open>ts\<close> stamp of events and log entries and the \<open>durationMs\<close> of reports are left
    out; clock readings that decide a result are arguments of the handler;
  \<^item> \<open>Math.random()\<close> draws are arguments;
  \<^item> JavaScript numbers that hold counters, cell indices and millisecond stamps are
    \<open>nat\<close> or \<open>int\<close>; the quotients, products and sums of the reports are doubles, each
    operation rounding its exact result (\<open>fl\<close> below); the averages and rates of
    \<open>adaptDifficulty\<close> are exact rationals; \<open>NaN\<close> is written out where the source can
    produce it.
\<close>

subsection \<open>JavaScript arithmetic used by the games\<close>

text \<open>\<open>Math.round\<close> rounds to the nearest integer, a half towards plus infinity.\<close>

definition Math_round :: "rat \<Rightarrow> int" where
  "Math_round x = \<lfloor>x + 1 / 2\<rfloor>"

text \<open>
  A JavaScript number is a double. \<open>fl x\<close> is the double nearest to the rational \<open>x\<close>: the
  significand of 53 bits is \<open>x\<close> scaled by the power of two \<open>expo x - 52\<close> and rounded to
  the nearest integer, a tie to the even one. \<open>expo x\<close> is the exponent of a positive
  \<open>x\<close>, the \<open>e\<close> with \<open>2 ^ e \<le> x < 2 ^ (e + 1)\<close>. The exponent range of doubles is left
  open: the reports divide and multiply counters, which stay far inside it.
\<close>

definition round_even :: "rat \<Rightarrow> int" where
  "round_even y = (let n = \<lfloor>y\<rfloor>; f = y - of_int n
                   in if f < 1 / 2 then n else if 1 / 2 < f then n + 1
                      else if even n then n else n + 1)"

definition expo :: "rat \<Rightarrow> int" where
  "expo x = (let (p, q) = quotient_of x; d = bitlen p - bitlen q
             in if x < 2 powi d then d - 1 else d)"

definition fl :: "rat \<Rightarrow> rat" where
  "fl x = (if x = 0 then 0
           else let u = 2 powi (expo \<bar>x\<bar> - 52)
                in sgn x * of_int (round_even (\<bar>x\<bar> / u)) * u)"

text \<open>The operators \<open>/\<close>, \<open>*\<close> and \<open>+\<close> on doubles: the exact result, rounded.\<close>

definition dbl_div :: "rat \<Rightarrow> rat \<Rightarrow> rat" where
  "dbl_div a b = fl (a / b)"

definition dbl_mul :: "rat \<Rightarrow> rat \<Rightarrow> rat" where
  "dbl_mul a b = fl (a * b)"

definition dbl_add :: "rat \<Rightarrow> rat \<Rightarrow> rat" where
  "dbl_add a b = fl (a + b)"

text \<open>
  \<open>Math.round((h / t) * 100)\<close>, the expression of all four reports, for a divisor \<open>t\<close>
  that is not 0.
\<close>

definition pct_rounded :: "nat \<Rightarrow> nat \<Rightarrow> int" where
  "pct_rounded h t = Math_round (dbl_mul (dbl_div (of_nat h) (of_nat t)) 100)"

text \<open>The \<open>clamp\<close> arrow function of SpamperceptionBlocks.\<close>

definition clamp :: "int \<Rightarrow> int \<Rightarrow> int \<Rightarrow> int" where
  "clamp v mn mx = max mn (min mx v)"

text \<open>The clamp of the specification text, by cases, to compare the code with.\<close>

definition clamp_spec :: "int \<Rightarrow> int \<Rightarrow> int \<Rightarrow> int" where
  "clamp_spec v lo hi = (if v < lo then lo else if hi < v then hi else v)"

subsection \<open>Constants shared by the two span tasks\<close>

definition GRID :: nat where "GRID = 10"
definition CELLS :: nat where "CELLS = GRID * GRID"
definition SEQS_PER_BLOCK :: nat where "SEQS_PER_BLOCK = 10"
definition START_LEN :: int where "START_LEN = 3"
definition MIN_LEN :: int where "MIN_LEN = 2"
definition MAX_LEN :: int where "MAX_LEN = 7"
definition ON_MS :: int where "ON_MS = 600"
definition GAP_MS :: int where "GAP_MS = 400"

datatype phase = Idle | Present | Respond | Between

subsection \<open>Sequence generation (randSeq, randUniqueSeq)\<close>

text \<open>
  Both generators run the same loop:
  \<^verbatim>\<open>while (seq.length < len) { idx = <draw>; if (!used.has(idx)) { seq.push(idx); used.add(idx); } }\<close>
  Every iteration consumes one random draw. The draws are a list; the loop returns
  \<open>None\<close> when the list is used up while \<open>seq.length < len\<close> still holds, that is, when
  the loop has not returned after that many iterations. \<open>pick\<close> turns a draw into a cell.
\<close>

fun uniqueLoop :: "(nat \<Rightarrow> nat) \<Rightarrow> nat \<Rightarrow> nat set \<Rightarrow> nat list \<Rightarrow> nat list \<Rightarrow> nat list option" where
  "uniqueLoop pick len used sq [] = (if length sq < len then None else Some sq)"
| "uniqueLoop pick len used sq (d # ds) =
     (if length sq < len
      then (let idx = pick d
            in if idx \<notin> used then uniqueLoop pick len (insert idx used) (sq @ [idx]) ds
               else uniqueLoop pick len used sq ds)
      else Some sq)"

datatype region = Central | Peripheral

text \<open>\<open>BLOCKS[blockIdx]\<close>; an index past the array reads \<open>undefined\<close>, here \<open>None\<close>.\<close>

definition BLOCKS :: "region list" where
  "BLOCKS = [Central, Peripheral]"

definition BLOCKS_at :: "nat \<Rightarrow> region option" where
  "BLOCKS_at i = (if i < length BLOCKS then Some (BLOCKS ! i) else None)"

text \<open>regionFilter: the two nested loops over rows and columns, in their order.\<close>

definition regionFilter :: "region option \<Rightarrow> nat list" where
  "regionFilter rg =
     concat (map (\<lambda>r. concat (map (\<lambda>c.
        let idx = r * GRID + c;
            inCenter = (3 \<le> r \<and> r \<le> 6 \<and> 3 \<le> c \<and> c \<le> 6)
        in if (if rg = Some Central then inCenter else \<not> inCenter) then [idx] else [])
      [0..<GRID])) [0..<GRID])"

text \<open>
  randSeq of CentralPeripheralSpanTask. A draw \<open>d\<close> stands for
  \<open>Math.floor(Math.random() * available.length)\<close>, so \<open>d < length available\<close>.
\<close>

definition randSeq :: "nat \<Rightarrow> region option \<Rightarrow> nat list \<Rightarrow> nat list option" where
  "randSeq len rg draws =
     (let available = regionFilter rg
      in uniqueLoop (\<lambda>d. available ! d) len {} [] draws)"

text \<open>
  randUniqueSeq of SpamperceptionBlocks. A draw \<open>d\<close> stands for
  \<open>Math.floor(Math.random() * CELLS)\<close>, so \<open>d < CELLS\<close>, and is the cell itself.
\<close>

definition randUniqueSeq :: "nat \<Rightarrow> nat list \<Rightarrow> nat list option" where
  "randUniqueSeq len draws = uniqueLoop (\<lambda>d. d) len {} [] draws"

subsection \<open>CentralPeripheralSpanTask\<close>

datatype cp_callback = CpSetLit "nat option" | CpSetPhase phase | CpStartTrial int

record cp_log =
  cl_i :: nat
  cl_correct :: bool
  cl_block :: "region option"
  cl_pos :: nat

record cp_report =
  span_central :: nat
  span_peripheral :: nat
  cr_logs :: "cp_log list"

record cp_state =
  cp_running :: bool
  cp_phase :: phase
  cp_blockIdx :: nat
  cp_seq :: "nat list"
  cp_lit :: "nat option"
  cp_trialIdx :: nat
  cp_seqLen :: int
  cp_replayPos :: nat
  cp_logs :: "cp_log list"
  cp_timers :: "(int \<times> cp_callback) list"
  cp_timeouts :: "(int \<times> cp_callback) list"
  cp_spanMax :: "region \<Rightarrow> nat"
  cp_scores :: "cp_report list"

text \<open>
  \<open>cp_timers\<close> is \<open>timersRef.current\<close>; \<open>cp_timeouts\<close> collects the \<open>setTimeout\<close> calls
  whose handle the component drops. The state of a freshly mounted component:
\<close>

definition cp_init :: cp_state where
  "cp_init = \<lparr>cp_running = False, cp_phase = Idle, cp_blockIdx = 0, cp_seq = [],
     cp_lit = None, cp_trialIdx = 0, cp_seqLen = START_LEN, cp_replayPos = 0,
     cp_logs = [], cp_timers = [], cp_timeouts = [], cp_spanMax = (\<lambda>_. 0),
     cp_scores = []\<rparr>"

text \<open>The \<open>arr.forEach\<close> of presentSeq: \<open>t\<close> runs along, two timers per element.\<close>

fun cp_forEach :: "nat list \<Rightarrow> int \<Rightarrow> (int \<times> cp_callback) list \<Rightarrow> int \<times> (int \<times> cp_callback) list" where
  "cp_forEach [] t ts = (t, ts)"
| "cp_forEach (cell # rest) t ts =
     (let ts1 = ts @ [(t, CpSetLit (Some cell))];
          t1 = t + ON_MS;
          ts2 = ts1 @ [(t1, CpSetLit None)];
          t2 = t1 + GAP_MS
      in cp_forEach rest t2 ts2)"

definition cp_presentSeq :: "cp_state \<Rightarrow> nat list \<Rightarrow> cp_state" where
  "cp_presentSeq st arr =
     (let (t, ts) = cp_forEach arr 0 (cp_timers st)
      in st\<lparr>cp_phase := Present, cp_timers := ts @ [(t, CpSetPhase Respond)]\<rparr>)"

text \<open>
  startTrial: the loop of randSeq may not return; then startTrial does not return
  either (\<open>None\<close>).
\<close>

definition cp_startTrial :: "cp_state \<Rightarrow> int \<Rightarrow> nat list \<Rightarrow> cp_state option" where
  "cp_startTrial st len draws =
     (case randSeq (nat len) (BLOCKS_at (cp_blockIdx st)) draws of
        None \<Rightarrow> None
      | Some arr \<Rightarrow> Some (cp_presentSeq (st\<lparr>cp_seq := arr\<rparr>) arr))"

text \<open>The length update inside finishTrial.\<close>

definition cp_nextLen :: "int \<Rightarrow> bool \<Rightarrow> int" where
  "cp_nextLen seqLen ok = max MIN_LEN (min MAX_LEN (seqLen + (if ok then 1 else - 1)))"

definition cp_finishTrial :: "cp_state \<Rightarrow> bool \<Rightarrow> cp_state" where
  "cp_finishTrial st ok =
     (let rgn = BLOCKS_at (cp_blockIdx st);
          st1 = (case rgn of
                   Some r \<Rightarrow> if ok then st\<lparr>cp_spanMax := (cp_spanMax st)(r := max (cp_spanMax st r) (length (cp_seq st)))\<rparr>
                             else st
                 | None \<Rightarrow> st);
          nextLen = cp_nextLen (cp_seqLen st) ok;
          st2 = st1\<lparr>cp_seqLen := nextLen\<rparr>
      in if cp_trialIdx st + 1 \<ge> SEQS_PER_BLOCK
         then (if cp_blockIdx st + 1 \<ge> length BLOCKS
               then st2\<lparr>cp_running := False, cp_phase := Idle,
                       cp_scores := cp_scores st2 @
                         [\<lparr>span_central = cp_spanMax st2 Central,
                           span_peripheral = cp_spanMax st2 Peripheral,
                           cr_logs = cp_logs st2\<rparr>]\<rparr>
               else st2\<lparr>cp_blockIdx := cp_blockIdx st + 1, cp_trialIdx := 0,
                       cp_seqLen := START_LEN, cp_phase := Between,
                       cp_timeouts := cp_timeouts st2 @ [(800, CpStartTrial START_LEN)]\<rparr>)
         else st2\<lparr>cp_trialIdx := cp_trialIdx st + 1, cp_phase := Between,
                 cp_timeouts := cp_timeouts st2 @ [(600, CpStartTrial nextLen)]\<rparr>)"

text \<open>\<open>seq[replayPos]\<close>: \<open>undefined\<close> past the end, and \<open>i === undefined\<close> is false.\<close>

definition seq_at :: "nat list \<Rightarrow> nat \<Rightarrow> nat option" where
  "seq_at sq p = (if p < length sq then Some (sq ! p) else None)"

definition cp_onCellClick :: "cp_state \<Rightarrow> nat \<Rightarrow> cp_state" where
  "cp_onCellClick st i =
     (if cp_phase st \<noteq> Respond then st
      else
        let correct = (seq_at (cp_seq st) (cp_replayPos st) = Some i);
            st1 = st\<lparr>cp_logs := cp_logs st @
                     [\<lparr>cl_i = i, cl_correct = correct,
                       cl_block = BLOCKS_at (cp_blockIdx st), cl_pos = cp_replayPos st\<rparr>]\<rparr>
        in if correct
           then (if cp_replayPos st + 1 \<ge> length (cp_seq st) then cp_finishTrial st1 True
                 else st1\<lparr>cp_replayPos := cp_replayPos st + 1\<rparr>)
           else cp_finishTrial st1 False)"

definition cp_start :: "cp_state \<Rightarrow> cp_state" where
  "cp_start st = st\<lparr>cp_timers := [], cp_running := True, cp_phase := Between,
     cp_blockIdx := 0, cp_trialIdx := 0, cp_seqLen := START_LEN,
     cp_timeouts := cp_timeouts st @ [(500, CpStartTrial START_LEN)]\<rparr>"

subsection \<open>SpamperceptionBlocks\<close>

datatype mode = digits | letters | colors | shapes

definition MODES :: "mode list" where
  "MODES = [digits, letters, colors, shapes]"

text \<open>\<open>MODES[blockIdx] || MODES[MODES.length - 1]\<close>\<close>

definition mode_of :: "nat \<Rightarrow> mode" where
  "mode_of blockIdx = (if blockIdx < length MODES then MODES ! blockIdx else MODES ! (length MODES - 1))"

text \<open>
  The serial-position arrays hold numbers; \<open>None\<close> is an entry that is not a number
  (a hole, or the \<open>NaN\<close> that \<open>undefined + 1\<close> gives). \<open>arr[i] += 1\<close>:
\<close>

definition incr_at :: "nat option list \<Rightarrow> nat \<Rightarrow> nat option list" where
  "incr_at xs i =
     (if i < length xs then xs[i := map_option Suc (xs ! i)]
      else xs @ replicate (i - length xs) None @ [None])"

record sp_trial =
  tr_len :: nat
  tr_ok :: bool

record modStats =
  spanMax :: nat
  ms_hits :: nat
  ms_total :: nat
  ms_errors :: nat
  rtList :: "int list"
  spCorrByPos :: "nat option list"
  spTotalByPos :: "nat option list"
  trials :: "sp_trial list"

definition emptyStats :: modStats where
  "emptyStats = \<lparr>spanMax = 0, ms_hits = 0, ms_total = 0, ms_errors = 0, rtList = [],
     spCorrByPos = replicate (nat MAX_LEN) (Some 0),
     spTotalByPos = replicate (nat MAX_LEN) (Some 0), trials = []\<rparr>"

record sp_logEntry =
  lg_mode :: mode
  lg_trial :: nat
  lg_pos :: nat
  lg_expected :: "nat option"
  lg_clicked :: nat
  lg_correct :: bool
  lg_rt :: int

datatype sp_event =
    SP_START
  | SEQ_PRESENTED mode nat nat
  | RESP_OK mode nat
  | RESP_ERR mode nat
  | BLOCK_END mode nat
  | SP_END

datatype sp_callback =
    SpSetLit "nat option"
  | SpDone mode nat nat
  | SpStartTrial int
  | SpNextBlock nat

record sp_report =
  r_spanMax :: "mode \<Rightarrow> nat"
  r_accuracyPct :: "mode \<Rightarrow> int"
  r_errors :: "mode \<Rightarrow> nat"
  r_reactionTimeAvgMs :: "mode \<Rightarrow> int"
  r_reactionTimeBestMs :: "mode \<Rightarrow> int"
  r_STM_Index :: int
  r_perModality :: "mode \<Rightarrow> modStats"
  r_trialLog :: "sp_logEntry list"

record sp_state =
  sp_running :: bool
  sp_blockIdx :: nat
  sp_trialIdx :: nat
  sp_phase :: phase
  sp_litIdx :: "nat option"
  sp_seq :: "nat list"
  sp_seqLen :: int
  sp_replayPos :: nat
  sp_presentTimers :: "(int \<times> sp_callback) list"
  sp_timeouts :: "(int \<times> sp_callback) list"
  sp_responseStart :: "rat option"
  sp_lastClickPerf :: "rat option"
  sp_stats :: "mode \<Rightarrow> modStats"
  sp_trialLog :: "sp_logEntry list"
  sp_events :: "sp_event list"
  sp_scores :: "sp_report list"

text \<open>
  \<open>sp_presentTimers\<close> is \<open>presentTimersRef.current\<close>; \<open>sp_timeouts\<close> collects the
  \<open>window.setTimeout\<close> calls whose handle is dropped. \<open>sp_stats\<close> is \<open>statsRef.current\<close>
  after \<open>resetStatsIfNeeded\<close> has filled it, which \<open>start\<close> does before any other handler
  can run. The state right after mounting and that first fill:
\<close>

definition sp_init :: sp_state where
  "sp_init = \<lparr>sp_running = False, sp_blockIdx = 0, sp_trialIdx = 0, sp_phase = Idle,
     sp_litIdx = None, sp_seq = [], sp_seqLen = START_LEN, sp_replayPos = 0,
     sp_presentTimers = [], sp_timeouts = [], sp_responseStart = None,
     sp_lastClickPerf = None, sp_stats = (\<lambda>_. emptyStats), sp_trialLog = [],
     sp_events = [], sp_scores = []\<rparr>"

text \<open>Sum and minimum of a reaction-time list (\<open>reduce((a,b)=>a+b,0)\<close>, \<open>Math.min(...l)\<close>).\<close>

definition rt_sum :: "int list \<Rightarrow> int" where
  "rt_sum l = fold (\<lambda>b a. a + b) l 0"

definition rt_min :: "int list \<Rightarrow> int" where
  "rt_min l = (case l of [] \<Rightarrow> 0 | x # xs \<Rightarrow> fold min xs x)"

definition rt_avg_rounded :: "int list \<Rightarrow> int" where
  "rt_avg_rounded l =
     (if length l \<noteq> 0 then Math_round (dbl_div (of_int (rt_sum l)) (of_nat (length l))) else 0)"

definition rt_best :: "int list \<Rightarrow> int" where
  "rt_best l = (if length l \<noteq> 0 then rt_min l else 0)"

text \<open>The \<open>acc\<close> of buildReport, for one modality.\<close>

definition sp_acc :: "modStats \<Rightarrow> int" where
  "sp_acc st = (if ms_total st > 0 then pct_rounded (ms_hits st) (ms_total st) else 0)"

definition sp_buildReport :: "sp_state \<Rightarrow> sp_report" where
  "sp_buildReport s =
     (let sts = sp_stats s;
          spans = map (\<lambda>m. spanMax (sts m)) MODES;
          accs = map (\<lambda>m. if ms_total (sts m) > 0
                           then dbl_div (of_nat (ms_hits (sts m))) (of_nat (ms_total (sts m)))
                           else 0) MODES;
          spanScore = dbl_div (of_nat (fold (\<lambda>b a. a + b) spans 0))
                        (of_nat (length MODES) * of_int MAX_LEN);
          accScore = dbl_div (fold (\<lambda>b a. dbl_add a b) accs 0) (of_nat (length MODES));
          stmIndex = Math_round (dbl_mul (dbl_add (dbl_mul (fl (3 / 5)) spanScore)
                                                  (dbl_mul (fl (2 / 5)) accScore)) 100)
      in \<lparr>r_spanMax = (\<lambda>m. spanMax (sts m)),
          r_accuracyPct = (\<lambda>m. sp_acc (sts m)),
          r_errors = (\<lambda>m. ms_errors (sts m)),
          r_reactionTimeAvgMs = (\<lambda>m. rt_avg_rounded (rtList (sts m))),
          r_reactionTimeBestMs = (\<lambda>m. rt_best (rtList (sts m))),
          r_STM_Index = stmIndex,
          r_perModality = sts,
          r_trialLog = sp_trialLog s\<rparr>)"

fun sp_forEach :: "nat list \<Rightarrow> int \<Rightarrow> (int \<times> sp_callback) list \<Rightarrow> int \<times> (int \<times> sp_callback) list" where
  "sp_forEach [] t ts = (t, ts)"
| "sp_forEach (cell # rest) t ts =
     (let ts1 = ts @ [(t, SpSetLit (Some cell))];
          t1 = t + ON_MS;
          ts2 = ts1 @ [(t1, SpSetLit None)];
          t2 = t1 + GAP_MS
      in sp_forEach rest t2 ts2)"

definition sp_presentSequence :: "sp_state \<Rightarrow> nat list \<Rightarrow> sp_state" where
  "sp_presentSequence s arr =
     (let s1 = s\<lparr>sp_phase := Present, sp_responseStart := None, sp_replayPos := 0\<rparr>;
          (t, ts) = sp_forEach arr 0 (sp_presentTimers s1)
      in s1\<lparr>sp_presentTimers :=
              ts @ [(t, SpDone (mode_of (sp_blockIdx s)) (length arr) (sp_trialIdx s + 1))]\<rparr>)"

text \<open>The callback of the last timer of presentSequence, fired at clock reading \<open>nowPerf\<close>.\<close>

definition sp_done :: "sp_state \<Rightarrow> rat \<Rightarrow> mode \<Rightarrow> nat \<Rightarrow> nat \<Rightarrow> sp_state" where
  "sp_done s nowPerf m len trial =
     s\<lparr>sp_phase := Respond, sp_responseStart := Some nowPerf, sp_lastClickPerf := Some nowPerf,
       sp_events := sp_events s @ [SEQ_PRESENTED m len trial]\<rparr>"

definition sp_startTrial :: "sp_state \<Rightarrow> int \<Rightarrow> nat list \<Rightarrow> sp_state option" where
  "sp_startTrial s len draws =
     (case randUniqueSeq (nat len) draws of
        None \<Rightarrow> None
      | Some arr \<Rightarrow> Some (sp_presentSequence (s\<lparr>sp_seq := arr\<rparr>) arr))"

definition sp_finishTrial :: "sp_state \<Rightarrow> bool \<Rightarrow> nat list \<Rightarrow> sp_state option" where
  "sp_finishTrial s ok draws =
     (let m = mode_of (sp_blockIdx s);
          st = sp_stats s m;
          st1 = st\<lparr>trials := trials st @ [\<lparr>tr_len = length (sp_seq s), tr_ok = ok\<rparr>]\<rparr>;
          st2 = (if ok then st1\<lparr>spanMax := max (spanMax st1) (length (sp_seq s))\<rparr> else st1);
          s1 = s\<lparr>sp_stats := (sp_stats s)(m := st2)\<rparr>;
          nextLen = clamp (sp_seqLen s + (if ok then 1 else - 1)) MIN_LEN MAX_LEN;
          s2 = s1\<lparr>sp_seqLen := nextLen\<rparr>
      in if sp_trialIdx s + 1 \<ge> SEQS_PER_BLOCK
         then (let s3 = s2\<lparr>sp_events := sp_events s2 @ [BLOCK_END m SEQS_PER_BLOCK],
                            sp_phase := Between\<rparr>;
                   nextBlock = sp_blockIdx s + 1
               in if nextBlock \<ge> length MODES
                  then (let s4 = s3\<lparr>sp_running := False, sp_blockIdx := length MODES - 1\<rparr>
                        in Some (s4\<lparr>sp_scores := sp_scores s4 @ [sp_buildReport s4]\<rparr>))
                  else Some (s3\<lparr>sp_timeouts := sp_timeouts s3 @ [(600, SpNextBlock nextBlock)]\<rparr>))
         else sp_startTrial (s2\<lparr>sp_trialIdx := sp_trialIdx s + 1, sp_phase := Present\<rparr>) nextLen draws)"

text \<open>The callback that finishTrial schedules between two blocks.\<close>

definition sp_nextBlock :: "sp_state \<Rightarrow> nat \<Rightarrow> nat list \<Rightarrow> sp_state option" where
  "sp_nextBlock s nextBlock draws =
     sp_startTrial (s\<lparr>sp_blockIdx := nextBlock, sp_trialIdx := 0, sp_seqLen := START_LEN,
                      sp_phase := Present\<rparr>) START_LEN draws"

text \<open>
  onCellClick. \<open>nowPerf\<close> is the reading of \<open>performance.now()\<close>; \<open>draws\<close> feeds the
  generator of the next trial, which finishTrial starts at once.
\<close>

definition sp_onCellClick :: "sp_state \<Rightarrow> rat \<Rightarrow> nat \<Rightarrow> nat list \<Rightarrow> sp_state option" where
  "sp_onCellClick s nowPerf cellIdx draws =
     (if sp_phase s \<noteq> Respond then Some s
      else
        let m = mode_of (sp_blockIdx s);
            expected = seq_at (sp_seq s) (sp_replayPos s);
            correct = (expected = Some cellIdx);
            rt = (case sp_lastClickPerf s of
                    None \<Rightarrow> 0
                  | Some l \<Rightarrow> if l \<noteq> 0 then Math_round (nowPerf - l) else 0);
            st = sp_stats s m;
            st1 = st\<lparr>ms_total := ms_total st + 1,
                     spTotalByPos := incr_at (spTotalByPos st) (sp_replayPos s)\<rparr>;
            entry = \<lparr>lg_mode = m, lg_trial = sp_trialIdx s + 1, lg_pos = sp_replayPos s,
                     lg_expected = expected, lg_clicked = cellIdx, lg_correct = correct, lg_rt = rt\<rparr>
        in if correct
           then (let st2 = st1\<lparr>ms_hits := ms_hits st1 + 1,
                              rtList := (if rt > 0 then rtList st1 @ [rt] else rtList st1),
                              spCorrByPos := incr_at (spCorrByPos st1) (sp_replayPos s)\<rparr>;
                     nextPos = sp_replayPos s + 1;
                     s1 = s\<lparr>sp_lastClickPerf := Some nowPerf,
                            sp_stats := (sp_stats s)(m := st2),
                            sp_trialLog := sp_trialLog s @ [entry],
                            sp_replayPos := nextPos\<rparr>
                 in if nextPos \<ge> length (sp_seq s)
                    then sp_finishTrial (s1\<lparr>sp_events := sp_events s1 @ [RESP_OK m (length (sp_seq s))]\<rparr>) True draws
                    else Some s1)
           else (let st2 = st1\<lparr>ms_errors := ms_errors st1 + 1\<rparr>;
                     s1 = s\<lparr>sp_lastClickPerf := Some nowPerf,
                            sp_stats := (sp_stats s)(m := st2),
                            sp_trialLog := sp_trialLog s @ [entry],
                            sp_events := sp_events s @ [RESP_ERR m (sp_replayPos s)]\<rparr>
                 in sp_finishTrial s1 False draws))"

text \<open>
  The grid button of renderCell carries \<open>disabled={!running || phase!=="respond"}\<close>: the
  browser hands a click to onCellClick only when the button is enabled.
\<close>

definition sp_cellButton :: "sp_state \<Rightarrow> rat \<Rightarrow> nat \<Rightarrow> nat list \<Rightarrow> sp_state option" where
  "sp_cellButton s nowPerf cellIdx draws =
     (if \<not> sp_running s \<or> sp_phase s \<noteq> Respond then Some s
      else sp_onCellClick s nowPerf cellIdx draws)"

definition sp_stop :: "sp_state \<Rightarrow> sp_state" where
  "sp_stop s =
     (let s1 = s\<lparr>sp_presentTimers := [], sp_running := False\<rparr>;
          report = sp_buildReport s1
      in s1\<lparr>sp_events := sp_events s1 @ [SP_END], sp_scores := sp_scores s1 @ [report]\<rparr>)"

subsection \<open>ColorReactionGame and ColorReactionGameEdges (go/no-go)\<close>

text \<open>
  The two components differ in where a stimulus may appear and in how onCellClick looks
  the clicked stimulus up; their counters, adaptDifficulty, the expiry callback and stop
  are the same text. One state record serves both.
\<close>

definition TOTAL_STIMULI :: nat where "TOTAL_STIMULI = 50"
definition MAX_ACTIVE :: nat where "MAX_ACTIVE = 1"

datatype color = green | red

datatype reason = no_go | late

record stimulus =
  s_id :: nat
  s_idx :: nat
  s_color :: color
  s_shownAt :: int
  s_expiresAt :: int

datatype gn_event =
    GN_START
  | STIMULUS nat nat color int
  | HIT nat int "int option"
  | ERROR_EMPTY nat
  | ERROR nat color reason int "int option"
  | MISS nat
  | ADAPT int
  | GN_END nat nat nat int int int

record gn_report =
  g_reactionTimeAvgMs :: int
  g_reactionTimeBestMs :: int
  g_reactionsCount :: nat
  g_errors :: nat
  g_misses :: nat
  g_hits :: nat
  g_accuracyPct :: int
  g_reactionTimeListMs :: "int list"
  g_distanceErrorPxList :: "int list"
  g_reactionWindowHistoryMs :: "int list"
  g_totalStimuli :: nat

record gn_state =
  gn_running :: bool
  gn_stimuli :: "stimulus list"
  gn_totalShown :: nat
  gn_hits :: nat
  gn_errors :: nat
  gn_misses :: nat
  gn_reactionList :: "int list"
  gn_distanceList :: "int list"
  gn_adaptHistory :: "int list"
  gn_reactionWindowMs :: int
  gn_lastPlacedIdx :: "nat option"
  gn_displayTimers :: "nat list"
  gn_queued :: nat
  gn_events :: "gn_event list"
  gn_scores :: "gn_report list"

text \<open>
  \<open>gn_displayTimers\<close> holds the ids of the stimuli whose display timer is pending
  (set in spawnStimulus, removed by \<open>clearTimeout\<close> or by firing); \<open>gn_queued\<close> counts the
  pending timers of queueSpawn. The refs as \<open>useRef\<close> initialises them:
\<close>

definition gn_init :: gn_state where
  "gn_init = \<lparr>gn_running = False, gn_stimuli = [], gn_totalShown = 0, gn_hits = 0,
     gn_errors = 0, gn_misses = 0, gn_reactionList = [], gn_distanceList = [],
     gn_adaptHistory = [800], gn_reactionWindowMs = 800, gn_lastPlacedIdx = None,
     gn_displayTimers = [], gn_queued = 0, gn_events = [], gn_scores = []\<rparr>"

text \<open>\<open>attempts ? Math.round((hits / attempts) * 100) : 100\<close>\<close>

definition gn_accuracyPct :: "nat \<Rightarrow> nat \<Rightarrow> nat \<Rightarrow> int" where
  "gn_accuracyPct hits errors misses =
     (let attempts = hits + errors + misses
      in if attempts \<noteq> 0 then pct_rounded hits attempts else 100)"

definition gn_stop :: "gn_state \<Rightarrow> gn_state" where
  "gn_stop s =
     (let s1 = s\<lparr>gn_running := False,
                 gn_displayTimers := filter (\<lambda>i. i \<notin> set (map s_id (gn_stimuli s))) (gn_displayTimers s),
                 gn_stimuli := []\<rparr>;
          rtl = gn_reactionList s;
          avg = rt_avg_rounded rtl;
          best = rt_best rtl;
          hits = gn_hits s; errors = gn_errors s; misses = gn_misses s;
          accuracyPct = gn_accuracyPct hits errors misses
      in s1\<lparr>gn_events := gn_events s1 @ [GN_END hits errors misses avg best accuracyPct],
            gn_scores := gn_scores s1 @
              [\<lparr>g_reactionTimeAvgMs = avg, g_reactionTimeBestMs = best,
                g_reactionsCount = length rtl, g_errors = errors, g_misses = misses,
                g_hits = hits, g_accuracyPct = accuracyPct, g_reactionTimeListMs = rtl,
                g_distanceErrorPxList = gn_distanceList s,
                g_reactionWindowHistoryMs = gn_adaptHistory s,
                g_totalStimuli = gn_totalShown s\<rparr>]\<rparr>)"

text \<open>\<open>list.slice(-10)\<close>: the last ten entries, or all of them when there are fewer.\<close>

definition slice_last10 :: "int list \<Rightarrow> int list" where
  "slice_last10 l = drop (length l - 10) l"

text \<open>
  adaptDifficulty. The literals \<open>0.05\<close>, \<open>0.15\<close>, \<open>0.9\<close> and \<open>1.1\<close> are the rationals
  \<open>1/20\<close>, \<open>3/20\<close>, \<open>9/10\<close> and \<open>11/10\<close>.
\<close>

definition adaptDifficulty :: "gn_state \<Rightarrow> gn_state" where
  "adaptDifficulty s =
     (let recentHits = slice_last10 (gn_reactionList s);
          avgRecent = (if length recentHits \<noteq> 0
                       then of_int (rt_sum recentHits) / of_nat (length recentHits)
                       else of_int (gn_reactionWindowMs s) :: rat);
          missRate = (of_nat (gn_misses s) / of_nat (max 1 (gn_totalShown s)) :: rat);
          errorRate = (of_nat (gn_errors s) / of_nat (max 1 (gn_totalShown s)) :: rat);
          targetWindow = max 400 (Math_round (avgRecent * (9 / 10)));
          w = (if missRate < 1 / 20 \<and> errorRate < 1 / 20 \<and> avgRecent < of_int (gn_reactionWindowMs s)
               then max 400 targetWindow
               else if missRate > 3 / 20 \<or> errorRate > 3 / 20
               then min 1200 (Math_round (of_int (gn_reactionWindowMs s) * (11 / 10)))
               else gn_reactionWindowMs s)
      in s\<lparr>gn_reactionWindowMs := w,
           gn_adaptHistory := gn_adaptHistory s @ [w],
           gn_events := gn_events s @ [ADAPT w]\<rparr>)"

text \<open>queueSpawn sets one timer; its callback is \<open>gn_spawnTick\<close> below.\<close>

definition queueSpawn :: "gn_state \<Rightarrow> gn_state" where
  "queueSpawn s = s\<lparr>gn_queued := gn_queued s + 1\<rparr>"

text \<open>
  spawnStimulus. \<open>col\<close>, \<open>displayDur\<close> and the random part of the \<open>id\<close> string are random draws,
  \<open>idx\<close> is what pickIndex (or pickEdgeIndex) returned, \<open>shownAt\<close> is the clock.
  ColorReactionGame also stores \<open>idx\<close> in \<open>lastPlacedIdxRef\<close>.
\<close>

definition spawnStimulus :: "gn_state \<Rightarrow> color \<Rightarrow> nat \<Rightarrow> int \<Rightarrow> int \<Rightarrow> nat \<Rightarrow> gn_state" where
  "spawnStimulus s col idx shownAt displayDur sid =
     (if gn_totalShown s \<ge> TOTAL_STIMULI then s
      else s\<lparr>gn_lastPlacedIdx := Some idx,
             gn_displayTimers := gn_displayTimers s @ [sid],
             gn_stimuli := gn_stimuli s @
               [\<lparr>s_id = sid, s_idx = idx, s_color = col, s_shownAt = shownAt,
                 s_expiresAt = shownAt + displayDur\<rparr>],
             gn_totalShown := gn_totalShown s + 1,
             gn_events := gn_events s @ [STIMULUS sid idx col displayDur]\<rparr>)"

definition gn_spawnTick :: "gn_state \<Rightarrow> color \<Rightarrow> nat \<Rightarrow> int \<Rightarrow> int \<Rightarrow> nat \<Rightarrow> gn_state" where
  "gn_spawnTick s col idx shownAt displayDur sid =
     (let s1 = s\<lparr>gn_queued := gn_queued s - 1\<rparr>
      in if \<not> gn_running s1 then s1
         else if length (gn_stimuli s1) \<ge> MAX_ACTIVE then s1
         else if gn_totalShown s1 \<ge> TOTAL_STIMULI then s1
         else spawnStimulus s1 col idx shownAt displayDur sid)"

text \<open>
  The \<open>setStimuli\<close> updater that both the display timer and onCellClick run to take the
  stimulus \<open>sid\<close> off the board: queue the next spawn, or stop after the last stimulus.
\<close>

definition gn_remove :: "gn_state \<Rightarrow> nat \<Rightarrow> gn_state" where
  "gn_remove s sid =
     (let next = filter (\<lambda>x. s_id x \<noteq> sid) (gn_stimuli s);
          s1 = (if gn_running s \<and> gn_totalShown s < TOTAL_STIMULI then queueSpawn s else s);
          s2 = s1\<lparr>gn_stimuli := next\<rparr>
      in if gn_totalShown s \<ge> TOTAL_STIMULI \<and> length next = 0 then gn_stop s2 else s2)"

text \<open>The callback of the display timer of stimulus \<open>sid\<close> (set in spawnStimulus).\<close>

definition gn_expire :: "gn_state \<Rightarrow> nat \<Rightarrow> gn_state" where
  "gn_expire s sid =
     (let s0 = s\<lparr>gn_displayTimers := filter (\<lambda>i. i \<noteq> sid) (gn_displayTimers s)\<rparr>
      in case find (\<lambda>x. s_id x = sid) (gn_stimuli s0) of
           None \<Rightarrow> s0
         | Some stim \<Rightarrow>
             (let s1 = (if s_color stim = green
                        then s0\<lparr>gn_misses := gn_misses s0 + 1,
                                gn_events := gn_events s0 @ [MISS (s_idx stim)]\<rparr>
                        else s0)
              in gn_remove s1 sid))"

text \<open>What both click handlers do once they hold the clicked stimulus and its timing.\<close>

definition gn_score :: "gn_state \<Rightarrow> stimulus \<Rightarrow> int \<Rightarrow> bool \<Rightarrow> int option \<Rightarrow> gn_state" where
  "gn_score s stim rt withinWindow dpx =
     (let s1 =
        (if s_color stim = green \<and> withinWindow
         then (let s2 = s\<lparr>gn_hits := gn_hits s + 1,
                          gn_reactionList := gn_reactionList s @ [rt],
                          gn_distanceList := (case dpx of None \<Rightarrow> gn_distanceList s
                                              | Some d \<Rightarrow> gn_distanceList s @ [d]),
                          gn_events := gn_events s @ [HIT (s_idx stim) rt dpx]\<rparr>
               in if (gn_hits s2 + gn_errors s2 + gn_misses s2) mod 10 = 0
                  then adaptDifficulty s2 else s2)
         else s\<lparr>gn_errors := gn_errors s + 1,
                gn_events := gn_events s @
                  [ERROR (s_idx stim) (s_color stim)
                     (if s_color stim = red then no_go else late) rt dpx]\<rparr>);
          s3 = s1\<lparr>gn_displayTimers := filter (\<lambda>i. i \<noteq> s_id stim) (gn_displayTimers s1)\<rparr>
      in gn_remove s3 (s_id stim))"

text \<open>
  onCellClick of ColorReactionGame. \<open>t_rt\<close> and \<open>t_win\<close> are the two readings of
  \<open>nowMs()\<close>, the first for \<open>rt\<close>, the second for \<open>withinWindow\<close>; \<open>distPx\<close> is the pointer's
  distance from the cell centre (0 when the stage is not mounted).
\<close>

definition onCellClick :: "gn_state \<Rightarrow> nat \<Rightarrow> int \<Rightarrow> int \<Rightarrow> rat \<Rightarrow> gn_state" where
  "onCellClick s cellIdx t_rt t_win distPx =
     (if \<not> gn_running s then s
      else
        let activeHere = filter (\<lambda>x. s_idx x = cellIdx) (gn_stimuli s)
        in case activeHere of
             [] \<Rightarrow> s\<lparr>gn_errors := gn_errors s + 1,
                     gn_events := gn_events s @ [ERROR_EMPTY cellIdx]\<rparr>
           | first # _ \<Rightarrow>
               (let stim = (case find (\<lambda>x. s_color x = green) activeHere of
                              Some g \<Rightarrow> g | None \<Rightarrow> first);
                    rt = t_rt - s_shownAt stim;
                    withinWindow = (t_win - s_shownAt stim \<le> gn_reactionWindowMs s)
                in gn_score s stim rt withinWindow (Some (Math_round distPx))))"

text \<open>onCellClick of ColorReactionGameEdges: one clock reading, no distance.\<close>

definition edges_onCellClick :: "gn_state \<Rightarrow> nat \<Rightarrow> int \<Rightarrow> gn_state" where
  "edges_onCellClick s cellIdx now =
     (if \<not> gn_running s then s
      else case find (\<lambda>x. s_idx x = cellIdx) (gn_stimuli s) of
             None \<Rightarrow> s\<lparr>gn_errors := gn_errors s + 1,
                       gn_events := gn_events s @ [ERROR_EMPTY cellIdx]\<rparr>
           | Some stim \<Rightarrow>
               (let rt = now - s_shownAt stim;
                    withinWindow = (rt \<le> gn_reactionWindowMs s)
                in gn_score s stim rt withinWindow None))"

definition gn_reset :: "gn_state \<Rightarrow> gn_state" where
  "gn_reset s = s\<lparr>gn_displayTimers := filter (\<lambda>i. i \<notin> set (map s_id (gn_stimuli s))) (gn_displayTimers s),
     gn_stimuli := [], gn_totalShown := 0, gn_hits := 0, gn_errors := 0, gn_misses := 0,
     gn_reactionList := [], gn_distanceList := [], gn_reactionWindowMs := 800,
     gn_adaptHistory := [800], gn_lastPlacedIdx := None\<rparr>"

definition gn_start :: "gn_state \<Rightarrow> gn_state" where
  "gn_start s =
     (let s1 = (gn_reset s)\<lparr>gn_running := True\<rparr>;
          s2 = s1\<lparr>gn_events := gn_events s1 @ [GN_START]\<rparr>
      in queueSpawn s2)"

text \<open>
  Everything that can happen to a go/no-go engine, as one input alphabet, and the run
  of an engine over a list of inputs.
\<close>

datatype gn_input =
    Start
  | Stop
  | SpawnTick color nat int int nat
  | Expire nat
  | Click nat int int rat
  | EdgesClick nat int

fun gn_step :: "gn_state \<Rightarrow> gn_input \<Rightarrow> gn_state" where
  "gn_step s Start = gn_start s"
| "gn_step s Stop = gn_stop s"
| "gn_step s (SpawnTick col idx shownAt displayDur sid) = gn_spawnTick s col idx shownAt displayDur sid"
| "gn_step s (Expire sid) = gn_expire s sid"
| "gn_step s (Click cellIdx t_rt t_win distPx) = onCellClick s cellIdx t_rt t_win distPx"
| "gn_step s (EdgesClick cellIdx now) = edges_onCellClick s cellIdx now"

definition gn_run :: "gn_input list \<Rightarrow> gn_state" where
  "gn_run ins = foldl gn_step gn_init ins"

subsection \<open>FiveTargetReactionGame\<close>

definition TOTAL_SETS :: nat where "TOTAL_SETS = 10"
definition TARGETS_PER_SET :: nat where "TARGETS_PER_SET = 5"
definition COLORS_length :: nat where "COLORS_length = 6"

text \<open>
  A JavaScript number where the source can leave the finite ones: \<open>0 / 0\<close> is \<open>NaN\<close>,
  \<open>x / 0\<close> is \<open>Infinity\<close> for positive \<open>x\<close>; \<open>a || b\<close> is \<open>b\<close> when \<open>a\<close> is \<open>NaN\<close> or \<open>0\<close>.
\<close>

datatype jsnum = Num rat | NaN | Infinity

definition js_div :: "nat \<Rightarrow> nat \<Rightarrow> jsnum" where
  "js_div a b = (if b = 0 then (if a = 0 then NaN else Infinity)
                 else Num (dbl_div (of_nat a) (of_nat b)))"

fun js_times :: "jsnum \<Rightarrow> rat \<Rightarrow> jsnum" where
  "js_times (Num x) k = Num (dbl_mul x k)"
| "js_times NaN k = NaN"
| "js_times Infinity k = Infinity"

fun js_round :: "jsnum \<Rightarrow> jsnum" where
  "js_round (Num x) = Num (of_int (Math_round x))"
| "js_round NaN = NaN"
| "js_round Infinity = Infinity"

definition js_or :: "jsnum \<Rightarrow> jsnum \<Rightarrow> jsnum" where
  "js_or a b = (if a = NaN \<or> a = Num 0 then b else a)"

record ft_stimulus =
  f_idx :: nat
  f_color :: nat
  f_clicked :: bool
  f_perfShownAt :: rat

datatype ft_event =
    FT_START
  | SET_START nat "nat list"
  | FT_HIT nat nat int int
  | FT_ERROR_EMPTY nat
  | FT_END nat nat nat int int

record ft_report =
  f_reactionTimeAvgMs :: int
  f_reactionTimeBestMs :: int
  f_hits :: nat
  f_errors :: nat
  f_accuracyPct :: jsnum
  f_reactionTimeListMs :: "int list"
  f_distanceErrorPxList :: "int list"
  f_totalSets :: nat

record ft_state =
  ft_running :: bool
  ft_stimuli :: "ft_stimulus list"
  ft_currentColorIdx :: nat
  ft_setStartTs :: "rat option"
  ft_currentSet :: nat
  ft_clickedCount :: nat
  ft_totalShown :: nat
  ft_hits :: nat
  ft_errors :: nat
  ft_reactionList :: "int list"
  ft_distanceList :: "int list"
  ft_spawnTimers :: nat
  ft_events :: "ft_event list"
  ft_scores :: "ft_report list"

text \<open>\<open>ft_spawnTimers\<close> counts the pending \<open>setTimeout(spawnSet, 300)\<close> calls.\<close>

definition ft_init :: ft_state where
  "ft_init = \<lparr>ft_running = False, ft_stimuli = [], ft_currentColorIdx = 0,
     ft_setStartTs = None, ft_currentSet = 0, ft_clickedCount = 0, ft_totalShown = 0,
     ft_hits = 0, ft_errors = 0, ft_reactionList = [], ft_distanceList = [],
     ft_spawnTimers = 0, ft_events = [], ft_scores = []\<rparr>"

text \<open>\<open>Math.round((hits / (hits + errors)) * 100) || 100\<close>\<close>

definition ft_accuracyPct :: "nat \<Rightarrow> nat \<Rightarrow> jsnum" where
  "ft_accuracyPct hits errors = js_or (js_round (js_times (js_div hits (hits + errors)) 100)) (Num 100)"

definition ft_stop :: "ft_state \<Rightarrow> ft_state" where
  "ft_stop s =
     (let rtl = ft_reactionList s;
          avg = rt_avg_rounded rtl;
          best = rt_best rtl;
          s1 = s\<lparr>ft_running := False\<rparr>;
          s2 = s1\<lparr>ft_scores := ft_scores s1 @
                 [\<lparr>f_reactionTimeAvgMs = avg, f_reactionTimeBestMs = best,
                   f_hits = ft_hits s, f_errors = ft_errors s,
                   f_accuracyPct = ft_accuracyPct (ft_hits s) (ft_errors s),
                   f_reactionTimeListMs = rtl, f_distanceErrorPxList = ft_distanceList s,
                   f_totalSets = ft_currentSet s\<rparr>]\<rparr>
      in s2\<lparr>ft_events := ft_events s2 @
              [FT_END (ft_currentSet s) (ft_hits s) (ft_errors s) avg best]\<rparr>)"

text \<open>
  spawnSet, as the callback of its timer. \<open>indices\<close> is what pickUniqueIndices drew,
  \<open>perfNow\<close> the reading of \<open>performance.now()\<close>.
\<close>

definition ft_spawnSet :: "ft_state \<Rightarrow> nat list \<Rightarrow> rat \<Rightarrow> ft_state" where
  "ft_spawnSet s indices perfNow =
     (if \<not> ft_running s then s
      else if ft_currentSet s \<ge> TOTAL_SETS then ft_stop s
      else
        let col = ft_currentColorIdx s mod COLORS_length
        in s\<lparr>ft_setStartTs := Some perfNow,
             ft_stimuli := map (\<lambda>i. \<lparr>f_idx = i, f_color = col, f_clicked = False,
                                       f_perfShownAt = perfNow\<rparr>) indices,
             ft_totalShown := ft_totalShown s + TARGETS_PER_SET,
             ft_events := ft_events s @ [SET_START col indices]\<rparr>)"

text \<open>
  onCellClick. \<open>perfNow\<close> is the reading of \<open>performance.now()\<close>, \<open>distPx\<close> the pointer's
  distance from the cell centre (0 when the stage is not mounted).
\<close>

definition ft_onCellClick :: "ft_state \<Rightarrow> nat \<Rightarrow> rat \<Rightarrow> rat \<Rightarrow> ft_state" where
  "ft_onCellClick s cellIdx perfNow distPx =
     (if \<not> ft_running s then s
      else case find (\<lambda>x. f_idx x = cellIdx) (ft_stimuli s) of
             None \<Rightarrow> s\<lparr>ft_errors := ft_errors s + 1,
                       ft_events := ft_events s @ [FT_ERROR_EMPTY cellIdx]\<rparr>
           | Some stim \<Rightarrow>
               if f_clicked stim then s
               else
                 let start = (case ft_setStartTs s of
                                None \<Rightarrow> perfNow
                              | Some t \<Rightarrow> if t \<noteq> 0 then t else perfNow);
                     rt = Math_round (perfNow - start);
                     s1 = s\<lparr>ft_hits := ft_hits s + 1,
                            ft_clickedCount := ft_clickedCount s + 1,
                            ft_reactionList := ft_reactionList s @ [rt],
                            ft_distanceList := ft_distanceList s @ [Math_round distPx],
                            ft_events := ft_events s @
                              [FT_HIT cellIdx (f_color stim) rt (Math_round distPx)],
                            ft_stimuli := map (\<lambda>x. if f_idx x = cellIdx then x\<lparr>f_clicked := True\<rparr> else x)
                                              (ft_stimuli s)\<rparr>
                 in if ft_clickedCount s1 mod TARGETS_PER_SET = 0
                    then s1\<lparr>ft_currentSet := ft_currentSet s1 + 1,
                            ft_currentColorIdx := ft_currentColorIdx s1 + 1,
                            ft_spawnTimers := ft_spawnTimers s1 + 1\<rparr>
                    else s1)"

subsection \<open>Runs of trials\<close>

text \<open>
  The lengths a span task goes through when the outcomes \<open>oks\<close> follow each other:
  \<open>span_lengths\<close> iterates the length update alone, \<open>cp_lengths\<close> reads \<open>seqLen\<close> off the
  states that finishTrial of CentralPeripheralSpanTask produces.
\<close>

fun span_lengths :: "int \<Rightarrow> bool list \<Rightarrow> int list" where
  "span_lengths len [] = [len]"
| "span_lengths len (ok # oks) = len # span_lengths (cp_nextLen len ok) oks"

fun cp_lengths :: "cp_state \<Rightarrow> bool list \<Rightarrow> int list" where
  "cp_lengths st [] = [cp_seqLen st]"
| "cp_lengths st (ok # oks) = cp_seqLen st # cp_lengths (cp_finishTrial st ok) oks"

subsection \<open>Presentation schedules\<close>

text \<open>
  The timers that the \<open>forEach\<close> of presentSeq and presentSequence sets, as a list of its
  own: two per element, with the delay running along. \<open>on\<close> and \<open>off\<close> are the two
  callbacks of the component at hand.
\<close>

fun plan :: "(nat \<Rightarrow> 'c) \<Rightarrow> 'c \<Rightarrow> nat list \<Rightarrow> int \<Rightarrow> (int \<times> 'c) list" where
  "plan on off [] t = []"
| "plan on off (c # cs) t = (t, on c) # (t + ON_MS, off) # plan on off cs (t + ON_MS + GAP_MS)"

text \<open>The timers that one call of presentSeq (presentSequence) adds to the timer list.\<close>

definition cp_scheduled :: "cp_state \<Rightarrow> nat list \<Rightarrow> (int \<times> cp_callback) list" where
  "cp_scheduled st arr = drop (length (cp_timers st)) (cp_timers (cp_presentSeq st arr))"

definition sp_scheduled :: "sp_state \<Rightarrow> nat list \<Rightarrow> (int \<times> sp_callback) list" where
  "sp_scheduled s arr = drop (length (sp_presentTimers s)) (sp_presentTimers (sp_presentSequence s arr))"

subsection \<open>The stimulus a click is matched against\<close>

text \<open>
  The stimulus that onCellClick of ColorReactionGame settles on for a clicked cell
  (\<open>activeHere.find(green) || activeHere[0]\<close>), and the one that onCellClick of
  ColorReactionGameEdges settles on (\<open>stimuli.find\<close>); \<open>None\<close> for an empty cell.
\<close>

definition color_target :: "gn_state \<Rightarrow> nat \<Rightarrow> stimulus option" where
  "color_target s cellIdx =
     (case filter (\<lambda>x. s_idx x = cellIdx) (gn_stimuli s) of
        [] \<Rightarrow> None
      | first # rest \<Rightarrow>
          Some (case find (\<lambda>x. s_color x = green) (first # rest) of
                  Some g \<Rightarrow> g | None \<Rightarrow> first))"

definition edges_target :: "gn_state \<Rightarrow> nat \<Rightarrow> stimulus option" where
  "edges_target s cellIdx = find (\<lambda>x. s_idx x = cellIdx) (gn_stimuli s)"

text \<open>The three conditions of a hit, for a click on \<open>target\<close> read at clock \<open>t\<close>.\<close>

definition is_hit :: "gn_state \<Rightarrow> stimulus option \<Rightarrow> int \<Rightarrow> bool" where
  "is_hit s target t =
     (case target of
        None \<Rightarrow> False
      | Some stim \<Rightarrow> s_color stim = green \<and> t - s_shownAt stim \<le> gn_reactionWindowMs s)"

subsection \<open>Example boards\<close>

text \<open>
  A go/no-go session right after its first stimulus has appeared: green (red), in cell
  42, shown at clock 1000 for 900 ms.
\<close>

definition green_board :: gn_state where
  "green_board = gn_spawnTick (gn_start gn_init) green 42 1000 900 1"

definition red_board :: gn_state where
  "red_board = gn_spawnTick (gn_start gn_init) red 42 1000 900 1"

text \<open>
  A five-target session: the first set has appeared in cells 7, 12, 33, 48 and 90 at
  clock 1000, and cell 7 has been clicked at 1500.
\<close>

definition five_set :: ft_state where
  "five_set = ft_spawnSet (ft_init\<lparr>ft_running := True\<rparr>) [7, 12, 33, 48, 90] 1000"

definition five_clicked :: ft_state where
  "five_clicked = ft_onCellClick five_set 7 1500 3"

text \<open>
  The two span tasks in the respond phase of a first trial with the sequence
  4, 17, 82: the session has started, the sequence has been presented and the last
  timer of the presentation has fired.
\<close>

definition cp_trial_4_17_82 :: cp_state where
  "cp_trial_4_17_82 =
     (cp_presentSeq ((cp_start cp_init)\<lparr>cp_seq := [4, 17, 82]\<rparr>) [4, 17, 82])\<lparr>cp_phase := Respond\<rparr>"

definition sp_trial_4_17_82 :: sp_state where
  "sp_trial_4_17_82 =
     sp_done (sp_presentSequence (sp_init\<lparr>sp_running := True, sp_phase := Present,
                                           sp_seq := [4, 17, 82]\<rparr>) [4, 17, 82])
       5000 digits 3 1"

subsection \<open>The reaction window stays in range\<close>

text \<open>The window and every entry of the adaptation history lie between 400 and 1200 ms.\<close>

definition window_ok :: "gn_state \<Rightarrow> bool" where
  "window_ok s \<longleftrightarrow>
     400 \<le> gn_reactionWindowMs s \<and> gn_reactionWindowMs s \<le> 1200 \<and>
     (\<forall>w \<in> set (gn_adaptHistory s). 400 \<le> w \<and> w \<le> 1200)"

text \<open>
  Two sessions at the moment adaptDifficulty is called: ten stimuli shown, with ten hits
  of 300 ms each, and with seven hits of 700 ms and three errors.
\<close>

definition fast_player :: gn_state where
  "fast_player = gn_init\<lparr>gn_running := True, gn_totalShown := 10, gn_hits := 10,
     gn_reactionList := [300, 300, 300, 300, 300, 300, 300, 300, 300, 300]\<rparr>"

definition erring_player :: gn_state where
  "erring_player = gn_init\<lparr>gn_running := True, gn_totalShown := 10, gn_hits := 7,
     gn_errors := 3, gn_reactionList := [700, 700, 700, 700, 700, 700, 700]\<rparr>"

subsection \<open>A session about to score its tenth response\<close>

text \<open>
  Nine green stimuli in cell 42, each clicked 300 ms after it appeared, and then a tenth
  stimulus in cell 42, red (green), that is still on the board.
\<close>

definition nine_hits :: "gn_input list" where
  "nine_hits =
     [Start,
      SpawnTick green 42 1000 900 1, Click 42 1300 1300 0,
      SpawnTick green 42 2000 900 2, Click 42 2300 2300 0,
      SpawnTick green 42 3000 900 3, Click 42 3300 3300 0,
      SpawnTick green 42 4000 900 4, Click 42 4300 4300 0,
      SpawnTick green 42 5000 900 5, Click 42 5300 5300 0,
      SpawnTick green 42 6000 900 6, Click 42 6300 6300 0,
      SpawnTick green 42 7000 900 7, Click 42 7300 7300 0,
      SpawnTick green 42 8000 900 8, Click 42 8300 8300 0,
      SpawnTick green 42 9000 900 9, Click 42 9300 9300 0]"

definition tenth_red :: gn_state where
  "tenth_red = gn_run (nine_hits @ [SpawnTick red 42 10000 900 10])"

definition tenth_green :: gn_state where
  "tenth_green = gn_run (nine_hits @ [SpawnTick green 42 10000 900 10])"

text \<open>A hit that brings the number of scored responses to a multiple of ten.\<close>

definition tenth_hit :: "gn_state \<Rightarrow> stimulus option \<Rightarrow> int \<Rightarrow> bool" where
  "tenth_hit s target t \<longleftrightarrow>
     is_hit s target t \<and> (gn_hits s + 1 + gn_errors s + gn_misses s) mod 10 = 0"

text \<open>
  The window that adaptDifficulty computes, as a function of what it reads: the
  reaction-time list, the current window, and the miss, error and shown counters.
\<close>

definition nextWindow :: "int list \<Rightarrow> int \<Rightarrow> nat \<Rightarrow> nat \<Rightarrow> nat \<Rightarrow> int" where
  "nextWindow rl win misses errors shown =
     gn_reactionWindowMs (adaptDifficulty
       (gn_init\<lparr>gn_reactionList := rl, gn_reactionWindowMs := win, gn_misses := misses,
                gn_errors := errors, gn_totalShown := shown\<rparr>))"

subsection \<open>Reports\<close>

text \<open>
  The accuracy of the specification: 100 when nothing was scored, else the percentage
  of hits among the scored responses, rounded to the nearest integer in exact
  arithmetic.
\<close>

definition accuracy_spec :: "nat \<Rightarrow> nat \<Rightarrow> int" where
  "accuracy_spec hits scored =
     (if scored = 0 then 100 else Math_round ((of_nat hits / of_nat scored) * 100))"

text \<open>
  Every modality of a SpamperceptionBlocks session counts each scored click either as a
  hit or as an error.
\<close>

definition totals_ok :: "sp_state \<Rightarrow> bool" where
  "totals_ok s \<longleftrightarrow>
     (\<forall>m. ms_total (sp_stats s m) = ms_hits (sp_stats s m) + ms_errors (sp_stats s m))"

text \<open>
  The first trial of SpamperceptionBlocks after one correct click on cell 4, and the
  five-target game after one click on the empty cell 50.
\<close>

definition sp_one_correct :: "sp_state option" where
  "sp_one_correct = sp_onCellClick sp_trial_4_17_82 5400 4 []"

definition five_missed :: ft_state where
  "five_missed = ft_onCellClick five_set 50 1500 3"

subsection \<open>Span trials, click by click\<close>

text \<open>
  CentralPeripheralSpanTask after the first trial 4, 17, 82 has been answered with
  4, 17, 82, and then in the respond phase of the second trial: the timer of finishTrial
  has started it with the draws 0, 1, 2, 3 and the last presentation timer has fired.
\<close>

definition cp_after_first :: cp_state where
  "cp_after_first = cp_onCellClick (cp_onCellClick (cp_onCellClick cp_trial_4_17_82 4) 17) 82"

definition cp_second :: "cp_state option" where
  "cp_second = map_option (\<lambda>st. st\<lparr>cp_phase := Respond\<rparr>)
                 (cp_startTrial cp_after_first 4 [0, 1, 2, 3])"

text \<open>
  A run of clicks on SpamperceptionBlocks, each with its clock reading and the draws for
  the trial it may start; \<open>None\<close> when a generator does not return.
\<close>

fun sp_clicks :: "sp_state \<Rightarrow> (rat \<times> nat \<times> nat list) list \<Rightarrow> sp_state option" where
  "sp_clicks s [] = Some s"
| "sp_clicks s ((nowPerf, cellIdx, draws) # rest) =
     (case sp_onCellClick s nowPerf cellIdx draws of
        None \<Rightarrow> None
      | Some s' \<Rightarrow> sp_clicks s' rest)"

subsection \<open>The order in which cells are first drawn\<close>

text \<open>
  The cells of \<open>xs\<close> in the order of their first appearance, leaving out the cells of
  \<open>seen\<close>: what a run of draws contributes to a sequence that already holds \<open>seen\<close>.
\<close>

fun first_seen :: "nat list \<Rightarrow> nat list \<Rightarrow> nat list" where
  "first_seen seen [] = []"
| "first_seen seen (x # xs) =
     (if x \<in> set seen then first_seen seen xs else x # first_seen (seen @ [x]) xs)"

subsection \<open>Sessions of span trials\<close>

text \<open>
  The outcomes of successive trials fed to finishTrial, starting from a state.
  For CentralPeripheralSpanTask \<open>cp_trials\<close> gives the state after them. For
  SpamperceptionBlocks every outcome comes with the draws for the trial that finishTrial
  starts, and \<open>sp_lengths\<close> reads \<open>seqLen\<close> off the states; \<open>None\<close> when a generator
  does not return.
\<close>

definition cp_trials :: "cp_state \<Rightarrow> bool list \<Rightarrow> cp_state" where
  "cp_trials st oks = foldl cp_finishTrial st oks"

fun sp_lengths :: "sp_state \<Rightarrow> (bool \<times> nat list) list \<Rightarrow> int list option" where
  "sp_lengths s [] = Some [sp_seqLen s]"
| "sp_lengths s ((ok, draws) # rest) =
     (case sp_finishTrial s ok draws of
        None \<Rightarrow> None
      | Some s' \<Rightarrow> map_option (\<lambda>ls. sp_seqLen s # ls) (sp_lengths s' rest))"

text \<open>
  A CentralPeripheralSpanTask session in its first block after four correct trials, and
  in its second and last block after four correct trials (the first block all correct).
\<close>

definition cp_first_block_at_7 :: cp_state where
  "cp_first_block_at_7 = cp_trials (cp_start cp_init) [True, True, True, True]"

definition cp_last_block_at_7 :: cp_state where
  "cp_last_block_at_7 =
     cp_trials (cp_start cp_init)
       [True, True, True, True, True, True, True, True, True, True, True, True, True, True]"

section \<open>Properties\<close>

subsection \<open>Span length adjustment\<close>

lemma cp_nextLen_spec: "cp_nextLen len ok = clamp_spec (len + (if ok then 1 else - 1)) 2 7"
  by (simp add: cp_nextLen_def clamp_spec_def MIN_LEN_def MAX_LEN_def)

lemma clamp_is_spec: "lo \<le> hi \<Longrightarrow> clamp v lo hi = clamp_spec v lo hi"
  by (simp add: clamp_def clamp_spec_def)

lemma cp_finishTrial_seqLen:
  "cp_trialIdx st + 1 < SEQS_PER_BLOCK \<Longrightarrow>
     cp_seqLen (cp_finishTrial st ok) = cp_nextLen (cp_seqLen st) ok"
  by (simp add: cp_finishTrial_def Let_def split: option.splits)

lemma cp_finishTrial_trialIdx:
  "cp_trialIdx st + 1 < SEQS_PER_BLOCK \<Longrightarrow>
     cp_trialIdx (cp_finishTrial st ok) = cp_trialIdx st + 1"
  by (simp add: cp_finishTrial_def Let_def split: option.splits)

lemma cp_finishTrial_next_trial:
  "cp_trialIdx st + 1 < SEQS_PER_BLOCK \<Longrightarrow>
     cp_timeouts (cp_finishTrial st ok) =
       cp_timeouts st @ [(600, CpStartTrial (cp_nextLen (cp_seqLen st) ok))]"
  by (simp add: cp_finishTrial_def Let_def split: option.splits)

lemma cp_lengths_span:
  "cp_trialIdx st + length oks < SEQS_PER_BLOCK \<Longrightarrow>
     cp_lengths st oks = span_lengths (cp_seqLen st) oks"
proof (induction oks arbitrary: st)
  case Nil
  then show ?case by simp
next
  case (Cons ok oks)
  then show ?case by (simp add: cp_finishTrial_seqLen cp_finishTrial_trialIdx)
qed

lemma sp_finishTrial_seqLen:
  "sp_finishTrial s ok draws = Some s' \<Longrightarrow>
     sp_seqLen s' = clamp (sp_seqLen s + (if ok then 1 else - 1)) MIN_LEN MAX_LEN"
  by (auto simp add: sp_finishTrial_def sp_startTrial_def sp_presentSequence_def Let_def
      split: if_splits option.splits prod.splits)

lemma span_lengths_up: "span_lengths 3 [True, True, True, True, True] = [3, 4, 5, 6, 7, 7]"
  by (simp add: cp_nextLen_def MIN_LEN_def MAX_LEN_def)

lemma span_lengths_down:
  "span_lengths 7 [False, False, False, False, False, False] = [7, 6, 5, 4, 3, 2, 2]"
  by (simp add: cp_nextLen_def MIN_LEN_def MAX_LEN_def)

subsection \<open>Presentation schedule\<close>

lemma cp_forEach_plan:
  "cp_forEach arr t ts =
     (t + (ON_MS + GAP_MS) * int (length arr), ts @ plan (\<lambda>c. CpSetLit (Some c)) (CpSetLit None) arr t)"
  by (induction arr arbitrary: t ts) (simp_all add: Let_def algebra_simps)

lemma sp_forEach_plan:
  "sp_forEach arr t ts =
     (t + (ON_MS + GAP_MS) * int (length arr), ts @ plan (\<lambda>c. SpSetLit (Some c)) (SpSetLit None) arr t)"
  by (induction arr arbitrary: t ts) (simp_all add: Let_def algebra_simps)

lemma length_plan: "length (plan on off arr t) = 2 * length arr"
  by (induction arr arbitrary: t) simp_all

lemma plan_nth:
  "k < length arr \<Longrightarrow>
     plan on off arr t ! (2 * k) = (t + int k * (ON_MS + GAP_MS), on (arr ! k)) \<and>
     plan on off arr t ! (2 * k + 1) = (t + int k * (ON_MS + GAP_MS) + ON_MS, off)"
proof (induction arr arbitrary: t k)
  case Nil
  then show ?case by simp
next
  case (Cons c cs)
  show ?case
  proof (cases k)
    case 0
    then show ?thesis by simp
  next
    case (Suc j)
    with Cons.prems have "j < length cs" by simp
    from Cons.IH [OF this, of "t + ON_MS + GAP_MS"] Suc show ?thesis
      by (simp add: algebra_simps)
  qed
qed

lemma plan_bounds:
  "d \<in> set (map fst (plan on off arr t)) \<Longrightarrow> t \<le> d \<and> d < t + (ON_MS + GAP_MS) * int (length arr)"
proof (induction arr arbitrary: t)
  case Nil
  then show ?case by simp
next
  case (Cons c cs)
  from Cons.prems have "d = t \<or> d = t + ON_MS \<or> d \<in> set (map fst (plan on off cs (t + ON_MS + GAP_MS)))"
    by auto
  then show ?case
  proof (elim disjE)
    assume "d \<in> set (map fst (plan on off cs (t + ON_MS + GAP_MS)))"
    from Cons.IH [OF this] show ?thesis by (simp add: ON_MS_def GAP_MS_def algebra_simps)
  qed (simp_all add: ON_MS_def GAP_MS_def algebra_simps)
qed

lemma plan_sorted:
  "sorted_wrt (<) (map fst (plan on off arr t) @ [t + (ON_MS + GAP_MS) * int (length arr)])"
proof (induction arr arbitrary: t)
  case Nil
  then show ?case by simp
next
  case (Cons c cs)
  have b: "\<forall>p \<in> set (plan on off cs (t + ON_MS + GAP_MS)). t + ON_MS < fst p \<and> t < fst p"
  proof
    fix p assume "p \<in> set (plan on off cs (t + ON_MS + GAP_MS))"
    then have "fst p \<in> set (map fst (plan on off cs (t + ON_MS + GAP_MS)))" by simp
    from plan_bounds [OF this] show "t + ON_MS < fst p \<and> t < fst p"
      by (simp add: ON_MS_def GAP_MS_def)
  qed
  have e: "t + ON_MS + GAP_MS + (ON_MS + GAP_MS) * int (length cs) = t + (ON_MS + GAP_MS) * int (length (c # cs))"
    by (simp add: algebra_simps)
  from Cons.IH [of "t + ON_MS + GAP_MS"] b e show ?case
    by (auto simp add: ON_MS_def GAP_MS_def algebra_simps)
qed

lemma cp_presentSeq_timers:
  "cp_timers (cp_presentSeq st arr) =
     cp_timers st @ plan (\<lambda>c. CpSetLit (Some c)) (CpSetLit None) arr 0 @
       [((ON_MS + GAP_MS) * int (length arr), CpSetPhase Respond)]"
  by (simp add: cp_presentSeq_def cp_forEach_plan)

lemma sp_presentSequence_timers:
  "sp_presentTimers (sp_presentSequence s arr) =
     sp_presentTimers s @ plan (\<lambda>c. SpSetLit (Some c)) (SpSetLit None) arr 0 @
       [((ON_MS + GAP_MS) * int (length arr),
         SpDone (mode_of (sp_blockIdx s)) (length arr) (sp_trialIdx s + 1))]"
  by (simp add: sp_presentSequence_def sp_forEach_plan Let_def)

lemma scheduled_shape:
  fixes sch :: "(int \<times> 'c) list"
  assumes "sch = plan on off arr 0 @ [((ON_MS + GAP_MS) * int (length arr), fin)]"
  shows "length sch = 2 * length arr + 1
   \<and> (\<forall>k < length arr.
         sch ! (2 * k) = (int k * (ON_MS + GAP_MS), on (arr ! k)) \<and>
         sch ! (2 * k + 1) = (int k * (ON_MS + GAP_MS) + ON_MS, off))
   \<and> sch ! (2 * length arr) = (int (length arr) * (ON_MS + GAP_MS), fin)
   \<and> sorted_wrt (<) (map fst sch)"
proof -
  have l: "length sch = 2 * length arr + 1"
    using assms by (simp add: length_plan)
  have n: "\<forall>k < length arr.
         sch ! (2 * k) = (int k * (ON_MS + GAP_MS), on (arr ! k)) \<and>
         sch ! (2 * k + 1) = (int k * (ON_MS + GAP_MS) + ON_MS, off)"
  proof (intro allI impI)
    fix k assume k: "k < length arr"
    then have "2 * k < length (plan on off arr 0)" "2 * k + 1 < length (plan on off arr 0)"
      by (simp_all add: length_plan)
    then have "sch ! (2 * k) = plan on off arr 0 ! (2 * k)"
      "sch ! (2 * k + 1) = plan on off arr 0 ! (2 * k + 1)"
      using assms by (simp_all add: nth_append)
    with plan_nth [OF k, of on off 0]
    show "sch ! (2 * k) = (int k * (ON_MS + GAP_MS), on (arr ! k)) \<and>
         sch ! (2 * k + 1) = (int k * (ON_MS + GAP_MS) + ON_MS, off)"
      by simp
  qed
  have f: "sch ! (2 * length arr) = (int (length arr) * (ON_MS + GAP_MS), fin)"
    using assms nth_append_length [of "plan on off arr 0"]
    by (simp add: length_plan mult.commute)
  have s: "sorted_wrt (<) (map fst sch)"
    using assms plan_sorted [of on off arr 0] by simp
  from l n f s show ?thesis by blast
qed

text \<open>
  C9. Presenting a sequence of length n adds 2n + 1 timers to the timer list, in this
  order: for the k-th element (counting from 0) its onset at k * (ON_MS + GAP_MS) and its
  offset ON_MS later, and last the change to the respond phase at n * (ON_MS + GAP_MS);
  the delays are strictly increasing along the list; ON_MS is 600 and GAP_MS is 400.
  This holds for presentSeq of CentralPeripheralSpanTask and for presentSequence of
  SpamperceptionBlocks.
\<close>

theorem presentation_schedule:
  "cp_timers (cp_presentSeq st arr) = cp_timers st @ cp_scheduled st arr
   \<and> length (cp_scheduled st arr) = 2 * length arr + 1
   \<and> (\<forall>k < length arr.
         cp_scheduled st arr ! (2 * k) = (int k * (ON_MS + GAP_MS), CpSetLit (Some (arr ! k))) \<and>
         cp_scheduled st arr ! (2 * k + 1) = (int k * (ON_MS + GAP_MS) + ON_MS, CpSetLit None))
   \<and> cp_scheduled st arr ! (2 * length arr)
        = (int (length arr) * (ON_MS + GAP_MS), CpSetPhase Respond)
   \<and> sorted_wrt (<) (map fst (cp_scheduled st arr))
   \<and> sp_presentTimers (sp_presentSequence s arr) = sp_presentTimers s @ sp_scheduled s arr
   \<and> length (sp_scheduled s arr) = 2 * length arr + 1
   \<and> (\<forall>k < length arr.
         sp_scheduled s arr ! (2 * k) = (int k * (ON_MS + GAP_MS), SpSetLit (Some (arr ! k))) \<and>
         sp_scheduled s arr ! (2 * k + 1) = (int k * (ON_MS + GAP_MS) + ON_MS, SpSetLit None))
   \<and> sp_scheduled s arr ! (2 * length arr)
        = (int (length arr) * (ON_MS + GAP_MS),
           SpDone (mode_of (sp_blockIdx s)) (length arr) (sp_trialIdx s + 1))
   \<and> sorted_wrt (<) (map fst (sp_scheduled s arr))
   \<and> ON_MS = 600 \<and> GAP_MS = 400"
proof -
  have c: "cp_scheduled st arr = plan (\<lambda>c. CpSetLit (Some c)) (CpSetLit None) arr 0 @
       [((ON_MS + GAP_MS) * int (length arr), CpSetPhase Respond)]"
    by (simp add: cp_scheduled_def cp_presentSeq_timers)
  have c0: "cp_timers (cp_presentSeq st arr) = cp_timers st @ cp_scheduled st arr"
    by (simp add: c cp_presentSeq_timers)
  have p: "sp_scheduled s arr = plan (\<lambda>c. SpSetLit (Some c)) (SpSetLit None) arr 0 @
       [((ON_MS + GAP_MS) * int (length arr),
         SpDone (mode_of (sp_blockIdx s)) (length arr) (sp_trialIdx s + 1))]"
    by (simp add: sp_scheduled_def sp_presentSequence_timers)
  have p0: "sp_presentTimers (sp_presentSequence s arr) = sp_presentTimers s @ sp_scheduled s arr"
    by (simp add: p sp_presentSequence_timers)
  have k: "ON_MS = 600 \<and> GAP_MS = 400" by (simp add: ON_MS_def GAP_MS_def)
  from c0 p0 k scheduled_shape [OF c] scheduled_shape [OF p] show ?thesis by blast
qed

text \<open>C9 for the sequence 4, 17, 82, at its elements 1 and 2.\<close>

theorem presentation_schedule_witness:
  "(1::nat) < length [4, 17, 82 :: nat] \<and> (2::nat) < length [4, 17, 82 :: nat]
   \<and> cp_scheduled cp_init [4, 17, 82] =
       [(0, CpSetLit (Some 4)), (600, CpSetLit None), (1000, CpSetLit (Some 17)),
        (1600, CpSetLit None), (2000, CpSetLit (Some 82)), (2600, CpSetLit None),
        (3000, CpSetPhase Respond)]
   \<and> cp_scheduled cp_init [4, 17, 82] ! (2 * 1) = (1000, CpSetLit (Some 17))
   \<and> sp_scheduled sp_init [4, 17, 82] ! (2 * 2 + 1) = (2600, SpSetLit None)"
proof -
  have a: "cp_scheduled cp_init [4, 17, 82] =
       [(0, CpSetLit (Some 4)), (600, CpSetLit None), (1000, CpSetLit (Some 17)),
        (1600, CpSetLit None), (2000, CpSetLit (Some 82)), (2600, CpSetLit None),
        (3000, CpSetPhase Respond)]"
    by (simp add: cp_scheduled_def cp_presentSeq_def cp_init_def Let_def ON_MS_def GAP_MS_def)
  have b: "(1::nat) < length [4, 17, 82 :: nat]" "(2::nat) < length [4, 17, 82 :: nat]" by simp_all
  from presentation_schedule [of cp_init "[4, 17, 82]" sp_init] b
  have "cp_scheduled cp_init [4, 17, 82] ! (2 * 1) = (int 1 * (ON_MS + GAP_MS), CpSetLit (Some ([4, 17, 82] ! 1)))"
    and "sp_scheduled sp_init [4, 17, 82] ! (2 * 2 + 1) = (int 2 * (ON_MS + GAP_MS) + ON_MS, SpSetLit None)"
    by blast+
  then have c: "cp_scheduled cp_init [4, 17, 82] ! (2 * 1) = (1000, CpSetLit (Some 17))"
    and d: "sp_scheduled sp_init [4, 17, 82] ! (2 * 2 + 1) = (2600, SpSetLit None)"
    by (simp_all add: ON_MS_def GAP_MS_def)
  from a b c d show ?thesis by blast
qed

subsection \<open>Go/no-go scoring\<close>

lemma gn_stop_fields [simp]:
  "gn_hits (gn_stop s) = gn_hits s"
  "gn_errors (gn_stop s) = gn_errors s"
  "gn_misses (gn_stop s) = gn_misses s"
  "gn_reactionWindowMs (gn_stop s) = gn_reactionWindowMs s"
  "gn_adaptHistory (gn_stop s) = gn_adaptHistory s"
  "gn_reactionList (gn_stop s) = gn_reactionList s"
  "gn_totalShown (gn_stop s) = gn_totalShown s"
  by (simp_all add: gn_stop_def Let_def)

lemma queueSpawn_fields [simp]:
  "gn_hits (queueSpawn s) = gn_hits s"
  "gn_errors (queueSpawn s) = gn_errors s"
  "gn_misses (queueSpawn s) = gn_misses s"
  "gn_reactionWindowMs (queueSpawn s) = gn_reactionWindowMs s"
  "gn_adaptHistory (queueSpawn s) = gn_adaptHistory s"
  "gn_reactionList (queueSpawn s) = gn_reactionList s"
  "gn_totalShown (queueSpawn s) = gn_totalShown s"
  by (simp_all add: queueSpawn_def)

lemma gn_remove_fields [simp]:
  "gn_hits (gn_remove s i) = gn_hits s"
  "gn_errors (gn_remove s i) = gn_errors s"
  "gn_misses (gn_remove s i) = gn_misses s"
  "gn_reactionWindowMs (gn_remove s i) = gn_reactionWindowMs s"
  "gn_adaptHistory (gn_remove s i) = gn_adaptHistory s"
  "gn_reactionList (gn_remove s i) = gn_reactionList s"
  "gn_totalShown (gn_remove s i) = gn_totalShown s"
  by (simp_all add: gn_remove_def Let_def)

lemma adaptDifficulty_fields [simp]:
  "gn_hits (adaptDifficulty s) = gn_hits s"
  "gn_errors (adaptDifficulty s) = gn_errors s"
  "gn_misses (adaptDifficulty s) = gn_misses s"
  "gn_reactionList (adaptDifficulty s) = gn_reactionList s"
  "gn_totalShown (adaptDifficulty s) = gn_totalShown s"
  "gn_displayTimers (adaptDifficulty s) = gn_displayTimers s"
  "gn_stimuli (adaptDifficulty s) = gn_stimuli s"
  by (simp_all add: adaptDifficulty_def Let_def)

lemma gn_score_counters:
  "gn_hits (gn_score s stim rt w d) = (if s_color stim = green \<and> w then gn_hits s + 1 else gn_hits s)"
  "gn_errors (gn_score s stim rt w d) = (if s_color stim = green \<and> w then gn_errors s else gn_errors s + 1)"
  "gn_misses (gn_score s stim rt w d) = gn_misses s"
  by (simp_all add: gn_score_def Let_def)

lemma gn_score_timer_cleared: "s_id stim \<notin> set (gn_displayTimers (gn_score s stim rt w d))"
  by (simp add: gn_score_def gn_remove_def gn_stop_def queueSpawn_def Let_def)

lemma gn_score_stim_removed: "find (\<lambda>x. s_id x = s_id stim) (gn_stimuli (gn_score s stim rt w d)) = None"
  by (simp add: gn_score_def gn_remove_def gn_stop_def queueSpawn_def Let_def find_None_iff)

lemma onCellClick_target:
  "gn_running s \<Longrightarrow> color_target s c = Some stim \<Longrightarrow>
     onCellClick s c t1 t2 d =
       gn_score s stim (t1 - s_shownAt stim) (t2 - s_shownAt stim \<le> gn_reactionWindowMs s)
         (Some (Math_round d))"
  by (auto simp add: onCellClick_def color_target_def Let_def
      split: list.splits option.splits if_splits)

lemma onCellClick_empty:
  "gn_running s \<Longrightarrow> color_target s c = None \<Longrightarrow>
     onCellClick s c t1 t2 d =
       s\<lparr>gn_errors := gn_errors s + 1, gn_events := gn_events s @ [ERROR_EMPTY c]\<rparr>"
  by (auto simp add: onCellClick_def color_target_def Let_def split: list.splits option.splits)

lemma edges_onCellClick_target:
  "gn_running s \<Longrightarrow> edges_target s c = Some stim \<Longrightarrow>
     edges_onCellClick s c t =
       gn_score s stim (t - s_shownAt stim) (t - s_shownAt stim \<le> gn_reactionWindowMs s) None"
  by (simp add: edges_onCellClick_def edges_target_def Let_def)

lemma edges_onCellClick_empty:
  "gn_running s \<Longrightarrow> edges_target s c = None \<Longrightarrow>
     edges_onCellClick s c t =
       s\<lparr>gn_errors := gn_errors s + 1, gn_events := gn_events s @ [ERROR_EMPTY c]\<rparr>"
  by (simp add: edges_onCellClick_def edges_target_def Let_def)

lemma onCellClick_counters:
  assumes "gn_running s"
  shows "gn_hits (onCellClick s c t1 t2 d) = (if is_hit s (color_target s c) t2 then gn_hits s + 1 else gn_hits s)"
    and "gn_errors (onCellClick s c t1 t2 d) = (if is_hit s (color_target s c) t2 then gn_errors s else gn_errors s + 1)"
    and "gn_misses (onCellClick s c t1 t2 d) = gn_misses s"
  using assms
  by (cases "color_target s c";
      simp add: onCellClick_target onCellClick_empty gn_score_counters is_hit_def)+

lemma edges_onCellClick_counters:
  assumes "gn_running s"
  shows "gn_hits (edges_onCellClick s c t) = (if is_hit s (edges_target s c) t then gn_hits s + 1 else gn_hits s)"
    and "gn_errors (edges_onCellClick s c t) = (if is_hit s (edges_target s c) t then gn_errors s else gn_errors s + 1)"
    and "gn_misses (edges_onCellClick s c t) = gn_misses s"
  using assms
  by (cases "edges_target s c";
      simp add: edges_onCellClick_target edges_onCellClick_empty gn_score_counters is_hit_def)+

lemma gn_expire_counters:
  "gn_hits (gn_expire s sid) = gn_hits s"
  "gn_errors (gn_expire s sid) = gn_errors s"
  "gn_misses (gn_expire s sid) =
     (case find (\<lambda>x. s_id x = sid) (gn_stimuli s) of
        None \<Rightarrow> gn_misses s
      | Some stim \<Rightarrow> if s_color stim = green then gn_misses s + 1 else gn_misses s)"
  by (simp_all add: gn_expire_def Let_def split: option.splits)

lemma color_target_single:
  "gn_stimuli s = [stim] \<Longrightarrow> color_target s c = (if s_idx stim = c then Some stim else None)"
  by (simp add: color_target_def)

lemma edges_target_single:
  "gn_stimuli s = [stim] \<Longrightarrow> edges_target s c = (if s_idx stim = c then Some stim else None)"
  by (simp add: edges_target_def)

lemma color_target_None: "color_target s c = None \<longleftrightarrow> (\<forall>x \<in> set (gn_stimuli s). s_idx x \<noteq> c)"
proof -
  have "color_target s c = None \<longleftrightarrow> filter (\<lambda>x. s_idx x = c) (gn_stimuli s) = []"
    by (simp add: color_target_def split: list.splits)
  then show ?thesis by (simp add: filter_empty_conv)
qed

lemma edges_target_None: "edges_target s c = None \<longleftrightarrow> (\<forall>x \<in> set (gn_stimuli s). s_idx x \<noteq> c)"
  by (auto simp add: edges_target_def find_None_iff)

lemma color_target_Some:
  assumes "color_target s c = Some stim"
  shows "stim \<in> set (gn_stimuli s) \<and> s_idx stim = c"
proof -
  from assms obtain first rest where f: "filter (\<lambda>x. s_idx x = c) (gn_stimuli s) = first # rest"
    by (auto simp add: color_target_def split: list.splits)
  with assms have "stim = first \<or> find (\<lambda>x. s_color x = green) (first # rest) = Some stim"
    by (auto simp add: color_target_def split: option.splits if_splits)
  then have "stim \<in> set (first # rest)"
    by (auto simp add: find_Some_iff in_set_conv_nth split: if_splits)
  with f have "stim \<in> set (filter (\<lambda>x. s_idx x = c) (gn_stimuli s))" by simp
  then show ?thesis by simp
qed

lemma edges_target_Some:
  "edges_target s c = Some stim \<Longrightarrow> stim \<in> set (gn_stimuli s) \<and> s_idx stim = c"
  by (auto simp add: edges_target_def find_Some_iff)

text \<open>
  C3. While the engine runs, a click is a hit exactly when the clicked cell holds a
  displayed stimulus, the stimulus the handler settles on there is green, and the time
  since its onset is at most the reaction window; then the hit counter goes up by one
  and the error counter stays. Every other click (empty cell, red stimulus, window
  elapsed) leaves the hit counter and puts the error counter up by one. No click changes
  the miss counter, and a click on a stimulus cancels its display timer and takes it off
  the board. When the display timer of a stimulus that is still on the board fires, the
  miss counter goes up by one if the stimulus is green and stays if it is red; hits and
  errors stay. The target of a click is a stimulus of the board in the clicked cell, and
  there is none exactly when no stimulus of the board is in that cell.
\<close>

theorem go_nogo_scoring:
  "(gn_running s \<longrightarrow>
      (gn_hits (onCellClick s c t1 t2 d) = gn_hits s + 1 \<longleftrightarrow> is_hit s (color_target s c) t2)
      \<and> (is_hit s (color_target s c) t2 \<longrightarrow> gn_errors (onCellClick s c t1 t2 d) = gn_errors s)
      \<and> (\<not> is_hit s (color_target s c) t2 \<longrightarrow>
            gn_hits (onCellClick s c t1 t2 d) = gn_hits s
            \<and> gn_errors (onCellClick s c t1 t2 d) = gn_errors s + 1)
      \<and> gn_misses (onCellClick s c t1 t2 d) = gn_misses s
      \<and> (\<forall>stim. color_target s c = Some stim \<longrightarrow>
            s_id stim \<notin> set (gn_displayTimers (onCellClick s c t1 t2 d))
            \<and> find (\<lambda>x. s_id x = s_id stim) (gn_stimuli (onCellClick s c t1 t2 d)) = None))
   \<and> (gn_running s \<longrightarrow>
      (gn_hits (edges_onCellClick s c t) = gn_hits s + 1 \<longleftrightarrow> is_hit s (edges_target s c) t)
      \<and> (is_hit s (edges_target s c) t \<longrightarrow> gn_errors (edges_onCellClick s c t) = gn_errors s)
      \<and> (\<not> is_hit s (edges_target s c) t \<longrightarrow>
            gn_hits (edges_onCellClick s c t) = gn_hits s
            \<and> gn_errors (edges_onCellClick s c t) = gn_errors s + 1)
      \<and> gn_misses (edges_onCellClick s c t) = gn_misses s
      \<and> (\<forall>stim. edges_target s c = Some stim \<longrightarrow>
            s_id stim \<notin> set (gn_displayTimers (edges_onCellClick s c t))
            \<and> find (\<lambda>x. s_id x = s_id stim) (gn_stimuli (edges_onCellClick s c t)) = None))
   \<and> (\<forall>stim. find (\<lambda>x. s_id x = sid) (gn_stimuli s) = Some stim \<longrightarrow>
         gn_misses (gn_expire s sid) = (if s_color stim = green then gn_misses s + 1 else gn_misses s)
         \<and> gn_hits (gn_expire s sid) = gn_hits s
         \<and> gn_errors (gn_expire s sid) = gn_errors s)
   \<and> (\<forall>stim. color_target s c = Some stim \<longrightarrow> stim \<in> set (gn_stimuli s) \<and> s_idx stim = c)
   \<and> (\<forall>stim. edges_target s c = Some stim \<longrightarrow> stim \<in> set (gn_stimuli s) \<and> s_idx stim = c)
   \<and> (color_target s c = None \<longleftrightarrow> (\<forall>x \<in> set (gn_stimuli s). s_idx x \<noteq> c))
   \<and> (edges_target s c = None \<longleftrightarrow> (\<forall>x \<in> set (gn_stimuli s). s_idx x \<noteq> c))"
proof -
  have A: "gn_running s \<longrightarrow>
      (gn_hits (onCellClick s c t1 t2 d) = gn_hits s + 1 \<longleftrightarrow> is_hit s (color_target s c) t2)
      \<and> (is_hit s (color_target s c) t2 \<longrightarrow> gn_errors (onCellClick s c t1 t2 d) = gn_errors s)
      \<and> (\<not> is_hit s (color_target s c) t2 \<longrightarrow>
            gn_hits (onCellClick s c t1 t2 d) = gn_hits s
            \<and> gn_errors (onCellClick s c t1 t2 d) = gn_errors s + 1)
      \<and> gn_misses (onCellClick s c t1 t2 d) = gn_misses s
      \<and> (\<forall>stim. color_target s c = Some stim \<longrightarrow>
            s_id stim \<notin> set (gn_displayTimers (onCellClick s c t1 t2 d))
            \<and> find (\<lambda>x. s_id x = s_id stim) (gn_stimuli (onCellClick s c t1 t2 d)) = None)"
    by (simp add: onCellClick_counters onCellClick_target gn_score_timer_cleared
        gn_score_stim_removed)
  have B: "gn_running s \<longrightarrow>
      (gn_hits (edges_onCellClick s c t) = gn_hits s + 1 \<longleftrightarrow> is_hit s (edges_target s c) t)
      \<and> (is_hit s (edges_target s c) t \<longrightarrow> gn_errors (edges_onCellClick s c t) = gn_errors s)
      \<and> (\<not> is_hit s (edges_target s c) t \<longrightarrow>
            gn_hits (edges_onCellClick s c t) = gn_hits s
            \<and> gn_errors (edges_onCellClick s c t) = gn_errors s + 1)
      \<and> gn_misses (edges_onCellClick s c t) = gn_misses s
      \<and> (\<forall>stim. edges_target s c = Some stim \<longrightarrow>
            s_id stim \<notin> set (gn_displayTimers (edges_onCellClick s c t))
            \<and> find (\<lambda>x. s_id x = s_id stim) (gn_stimuli (edges_onCellClick s c t)) = None)"
    by (simp add: edges_onCellClick_counters edges_onCellClick_target gn_score_timer_cleared
        gn_score_stim_removed)
  have E: "\<forall>stim. find (\<lambda>x. s_id x = sid) (gn_stimuli s) = Some stim \<longrightarrow>
         gn_misses (gn_expire s sid) = (if s_color stim = green then gn_misses s + 1 else gn_misses s)
         \<and> gn_hits (gn_expire s sid) = gn_hits s
         \<and> gn_errors (gn_expire s sid) = gn_errors s"
    by (simp add: gn_expire_counters)
  have T1: "\<forall>stim. color_target s c = Some stim \<longrightarrow> stim \<in> set (gn_stimuli s) \<and> s_idx stim = c"
    using color_target_Some by blast
  have T2: "\<forall>stim. edges_target s c = Some stim \<longrightarrow> stim \<in> set (gn_stimuli s) \<and> s_idx stim = c"
    using edges_target_Some by blast
  note T3 = color_target_None [of s c] and T4 = edges_target_None [of s c]
  show ?thesis
    by (intro conjI) (rule A B E T1 T2 T3 T4)+
qed

lemma green_board_eq:
  "green_board = gn_init\<lparr>gn_running := True, gn_events := [GN_START, STIMULUS 1 42 green 900],
     gn_lastPlacedIdx := Some 42, gn_displayTimers := [1],
     gn_stimuli := [\<lparr>s_id = 1, s_idx = 42, s_color = green, s_shownAt = 1000, s_expiresAt = 1900\<rparr>],
     gn_totalShown := 1\<rparr>"
  by (simp add: green_board_def gn_spawnTick_def spawnStimulus_def gn_start_def gn_reset_def
      queueSpawn_def gn_init_def Let_def MAX_ACTIVE_def TOTAL_STIMULI_def)

lemma red_board_eq:
  "red_board = gn_init\<lparr>gn_running := True, gn_events := [GN_START, STIMULUS 1 42 red 900],
     gn_lastPlacedIdx := Some 42, gn_displayTimers := [1],
     gn_stimuli := [\<lparr>s_id = 1, s_idx = 42, s_color = red, s_shownAt = 1000, s_expiresAt = 1900\<rparr>],
     gn_totalShown := 1\<rparr>"
  by (simp add: red_board_def gn_spawnTick_def spawnStimulus_def gn_start_def gn_reset_def
      queueSpawn_def gn_init_def Let_def MAX_ACTIVE_def TOTAL_STIMULI_def)

text \<open>
  C3 on the board with one green stimulus in cell 42, shown at 1000 with the window at
  800: a click on it at 1500 is a hit, a click on it at 2000 is late, a click on cell 7
  is an error, and its display timer firing is a miss.
\<close>

theorem go_nogo_scoring_witness:
  "gn_running green_board
   \<and> is_hit green_board (color_target green_board 42) 1500
   \<and> gn_hits (onCellClick green_board 42 1500 1500 3) = 1
   \<and> gn_errors (onCellClick green_board 42 1500 1500 3) = 0
   \<and> \<not> is_hit green_board (edges_target green_board 42) 2000
   \<and> gn_errors (edges_onCellClick green_board 42 2000) = 1
   \<and> \<not> is_hit green_board (color_target green_board 7) 1500
   \<and> gn_errors (onCellClick green_board 7 1500 1500 3) = 1
   \<and> find (\<lambda>x. s_id x = 1) (gn_stimuli green_board)
       = Some \<lparr>s_id = 1, s_idx = 42, s_color = green, s_shownAt = 1000, s_expiresAt = 1900\<rparr>
   \<and> gn_misses (gn_expire green_board 1) = 1
   \<and> 1 \<notin> set (gn_displayTimers (onCellClick green_board 42 1500 1500 3))"
proof -
  have r: "gn_running green_board" by (simp add: green_board_eq gn_init_def)
  have z: "gn_hits green_board = 0" "gn_errors green_board = 0" "gn_misses green_board = 0"
    by (simp_all add: green_board_eq gn_init_def)
  have tg: "color_target green_board 42
       = Some \<lparr>s_id = 1, s_idx = 42, s_color = green, s_shownAt = 1000, s_expiresAt = 1900\<rparr>"
    by (simp add: color_target_def green_board_eq gn_init_def)
  have h1: "is_hit green_board (color_target green_board 42) 1500"
    by (simp add: is_hit_def color_target_def green_board_eq gn_init_def)
  have h2: "\<not> is_hit green_board (edges_target green_board 42) 2000"
    by (simp add: is_hit_def edges_target_def green_board_eq gn_init_def)
  have h3: "\<not> is_hit green_board (color_target green_board 7) 1500"
    by (simp add: is_hit_def color_target_def green_board_eq gn_init_def)
  have f: "find (\<lambda>x. s_id x = 1) (gn_stimuli green_board)
       = Some \<lparr>s_id = 1, s_idx = 42, s_color = green, s_shownAt = 1000, s_expiresAt = 1900\<rparr>"
    by (simp add: green_board_eq gn_init_def)
  from go_nogo_scoring [of green_board 42 1500 1500 3 2000 1] r h1 h2 z tg f
  have c1: "gn_hits (onCellClick green_board 42 1500 1500 3) = 1"
    and c2: "gn_errors (onCellClick green_board 42 1500 1500 3) = 0"
    and c3: "gn_errors (edges_onCellClick green_board 42 2000) = 1"
    and c4: "gn_misses (gn_expire green_board 1) = 1"
    and c5: "1 \<notin> set (gn_displayTimers (onCellClick green_board 42 1500 1500 3))"
    by auto
  from go_nogo_scoring [of green_board 7 1500 1500 3 2000 1] r h3 z
  have c6: "gn_errors (onCellClick green_board 7 1500 1500 3) = 1"
    by auto
  from r h1 h2 h3 f c1 c2 c3 c4 c5 c6 show ?thesis by blast
qed

subsection \<open>Rounding\<close>

lemma Math_round_of_int [simp]: "Math_round (of_int n) = n"
  by (simp add: Math_round_def floor_eq_iff)

lemma Math_round_numeral [simp]: "Math_round (numeral k) = numeral k"
  using Math_round_of_int [of "numeral k"] by simp

lemma Math_round_zero [simp]: "Math_round 0 = 0"
  using Math_round_of_int [of 0] by simp

lemma Math_round_iff: "Math_round x = n \<longleftrightarrow> of_int n - 1 / 2 \<le> x \<and> x < of_int n + 1 / 2"
  by (auto simp add: Math_round_def floor_eq_iff)

subsection \<open>Rounding to doubles\<close>

lemma round_even_err: "\<bar>of_int (round_even y) - y\<bar> \<le> 1 / 2"
proof -
  let ?n = "\<lfloor>y\<rfloor>"
  let ?f = "y - of_int ?n"
  have a: "0 \<le> ?f" "?f < 1" by linarith+
  show ?thesis
  proof (cases "?f < 1 / 2")
    case True
    then have r: "round_even y = ?n" by (simp add: round_even_def Let_def)
    from a True have "\<bar>of_int ?n - y\<bar> \<le> 1 / 2" by linarith
    then show ?thesis by (simp only: r)
  next
    case False
    show ?thesis
    proof (cases "1 / 2 < ?f")
      case True
      with False have r: "round_even y = ?n + 1" by (simp add: round_even_def Let_def)
      from a True have "\<bar>of_int (?n + 1) - y\<bar> \<le> 1 / 2" by simp
      then show ?thesis by (simp only: r)
    next
      case h: False
      with False have f: "?f = 1 / 2" by simp
      then have r: "round_even y = ?n \<or> round_even y = ?n + 1" by (simp add: round_even_def Let_def)
      from f have "\<bar>of_int ?n - y\<bar> \<le> 1 / 2" by linarith
      moreover from f have "\<bar>of_int (?n + 1) - y\<bar> \<le> 1 / 2" by simp
      ultimately have "\<bar>of_int ?n - y\<bar> \<le> 1 / 2" "\<bar>of_int (?n + 1) - y\<bar> \<le> 1 / 2" .
      with r show ?thesis by auto
    qed
  qed
qed

lemma pow2_bitlen:
  assumes "0 < p"
  shows "(2::rat) powi (bitlen p - 1) \<le> of_int p" "of_int p < (2::rat) powi (bitlen p)"
proof -
  from bitlen_bounds [OF assms]
  have a: "2 ^ nat (bitlen p - 1) \<le> p" and b: "p < 2 ^ nat (bitlen p)" by simp_all
  have pos: "0 < bitlen p"
  proof (rule ccontr)
    assume "\<not> 0 < bitlen p"
    then have "nat (bitlen p) = 0" by simp
    with b have "p < 1" by simp
    with assms show False by simp
  qed
  from a have "(of_int (2 ^ nat (bitlen p - 1)) :: rat) \<le> of_int p" by (simp only: of_int_le_iff)
  then have "(2::rat) ^ nat (bitlen p - 1) \<le> of_int p" by simp
  with pos show "(2::rat) powi (bitlen p - 1) \<le> of_int p"
    by (simp add: power_int_def)
  from b have "(of_int p :: rat) < of_int (2 ^ nat (bitlen p))" by (simp only: of_int_less_iff)
  then have "(of_int p :: rat) < 2 ^ nat (bitlen p)" by simp
  with pos show "of_int p < (2::rat) powi (bitlen p)"
    by (simp add: power_int_def)
qed

text \<open>\<open>expo\<close> is the exponent: the power of two at or below a positive number.\<close>

lemma expo_bounds:
  assumes "0 < x"
  shows "2 powi (expo x) \<le> x \<and> x < 2 powi (expo x + 1)"
proof -
  obtain p q where pq: "quotient_of x = (p, q)" by (cases "quotient_of x")
  then have q: "0 < q" by (rule quotient_of_denom_pos)
  from pq have x: "x = of_int p / of_int q" by (rule quotient_of_div)
  with assms q have p: "0 < p" by (simp add: zero_less_divide_iff)
  let ?d = "bitlen p - bitlen q"
  note P = pow2_bitlen [OF p] and Q = pow2_bitlen [OF q]
  have qpos: "(0::rat) < of_int q" using q by simp
  have two: "(0::rat) < 2 powi k" for k by simp
  have "x < 2 powi (bitlen p) / 2 powi (bitlen q - 1)"
  proof -
    have "x < 2 powi (bitlen p) / of_int q" unfolding x using P(2) qpos
      by (simp add: divide_strict_right_mono)
    also have "\<dots> \<le> 2 powi (bitlen p) / 2 powi (bitlen q - 1)"
      using Q(1) two [of "bitlen q - 1"] two [of "bitlen p"]
      by (simp add: frac_le)
    finally show ?thesis .
  qed
  then have up: "x < 2 powi (?d + 1)"
    by (simp add: power_int_diff [symmetric] algebra_simps)
  have "2 powi (bitlen p - 1) / 2 powi (bitlen q) < x"
  proof -
    have "2 powi (bitlen p - 1) / 2 powi (bitlen q) < 2 powi (bitlen p - 1) / (of_int q :: rat)"
      using Q(2) qpos two [of "bitlen p - 1"]
      by (simp add: divide_strict_left_mono)
    also have "\<dots> \<le> x" unfolding x using P(1) qpos
      by (simp add: divide_right_mono)
    finally show ?thesis .
  qed
  then have lo: "2 powi (?d - 1) < x"
    by (simp add: power_int_diff [symmetric] algebra_simps)
  have e: "expo x = (if x < 2 powi ?d then ?d - 1 else ?d)"
    by (simp add: expo_def pq Let_def)
  show ?thesis
  proof (cases "x < 2 powi ?d")
    case True
    with e lo show ?thesis by simp
  next
    case False
    with e up show ?thesis by simp
  qed
qed

lemma expo_unique:
  assumes lo: "2 powi e \<le> x" and up: "x < 2 powi (e + 1)"
  shows "expo x = e"
proof -
  have "(0::rat) < 2 powi e" by simp
  from this lo have pos: "0 < x" by (rule less_le_trans)
  note B = expo_bounds [OF pos]
  have "\<not> e + 1 \<le> expo x"
  proof
    assume "e + 1 \<le> expo x"
    then have "(2::rat) powi (e + 1) \<le> 2 powi (expo x)" by (simp add: power_int_increasing)
    with B up show False by simp
  qed
  moreover have "\<not> expo x + 1 \<le> e"
  proof
    assume "expo x + 1 \<le> e"
    then have "(2::rat) powi (expo x + 1) \<le> 2 powi e" by (simp add: power_int_increasing)
    with B lo show False by simp
  qed
  ultimately show ?thesis by simp
qed

lemma fl_0 [simp]: "fl 0 = 0"
  by (simp add: fl_def)

text \<open>The relative error of one rounding is at most \<open>2 ^ -53\<close>.\<close>

lemma fl_err:
  assumes "0 < x"
  shows "\<bar>fl x - x\<bar> \<le> x / 2 ^ 53"
proof -
  let ?u = "(2::rat) powi (expo x - 52)"
  let ?r = "round_even (x / ?u)"
  have u: "0 < ?u" by simp
  from assms have f: "fl x = of_int ?r * ?u" by (simp add: fl_def Let_def)
  have "\<bar>of_int ?r * ?u - x\<bar> = \<bar>of_int ?r - x / ?u\<bar> * ?u"
  proof -
    have "of_int ?r * ?u - x = (of_int ?r - x / ?u) * ?u" using u by (simp add: field_simps)
    then have "\<bar>of_int ?r * ?u - x\<bar> = \<bar>of_int ?r - x / ?u\<bar> * \<bar>?u\<bar>" by (simp only: abs_mult)
    with u show ?thesis by simp
  qed
  also have "\<dots> \<le> 1 / 2 * ?u" using round_even_err [of "x / ?u"] u
    by (simp only: mult_right_mono less_imp_le)
  also have "1 / 2 * ?u = 2 powi (expo x) / 2 ^ 53"
  proof -
    have "(2::rat) powi (expo x - 52) = 2 powi (expo x) / 2 powi 52"
      by (simp add: power_int_diff)
    then show ?thesis by simp
  qed
  also have "\<dots> \<le> x / 2 ^ 53" using expo_bounds [OF assms] by (simp add: divide_right_mono)
  finally show ?thesis by (simp only: f)
qed

text \<open>The double \<open>(h / t) * 100\<close> is within \<open>300 / 2 ^ 53\<close> of the exact percentage.\<close>

lemma pct_err:
  assumes t: "0 < t" and h: "h \<le> t"
  shows "\<bar>dbl_mul (dbl_div (of_nat h) (of_nat t)) 100 - 100 * of_nat h / of_nat t\<bar> \<le> 300 / 2 ^ 53"
proof (cases "h = 0")
  case True
  then show ?thesis by (simp add: dbl_mul_def dbl_div_def)
next
  case False
  let ?a = "of_nat h / of_nat t :: rat"
  let ?A = "fl ?a"
  from False t have a0: "0 < ?a" by simp
  from h t have a1: "?a \<le> 1" by simp
  from fl_err [OF a0] have ea: "\<bar>?A - ?a\<bar> \<le> ?a / 2 ^ 53" .
  from a1 have "?a / 2 ^ 53 \<le> 1 / 2 ^ 53" by (simp only: divide_right_mono zero_le_numeral zero_le_power)
  with ea have ea1: "\<bar>?A - ?a\<bar> \<le> 1 / 2 ^ 53" by (rule order_trans)
  have "?a / 2 ^ 53 < ?a" using a0 by simp
  with ea have A0: "0 < ?A" by linarith
  have "(1::rat) / 2 ^ 53 \<le> 1" by simp
  with ea1 a1 have A2: "?A \<le> 2" by linarith
  let ?b = "?A * 100"
  from A0 have b0: "0 < ?b" by simp
  from fl_err [OF b0] have eb: "\<bar>fl ?b - ?b\<bar> \<le> ?b / 2 ^ 53" .
  from A2 have "?b \<le> 200" by simp
  then have "?b / 2 ^ 53 \<le> 200 / 2 ^ 53" by (simp only: divide_right_mono zero_le_numeral zero_le_power)
  with eb have eb1: "\<bar>fl ?b - ?b\<bar> \<le> 200 / 2 ^ 53" by (rule order_trans)
  from eb1 ea1 have "\<bar>fl ?b - 100 * ?a\<bar> \<le> 200 / 2 ^ 53 + 100 * (1 / 2 ^ 53)" by linarith
  then have "\<bar>fl ?b - 100 * ?a\<bar> \<le> 300 / 2 ^ 53" by simp
  then show ?thesis by (simp only: dbl_mul_def dbl_div_def times_divide_eq_right)
qed

text \<open>
  \<open>Math.round\<close> of a number that close to the exact percentage: the exact percentage
  rounded, \<open>(200 * h + t) div (2 * t)\<close>, or one less; one less only where the exact
  percentage lies halfway between two integers.
\<close>

lemma Math_round_near:
  assumes t: "0 < t" and b: "t < 2 ^ 43"
    and e: "\<bar>B - 100 * of_nat h / of_nat t\<bar> \<le> 300 / 2 ^ 53"
  shows "((200 * int h + int t) mod (2 * int t) \<noteq> 0 \<longrightarrow>
            Math_round B = (200 * int h + int t) div (2 * int t))
       \<and> (Math_round B = (200 * int h + int t) div (2 * int t)
            \<or> Math_round B = (200 * int h + int t) div (2 * int t) - 1)"
proof -
  let ?N = "200 * int h + int t"
  let ?D = "2 * int t"
  let ?R = "?N div ?D"
  let ?r = "?N mod ?D"
  let ?y = "B + 1 / 2"
  let ?dl = "300 / 2 ^ 53 :: rat"
  from t have D: "0 < ?D" by simp
  then have Dr: "(0::rat) < of_int ?D" by (simp only: of_int_0_less_iff)
  from b have "int t < 2 ^ 43" by (metis of_nat_less_iff of_nat_numeral of_nat_power)
  then have "300 * ?D < 2 ^ 53" by simp
  then have "(of_int (300 * ?D) :: rat) < of_int (2 ^ 53)" by (simp only: of_int_less_iff)
  then have "300 * (of_int ?D :: rat) < 2 ^ 53" by simp
  with Dr have dl: "?dl < 1 / of_int ?D" by (simp add: field_simps)
  have N: "?N = ?D * ?R + ?r" by simp
  have r: "0 \<le> ?r" "?r \<le> ?D - 1" using D pos_mod_sign [of ?D ?N] pos_mod_bound [of ?D ?N] by simp_all
  have x: "100 * of_nat h / of_nat t + 1 / 2 = (of_int ?N / of_int ?D :: rat)"
    using t by (simp add: field_simps)
  have "(of_int ?N :: rat) = of_int ?D * of_int ?R + of_int ?r"
    by (simp only: of_int_add [symmetric] of_int_mult [symmetric] N [symmetric])
  then have nd: "(of_int ?N / of_int ?D :: rat) = of_int ?R + of_int ?r / of_int ?D"
    using Dr by (simp add: field_simps)
  from e have "B - 100 * of_nat h / of_nat t \<le> ?dl" "- (B - 100 * of_nat h / of_nat t) \<le> ?dl"
    by (simp_all only: abs_le_iff)
  then have "100 * of_nat h / of_nat t + 1 / 2 - ?dl \<le> ?y" "?y \<le> 100 * of_nat h / of_nat t + 1 / 2 + ?dl"
    by linarith+
  then have y1: "of_int ?N / of_int ?D - ?dl \<le> ?y" and y2: "?y \<le> of_int ?N / of_int ?D + ?dl"
    by (simp_all only: x)
  have r0: "(0::rat) \<le> of_int ?r / of_int ?D" using r(1) Dr by simp
  have "(of_int ?r :: rat) \<le> of_int (?D - 1)" using r(2) by (simp only: of_int_le_iff)
  then have "(of_int ?r / of_int ?D :: rat) \<le> of_int (?D - 1) / of_int ?D"
    using Dr by (simp only: divide_right_mono less_imp_le)
  also have "\<dots> = 1 - 1 / of_int ?D" using Dr by (simp add: field_simps)
  finally have r1: "(of_int ?r / of_int ?D :: rat) \<le> 1 - 1 / of_int ?D" .
  from y2 nd r1 dl have hi: "?y < of_int ?R + 1" by simp
  from y1 nd r0 dl Dr have lo: "of_int (?R - 1) < ?y"
  proof -
    have "1 / of_int ?D \<le> (1::rat)" using D by simp
    with dl have "?dl < 1" by simp
    with y1 nd r0 show ?thesis by simp
  qed
  have A: "?r \<noteq> 0 \<longrightarrow> Math_round B = ?R"
  proof
    assume "?r \<noteq> 0"
    with r(1) have "1 \<le> ?r" by simp
    then have "(of_int 1 :: rat) \<le> of_int ?r" by (simp only: of_int_le_iff)
    then have "(1 / of_int ?D :: rat) \<le> of_int ?r / of_int ?D"
      using Dr by (simp add: divide_right_mono)
    with y1 nd dl have "of_int ?R \<le> ?y" by simp
    with hi show "Math_round B = ?R" by (simp add: Math_round_def floor_eq_iff)
  qed
  have "Math_round B = ?R \<or> Math_round B = ?R - 1"
  proof (cases "of_int ?R \<le> ?y")
    case True
    with hi have "Math_round B = ?R" by (simp add: Math_round_def floor_eq_iff)
    then show ?thesis ..
  next
    case False
    with lo have "Math_round B = ?R - 1" by (simp add: Math_round_def floor_eq_iff)
    then show ?thesis ..
  qed
  with A show ?thesis ..
qed

lemma fl_1: "fl 1 = 1"
  by code_simp

lemma fl_100: "fl 100 = 100"
  by code_simp

lemma pct_rounded_all: "0 < t \<Longrightarrow> pct_rounded t t = 100"
  by (simp add: pct_rounded_def dbl_div_def dbl_mul_def fl_1 fl_100)

lemma pct_rounded_none: "0 < t \<Longrightarrow> pct_rounded 0 t = 0"
  by (simp add: pct_rounded_def dbl_div_def dbl_mul_def)

subsection \<open>Clicks that change nothing\<close>

lemma ft_clicked_noop:
  "find (\<lambda>x. f_idx x = cellIdx) (ft_stimuli s) = Some stim \<Longrightarrow> f_clicked stim \<Longrightarrow>
     ft_onCellClick s cellIdx perfNow distPx = s"
  by (simp add: ft_onCellClick_def)

lemma find_map_clicked:
  "find (\<lambda>x. f_idx x = c) xs = Some stim \<Longrightarrow>
     find (\<lambda>x. f_idx x = c) (map (\<lambda>x. if f_idx x = c then x\<lparr>f_clicked := True\<rparr> else x) xs)
       = Some (stim\<lparr>f_clicked := True\<rparr>)"
  by (induction xs) (auto split: if_splits)

lemma ft_click_twice:
  assumes "find (\<lambda>x. f_idx x = cellIdx) (ft_stimuli s) = Some stim"
  shows "ft_onCellClick (ft_onCellClick s cellIdx p d) cellIdx p' d' = ft_onCellClick s cellIdx p d"
proof (cases "ft_running s \<and> \<not> f_clicked stim")
  case True
  let ?s1 = "ft_onCellClick s cellIdx p d"
  from True assms have "ft_stimuli ?s1 =
      map (\<lambda>x. if f_idx x = cellIdx then x\<lparr>f_clicked := True\<rparr> else x) (ft_stimuli s)"
    by (simp add: ft_onCellClick_def Let_def)
  with find_map_clicked [OF assms]
  have "find (\<lambda>x. f_idx x = cellIdx) (ft_stimuli ?s1) = Some (stim\<lparr>f_clicked := True\<rparr>)"
    by simp
  then show ?thesis by (rule ft_clicked_noop) simp
next
  case False
  with assms have "\<And>p d. ft_onCellClick s cellIdx p d = s"
    by (auto simp add: ft_onCellClick_def)
  then show ?thesis by simp
qed

text \<open>
  C10. In the five-target game a click on a cell whose stimulus is already clicked
  returns the state as it was: counters, lists, clicked count, set counter, stimuli,
  event list and pending spawn timers are the same. In particular a second click on a
  target cell changes nothing of what the first click left.
\<close>

theorem clicked_target_noop:
  "(find (\<lambda>x. f_idx x = cellIdx) (ft_stimuli s) = Some stim \<and> f_clicked stim \<longrightarrow>
      ft_onCellClick s cellIdx perfNow distPx = s)
   \<and> (find (\<lambda>x. f_idx x = cellIdx) (ft_stimuli s) = Some stim \<longrightarrow>
      ft_onCellClick (ft_onCellClick s cellIdx p d) cellIdx perfNow distPx
        = ft_onCellClick s cellIdx p d)"
  using ft_clicked_noop [of cellIdx s stim perfNow distPx]
    ft_click_twice [of cellIdx s stim p d perfNow distPx]
  by blast

lemma five_set_eq:
  "five_set = ft_init\<lparr>ft_running := True, ft_setStartTs := Some 1000,
     ft_stimuli := map (\<lambda>i. \<lparr>f_idx = i, f_color = 0, f_clicked = False, f_perfShownAt = 1000\<rparr>)
                     [7, 12, 33, 48, 90],
     ft_totalShown := 5, ft_events := [SET_START 0 [7, 12, 33, 48, 90]]\<rparr>"
  by (simp add: five_set_def ft_spawnSet_def ft_init_def TOTAL_SETS_def COLORS_length_def
      TARGETS_PER_SET_def Let_def)

lemma five_clicked_fields:
  "ft_running five_clicked" "ft_hits five_clicked = 1" "ft_errors five_clicked = 0"
  "ft_clickedCount five_clicked = 1" "ft_currentSet five_clicked = 0"
  "ft_reactionList five_clicked = [500]" "ft_spawnTimers five_clicked = 0"
  "ft_events five_clicked = [SET_START 0 [7, 12, 33, 48, 90], FT_HIT 7 0 500 3]"
  "find (\<lambda>x. f_idx x = 7) (ft_stimuli five_clicked)
     = Some \<lparr>f_idx = 7, f_color = 0, f_clicked = True, f_perfShownAt = 1000\<rparr>"
  by (simp_all add: five_clicked_def five_set_eq ft_onCellClick_def ft_init_def Let_def
      TARGETS_PER_SET_def)

text \<open>C10 after cell 7 of the first set has been clicked once: the second click on it.\<close>

theorem clicked_target_noop_witness:
  "find (\<lambda>x. f_idx x = 7) (ft_stimuli five_clicked)
     = Some \<lparr>f_idx = 7, f_color = 0, f_clicked = True, f_perfShownAt = 1000\<rparr>
   \<and> f_clicked \<lparr>f_idx = 7, f_color = 0, f_clicked = True, f_perfShownAt = 1000\<rparr>
   \<and> ft_running five_clicked
   \<and> ft_onCellClick five_clicked 7 1700 2 = five_clicked
   \<and> ft_hits (ft_onCellClick five_clicked 7 1700 2) = 1
   \<and> ft_events (ft_onCellClick five_clicked 7 1700 2)
       = [SET_START 0 [7, 12, 33, 48, 90], FT_HIT 7 0 500 3]"
proof -
  have c: "f_clicked \<lparr>f_idx = 7, f_color = 0, f_clicked = True, f_perfShownAt = 1000\<rparr>"
    by simp
  from clicked_target_noop [of 7 five_clicked
      "\<lparr>f_idx = 7, f_color = 0, f_clicked = True, f_perfShownAt = 1000\<rparr>" 1700 2]
    five_clicked_fields(9) c
  have e: "ft_onCellClick five_clicked 7 1700 2 = five_clicked" by blast
  with five_clicked_fields c show ?thesis by simp
qed

lemma cp_finishTrial_stops_idle:
  "cp_running st \<Longrightarrow> \<not> cp_running (cp_finishTrial st ok) \<Longrightarrow>
     cp_phase (cp_finishTrial st ok) = Idle"
  by (simp add: cp_finishTrial_def Let_def split: if_splits option.splits)

text \<open>
  C8. A click that arrives while the engine does not take input leaves the whole state
  as it was, event list included. The go/no-go games and the five-target game return at
  once when \<open>running\<close> is false. The span tasks return at once when the phase is not
  \<open>respond\<close>; in SpamperceptionBlocks the cell button is disabled when \<open>running\<close> is false
  or the phase is not \<open>respond\<close>, so no click reaches the handler then; in
  CentralPeripheralSpanTask the component is not running when it is mounted and when
  finishTrial has ended the session, and the phase is \<open>idle\<close> at both.
\<close>

theorem ignored_clicks:
  "(\<not> gn_running g \<longrightarrow> onCellClick g c t1 t2 d = g \<and> edges_onCellClick g c t = g)
   \<and> (\<not> ft_running f \<longrightarrow> ft_onCellClick f c p d = f)
   \<and> (cp_phase st \<noteq> Respond \<longrightarrow> cp_onCellClick st c = st)
   \<and> (sp_phase s \<noteq> Respond \<longrightarrow> sp_onCellClick s p c draws = Some s)
   \<and> (\<not> sp_running s \<or> sp_phase s \<noteq> Respond \<longrightarrow> sp_cellButton s p c draws = Some s)
   \<and> \<not> cp_running cp_init \<and> cp_phase cp_init = Idle
   \<and> (cp_running st \<and> \<not> cp_running (cp_finishTrial st ok) \<longrightarrow>
        cp_phase (cp_finishTrial st ok) = Idle)"
proof -
  have a: "\<not> gn_running g \<longrightarrow> onCellClick g c t1 t2 d = g \<and> edges_onCellClick g c t = g"
    by (simp add: onCellClick_def edges_onCellClick_def)
  have b: "\<not> ft_running f \<longrightarrow> ft_onCellClick f c p d = f"
    by (simp add: ft_onCellClick_def)
  have c: "cp_phase st \<noteq> Respond \<longrightarrow> cp_onCellClick st c = st"
    by (simp add: cp_onCellClick_def)
  have d: "sp_phase s \<noteq> Respond \<longrightarrow> sp_onCellClick s p c draws = Some s"
    by (simp add: sp_onCellClick_def)
  have e: "\<not> sp_running s \<or> sp_phase s \<noteq> Respond \<longrightarrow> sp_cellButton s p c draws = Some s"
    by (simp add: sp_cellButton_def)
  have i: "\<not> cp_running cp_init \<and> cp_phase cp_init = Idle"
    by (simp add: cp_init_def)
  have k: "cp_running st \<and> \<not> cp_running (cp_finishTrial st ok) \<longrightarrow>
        cp_phase (cp_finishTrial st ok) = Idle"
    using cp_finishTrial_stops_idle by blast
  from a b c d e i k show ?thesis by blast
qed

lemma sp_trial_fields:
  "sp_running sp_trial_4_17_82" "sp_phase sp_trial_4_17_82 = Respond"
  "sp_seq sp_trial_4_17_82 = [4, 17, 82]" "sp_replayPos sp_trial_4_17_82 = 0"
  "sp_blockIdx sp_trial_4_17_82 = 0" "sp_trialIdx sp_trial_4_17_82 = 0"
  "sp_seqLen sp_trial_4_17_82 = 3" "sp_lastClickPerf sp_trial_4_17_82 = Some 5000"
  "sp_stats sp_trial_4_17_82 = (\<lambda>_. emptyStats)"
  "sp_trialLog sp_trial_4_17_82 = []"
  "sp_events sp_trial_4_17_82 = [SEQ_PRESENTED digits 3 1]"
  by (simp_all add: sp_trial_4_17_82_def sp_done_def sp_presentSequence_def sp_init_def
      Let_def START_LEN_def split: prod.splits)

lemma cp_trial_fields:
  "cp_running cp_trial_4_17_82" "cp_phase cp_trial_4_17_82 = Respond"
  "cp_seq cp_trial_4_17_82 = [4, 17, 82]" "cp_replayPos cp_trial_4_17_82 = 0"
  "cp_blockIdx cp_trial_4_17_82 = 0" "cp_trialIdx cp_trial_4_17_82 = 0"
  "cp_seqLen cp_trial_4_17_82 = 3" "cp_logs cp_trial_4_17_82 = []"
  by (simp_all add: cp_trial_4_17_82_def cp_presentSeq_def cp_start_def cp_init_def
      Let_def START_LEN_def split: prod.splits)

text \<open>
  C8 at the mounted components, at a SpamperceptionBlocks session stopped in its
  respond phase, and at the last trial of a CentralPeripheralSpanTask session.
\<close>

theorem ignored_clicks_witness:
  "\<not> gn_running gn_init \<and> onCellClick gn_init 42 1500 1500 3 = gn_init
   \<and> edges_onCellClick gn_init 42 1500 = gn_init
   \<and> \<not> ft_running ft_init \<and> ft_onCellClick ft_init 42 1500 3 = ft_init
   \<and> cp_phase cp_init \<noteq> Respond \<and> cp_onCellClick cp_init 42 = cp_init
   \<and> sp_phase sp_init \<noteq> Respond \<and> sp_onCellClick sp_init 1500 42 [] = Some sp_init
   \<and> \<not> sp_running (sp_stop sp_trial_4_17_82) \<and> sp_phase (sp_stop sp_trial_4_17_82) = Respond
   \<and> sp_cellButton (sp_stop sp_trial_4_17_82) 1500 4 [] = Some (sp_stop sp_trial_4_17_82)
   \<and> cp_running (cp_trial_4_17_82\<lparr>cp_blockIdx := 1, cp_trialIdx := 9\<rparr>)
   \<and> \<not> cp_running (cp_finishTrial (cp_trial_4_17_82\<lparr>cp_blockIdx := 1, cp_trialIdx := 9\<rparr>) True)
   \<and> cp_phase (cp_finishTrial (cp_trial_4_17_82\<lparr>cp_blockIdx := 1, cp_trialIdx := 9\<rparr>) True) = Idle"
proof -
  let ?last = "cp_trial_4_17_82\<lparr>cp_blockIdx := 1, cp_trialIdx := 9\<rparr>"
  have h: "\<not> gn_running gn_init" "\<not> ft_running ft_init" "cp_phase cp_init \<noteq> Respond"
    "sp_phase sp_init \<noteq> Respond"
    by (simp_all add: gn_init_def ft_init_def cp_init_def sp_init_def)
  have s: "\<not> sp_running (sp_stop sp_trial_4_17_82)" "sp_phase (sp_stop sp_trial_4_17_82) = Respond"
    by (simp_all add: sp_stop_def Let_def sp_trial_fields)
  have l: "cp_running ?last" "\<not> cp_running (cp_finishTrial ?last True)"
    by (simp_all add: cp_finishTrial_def Let_def cp_trial_fields SEQS_PER_BLOCK_def BLOCKS_def
        BLOCKS_at_def)
  from ignored_clicks [where g = gn_init and c = 42 and ?t1.0 = 1500 and ?t2.0 = 1500 and d = 3
      and t = 1500 and f = ft_init and p = 1500 and st = cp_init and s = sp_init
      and draws = "[]" and ok = True]
    ignored_clicks [where g = gn_init and c = 4 and ?t1.0 = 1500 and ?t2.0 = 1500 and d = 3
      and t = 1500 and f = ft_init and p = 1500 and st = ?last
      and s = "sp_stop sp_trial_4_17_82" and draws = "[]" and ok = True]
    h s l
  show ?thesis by blast
qed

subsection \<open>Bounds of the reaction window\<close>

lemma Math_round_le: "x \<le> of_int n \<Longrightarrow> Math_round x \<le> n"
  by (simp add: Math_round_def floor_le_iff)

lemma Math_round_ge: "of_int n \<le> x \<Longrightarrow> n \<le> Math_round x"
  by (simp add: Math_round_def le_floor_iff)

lemma adaptDifficulty_history:
  "gn_adaptHistory (adaptDifficulty s) = gn_adaptHistory s @ [gn_reactionWindowMs (adaptDifficulty s)]"
  by (simp add: adaptDifficulty_def Let_def)

lemma adaptDifficulty_bounds:
  assumes "400 \<le> gn_reactionWindowMs s" and "gn_reactionWindowMs s \<le> 1200"
  shows "400 \<le> gn_reactionWindowMs (adaptDifficulty s) \<and> gn_reactionWindowMs (adaptDifficulty s) \<le> 1200"
proof -
  let ?W = "gn_reactionWindowMs s"
  have up: "400 \<le> Math_round (of_int ?W * (11 / 10))"
  proof (rule Math_round_ge)
    from assms(1) have "(400 :: rat) \<le> of_int ?W" by linarith
    then show "of_int 400 \<le> (of_int ?W :: rat) * (11 / 10)" by simp
  qed
  have down: "Math_round (a * (9 / 10)) \<le> 1200" if "a < of_int ?W" for a :: rat
  proof (rule Math_round_le)
    from assms(2) have "(of_int ?W :: rat) \<le> 1200" by linarith
    with that show "a * (9 / 10) \<le> of_int 1200" by simp
  qed
  show ?thesis
    using assms up down
    by (auto simp add: adaptDifficulty_def Let_def)
qed

lemma window_ok_adaptDifficulty: "window_ok s \<Longrightarrow> window_ok (adaptDifficulty s)"
  using adaptDifficulty_bounds [of s]
  by (simp add: window_ok_def adaptDifficulty_history)

lemma window_ok_eq:
  "gn_reactionWindowMs s' = gn_reactionWindowMs s \<Longrightarrow> gn_adaptHistory s' = gn_adaptHistory s \<Longrightarrow>
     window_ok s' = window_ok s"
  by (simp add: window_ok_def)

lemma window_ok_gn_init: "window_ok gn_init"
  by (simp add: window_ok_def gn_init_def)

lemma window_ok_gn_start: "window_ok (gn_start s)"
  by (simp add: window_ok_def gn_start_def gn_reset_def queueSpawn_def Let_def)

lemma window_ok_gn_stop: "window_ok s \<Longrightarrow> window_ok (gn_stop s)"
  by (simp add: window_ok_eq [of "gn_stop s" s])

lemma window_ok_gn_remove: "window_ok s \<Longrightarrow> window_ok (gn_remove s i)"
  by (simp add: window_ok_eq [of "gn_remove s i" s])

lemma window_ok_gn_spawnTick: "window_ok s \<Longrightarrow> window_ok (gn_spawnTick s col idx sh dur i)"
  by (simp add: window_ok_def gn_spawnTick_def spawnStimulus_def Let_def)

lemma window_ok_gn_expire: "window_ok s \<Longrightarrow> window_ok (gn_expire s i)"
proof -
  have "gn_reactionWindowMs (gn_expire s i) = gn_reactionWindowMs s"
    "gn_adaptHistory (gn_expire s i) = gn_adaptHistory s"
    by (simp_all add: gn_expire_def Let_def split: option.splits)
  then show "window_ok s \<Longrightarrow> window_ok (gn_expire s i)"
    by (simp add: window_ok_eq [of "gn_expire s i" s])
qed

lemma window_ok_gn_score: 
  assumes "window_ok s"
  shows "window_ok (gn_score s stim rt w d)"
proof -
  let ?s2 = "s\<lparr>gn_hits := gn_hits s + 1, gn_reactionList := gn_reactionList s @ [rt],
      gn_distanceList := (case d of None \<Rightarrow> gn_distanceList s | Some x \<Rightarrow> gn_distanceList s @ [x]),
      gn_events := gn_events s @ [HIT (s_idx stim) rt d]\<rparr>"
  from assms have "window_ok ?s2" by (simp add: window_ok_def)
  then have "window_ok (adaptDifficulty ?s2)" by (rule window_ok_adaptDifficulty)
  with assms show ?thesis
    by (simp add: gn_score_def Let_def window_ok_gn_remove)
       (simp add: window_ok_def)
qed

lemma window_ok_onCellClick: "window_ok s \<Longrightarrow> window_ok (onCellClick s c t1 t2 d)"
  by (auto simp add: onCellClick_def Let_def window_ok_gn_score split: list.splits)
     (simp add: window_ok_def)

lemma window_ok_edges_onCellClick: "window_ok s \<Longrightarrow> window_ok (edges_onCellClick s c t)"
  by (auto simp add: edges_onCellClick_def Let_def window_ok_gn_score split: option.splits)
     (simp add: window_ok_def)

lemma window_ok_gn_step: "window_ok s \<Longrightarrow> window_ok (gn_step s i)"
  by (cases i)
     (simp_all add: window_ok_gn_start window_ok_gn_stop window_ok_gn_spawnTick
        window_ok_gn_expire window_ok_onCellClick window_ok_edges_onCellClick)

lemma window_ok_foldl: "window_ok s \<Longrightarrow> window_ok (foldl gn_step s ins)"
  by (induction ins arbitrary: s) (simp_all add: window_ok_gn_step)

lemma window_ok_gn_run: "window_ok (gn_run ins)"
  by (simp add: gn_run_def window_ok_foldl window_ok_gn_init)

text \<open>
  C5. Whatever inputs a go/no-go engine receives from its mounted state on (starts,
  stops, spawns, expiries and clicks with any timing, in any order and number), the
  reaction window is between 400 and 1200 ms afterwards, and so is every entry of the
  adaptation history. One call of adaptDifficulty on any counters and reaction times
  keeps a window that is within 400..1200 within 400..1200 and appends exactly the new
  window to the history. The window starts at 800 and the history at [800].
\<close>

theorem reaction_window_bounded:
  "400 \<le> gn_reactionWindowMs (gn_run ins) \<and> gn_reactionWindowMs (gn_run ins) \<le> 1200
   \<and> (\<forall>w \<in> set (gn_adaptHistory (gn_run ins)). 400 \<le> w \<and> w \<le> 1200)
   \<and> (400 \<le> gn_reactionWindowMs s \<and> gn_reactionWindowMs s \<le> 1200 \<longrightarrow>
        400 \<le> gn_reactionWindowMs (adaptDifficulty s)
        \<and> gn_reactionWindowMs (adaptDifficulty s) \<le> 1200
        \<and> gn_adaptHistory (adaptDifficulty s)
            = gn_adaptHistory s @ [gn_reactionWindowMs (adaptDifficulty s)])
   \<and> gn_reactionWindowMs gn_init = 800 \<and> gn_adaptHistory gn_init = [800]"
proof -
  have r: "400 \<le> gn_reactionWindowMs (gn_run ins) \<and> gn_reactionWindowMs (gn_run ins) \<le> 1200
      \<and> (\<forall>w \<in> set (gn_adaptHistory (gn_run ins)). 400 \<le> w \<and> w \<le> 1200)"
    using window_ok_gn_run [of ins] by (simp add: window_ok_def)
  have a: "400 \<le> gn_reactionWindowMs s \<and> gn_reactionWindowMs s \<le> 1200 \<longrightarrow>
        400 \<le> gn_reactionWindowMs (adaptDifficulty s)
        \<and> gn_reactionWindowMs (adaptDifficulty s) \<le> 1200
        \<and> gn_adaptHistory (adaptDifficulty s)
            = gn_adaptHistory s @ [gn_reactionWindowMs (adaptDifficulty s)]"
    using adaptDifficulty_bounds [of s] adaptDifficulty_history [of s] by blast
  have i: "gn_reactionWindowMs gn_init = 800 \<and> gn_adaptHistory gn_init = [800]"
    by (simp add: gn_init_def)
  from r a i show ?thesis by blast
qed

lemma fast_player_adapt:
  "gn_reactionWindowMs (adaptDifficulty fast_player) = 400"
  by (simp add: adaptDifficulty_def fast_player_def gn_init_def slice_last10_def rt_sum_def Let_def)

lemma erring_player_adapt:
  "gn_reactionWindowMs (adaptDifficulty erring_player) = 880"
  by (simp add: adaptDifficulty_def erring_player_def gn_init_def slice_last10_def rt_sum_def Let_def)

text \<open>
  C5 at a session with ten fast hits, where the window tightens to its floor of 400, at
  a session with three errors in ten, where it loosens from 800 to 880, and after a
  start and a first stimulus.
\<close>

theorem reaction_window_bounded_witness:
  "400 \<le> gn_reactionWindowMs fast_player \<and> gn_reactionWindowMs fast_player \<le> 1200
   \<and> gn_reactionWindowMs (adaptDifficulty fast_player) = 400
   \<and> gn_adaptHistory (adaptDifficulty fast_player) = [800, 400]
   \<and> 400 \<le> gn_reactionWindowMs erring_player \<and> gn_reactionWindowMs erring_player \<le> 1200
   \<and> gn_reactionWindowMs (adaptDifficulty erring_player) = 880
   \<and> gn_adaptHistory (adaptDifficulty erring_player) = [800, 880]
   \<and> 800 \<in> set (gn_adaptHistory (gn_run [Start, SpawnTick green 42 1000 900 1]))
   \<and> gn_adaptHistory (gn_run [Start, SpawnTick green 42 1000 900 1]) = [800]
   \<and> (400::int) \<le> 800 \<and> (800::int) \<le> 1200"
proof -
  have f: "gn_reactionWindowMs fast_player = 800" "gn_adaptHistory fast_player = [800]"
    by (simp_all add: fast_player_def gn_init_def)
  have e: "gn_reactionWindowMs erring_player = 800" "gn_adaptHistory erring_player = [800]"
    by (simp_all add: erring_player_def gn_init_def)
  have h: "gn_adaptHistory (gn_run [Start, SpawnTick green 42 1000 900 1]) = [800]"
    by (simp add: gn_run_def gn_start_def gn_reset_def queueSpawn_def gn_spawnTick_def
        spawnStimulus_def gn_init_def Let_def)
  from reaction_window_bounded [of "[Start, SpawnTick green 42 1000 900 1]" fast_player] f
    fast_player_adapt
  have 1: "gn_adaptHistory (adaptDifficulty fast_player) = [800, 400]"
    and 3: "\<forall>w \<in> set (gn_adaptHistory (gn_run [Start, SpawnTick green 42 1000 900 1])). 400 \<le> w \<and> w \<le> 1200"
    by simp_all
  from 3 h have 4: "(400::int) \<le> 800 \<and> (800::int) \<le> 1200" by simp
  from reaction_window_bounded [of "[Start, SpawnTick green 42 1000 900 1]" erring_player] e
    erring_player_adapt
  have 2: "gn_adaptHistory (adaptDifficulty erring_player) = [800, 880]"
    by simp
  from f e h 1 2 4 fast_player_adapt erring_player_adapt show ?thesis by simp
qed

subsection \<open>When the window is recomputed\<close>

lemma gn_run_snoc: "gn_run (ins @ [i]) = gn_step (gn_run ins) i"
  by (simp add: gn_run_def)

lemma nine_hits_state:
  "gn_run nine_hits =
     \<lparr>gn_running = True, gn_stimuli = [], gn_totalShown = 9, gn_hits = 9, gn_errors = 0,
      gn_misses = 0, gn_reactionList = [300, 300, 300, 300, 300, 300, 300, 300, 300],
      gn_distanceList = [0, 0, 0, 0, 0, 0, 0, 0, 0], gn_adaptHistory = [800],
      gn_reactionWindowMs = 800, gn_lastPlacedIdx = Some 42, gn_displayTimers = [],
      gn_queued = 1,
      gn_events =
        [GN_START, STIMULUS 1 42 green 900, HIT 42 300 (Some 0),
         STIMULUS 2 42 green 900, HIT 42 300 (Some 0),
         STIMULUS 3 42 green 900, HIT 42 300 (Some 0),
         STIMULUS 4 42 green 900, HIT 42 300 (Some 0),
         STIMULUS 5 42 green 900, HIT 42 300 (Some 0),
         STIMULUS 6 42 green 900, HIT 42 300 (Some 0),
         STIMULUS 7 42 green 900, HIT 42 300 (Some 0),
         STIMULUS 8 42 green 900, HIT 42 300 (Some 0),
         STIMULUS 9 42 green 900, HIT 42 300 (Some 0)],
      gn_scores = []\<rparr>"
  by (simp add: gn_run_def nine_hits_def gn_start_def gn_reset_def queueSpawn_def
      gn_spawnTick_def spawnStimulus_def onCellClick_def gn_score_def gn_remove_def
      gn_init_def Let_def MAX_ACTIVE_def TOTAL_STIMULI_def)

lemma tenth_red_state:
  "tenth_red = (gn_run nine_hits)\<lparr>gn_queued := 0, gn_lastPlacedIdx := Some 42,
      gn_displayTimers := [10],
      gn_stimuli := [\<lparr>s_id = 10, s_idx = 42, s_color = red, s_shownAt = 10000, s_expiresAt = 10900\<rparr>],
      gn_totalShown := 10,
      gn_events := gn_events (gn_run nine_hits) @ [STIMULUS 10 42 red 900]\<rparr>"
  by (simp add: tenth_red_def gn_run_snoc nine_hits_state gn_spawnTick_def spawnStimulus_def
      Let_def MAX_ACTIVE_def TOTAL_STIMULI_def)

lemma tenth_green_state:
  "tenth_green = (gn_run nine_hits)\<lparr>gn_queued := 0, gn_lastPlacedIdx := Some 42,
      gn_displayTimers := [10],
      gn_stimuli := [\<lparr>s_id = 10, s_idx = 42, s_color = green, s_shownAt = 10000, s_expiresAt = 10900\<rparr>],
      gn_totalShown := 10,
      gn_events := gn_events (gn_run nine_hits) @ [STIMULUS 10 42 green 900]\<rparr>"
  by (simp add: tenth_green_def gn_run_snoc nine_hits_state gn_spawnTick_def spawnStimulus_def
      Let_def MAX_ACTIVE_def TOTAL_STIMULI_def)

lemma slice_last10_idem: "slice_last10 (slice_last10 l) = slice_last10 l"
  by (simp add: slice_last10_def)

lemma window_of_update:
  "gn_reactionWindowMs (s\<lparr>gn_reactionWindowMs := w, gn_adaptHistory := h, gn_events := e\<rparr>) = w"
  by simp

lemma adaptDifficulty_window:
  "gn_reactionWindowMs (adaptDifficulty s) =
     nextWindow (gn_reactionList s) (gn_reactionWindowMs s) (gn_misses s) (gn_errors s)
       (gn_totalShown s)"
proof -
  let ?s0 = "gn_init\<lparr>gn_reactionList := gn_reactionList s,
      gn_reactionWindowMs := gn_reactionWindowMs s, gn_misses := gn_misses s,
      gn_errors := gn_errors s, gn_totalShown := gn_totalShown s\<rparr>"
  have f: "gn_reactionList ?s0 = gn_reactionList s" "gn_reactionWindowMs ?s0 = gn_reactionWindowMs s"
    "gn_misses ?s0 = gn_misses s" "gn_errors ?s0 = gn_errors s" "gn_totalShown ?s0 = gn_totalShown s"
    by simp_all
  have "gn_reactionWindowMs (adaptDifficulty ?s0) = gn_reactionWindowMs (adaptDifficulty s)"
    unfolding adaptDifficulty_def Let_def window_of_update f ..
  then show ?thesis by (simp only: nextWindow_def)
qed

lemma nextWindow_last10:
  "nextWindow (slice_last10 rl) win misses errors shown = nextWindow rl win misses errors shown"
proof -
  let ?a = "gn_init\<lparr>gn_reactionList := slice_last10 rl, gn_reactionWindowMs := win,
      gn_misses := misses, gn_errors := errors, gn_totalShown := shown\<rparr>"
  let ?b = "gn_init\<lparr>gn_reactionList := rl, gn_reactionWindowMs := win,
      gn_misses := misses, gn_errors := errors, gn_totalShown := shown\<rparr>"
  have f: "slice_last10 (gn_reactionList ?a) = slice_last10 (gn_reactionList ?b)"
    "gn_reactionWindowMs ?a = gn_reactionWindowMs ?b"
    "gn_misses ?a = gn_misses ?b" "gn_errors ?a = gn_errors ?b" "gn_totalShown ?a = gn_totalShown ?b"
    by (simp_all add: slice_last10_idem)
  have "gn_reactionWindowMs (adaptDifficulty ?a) = gn_reactionWindowMs (adaptDifficulty ?b)"
    unfolding adaptDifficulty_def Let_def window_of_update f ..
  then show ?thesis by (simp only: nextWindow_def)
qed

lemma adaptDifficulty_last10:
  "gn_reactionWindowMs (adaptDifficulty (s\<lparr>gn_reactionList := slice_last10 (gn_reactionList s)\<rparr>))
     = gn_reactionWindowMs (adaptDifficulty s)"
  by (simp add: adaptDifficulty_window nextWindow_last10)

lemma adaptDifficulty_window_reads:
  "gn_reactionList s' = gn_reactionList s \<Longrightarrow> gn_reactionWindowMs s' = gn_reactionWindowMs s \<Longrightarrow>
   gn_misses s' = gn_misses s \<Longrightarrow> gn_errors s' = gn_errors s \<Longrightarrow>
   gn_totalShown s' = gn_totalShown s \<Longrightarrow>
     gn_reactionWindowMs (adaptDifficulty s') = gn_reactionWindowMs (adaptDifficulty s)"
  by (simp add: adaptDifficulty_window)

lemma gn_score_history:
  "gn_adaptHistory (gn_score s stim rt w d) =
     (if s_color stim = green \<and> w \<and> (gn_hits s + 1 + gn_errors s + gn_misses s) mod 10 = 0
      then gn_adaptHistory s @ [gn_reactionWindowMs (gn_score s stim rt w d)]
      else gn_adaptHistory s)"
  by (simp add: gn_score_def Let_def adaptDifficulty_history)

lemma gn_score_window:
  "gn_reactionWindowMs (gn_score s stim rt w d) =
     (if s_color stim = green \<and> w \<and> (gn_hits s + 1 + gn_errors s + gn_misses s) mod 10 = 0
      then gn_reactionWindowMs (adaptDifficulty (s\<lparr>gn_reactionList := gn_reactionList s @ [rt]\<rparr>))
      else gn_reactionWindowMs s)"
  by (simp add: gn_score_def Let_def adaptDifficulty_window)

lemma tenth_hit_None [simp]: "\<not> tenth_hit s None t"
  by (simp add: tenth_hit_def is_hit_def)

lemma tenth_hit_Some:
  "tenth_hit s (Some stim) t \<longleftrightarrow>
     s_color stim = green \<and> t - s_shownAt stim \<le> gn_reactionWindowMs s \<and>
     (gn_hits s + 1 + gn_errors s + gn_misses s) mod 10 = 0"
  by (simp add: tenth_hit_def is_hit_def)

lemma onCellClick_adapt:
  assumes "gn_running s"
  shows "gn_adaptHistory (onCellClick s c t1 t2 d) =
       (if tenth_hit s (color_target s c) t2
        then gn_adaptHistory s @ [gn_reactionWindowMs (onCellClick s c t1 t2 d)]
        else gn_adaptHistory s)"
    and "\<not> tenth_hit s (color_target s c) t2 \<Longrightarrow>
       gn_reactionWindowMs (onCellClick s c t1 t2 d) = gn_reactionWindowMs s"
    and "tenth_hit s (color_target s c) t2 \<Longrightarrow> color_target s c = Some stim \<Longrightarrow>
       gn_reactionWindowMs (onCellClick s c t1 t2 d) =
         gn_reactionWindowMs (adaptDifficulty
           (s\<lparr>gn_reactionList := gn_reactionList s @ [t1 - s_shownAt stim]\<rparr>))"
proof -
  show "gn_adaptHistory (onCellClick s c t1 t2 d) =
       (if tenth_hit s (color_target s c) t2
        then gn_adaptHistory s @ [gn_reactionWindowMs (onCellClick s c t1 t2 d)]
        else gn_adaptHistory s)"
  proof (cases "color_target s c")
    case None
    with assms show ?thesis by (simp add: onCellClick_empty)
  next
    case (Some a)
    with assms show ?thesis
      by (simp only: onCellClick_target [OF assms Some] gn_score_history tenth_hit_Some)
  qed
  show "gn_reactionWindowMs (onCellClick s c t1 t2 d) = gn_reactionWindowMs s"
    if "\<not> tenth_hit s (color_target s c) t2"
  proof (cases "color_target s c")
    case None
    with assms show ?thesis by (simp add: onCellClick_empty)
  next
    case (Some a)
    from that [unfolded Some tenth_hit_Some]
    have "\<not> (s_color a = green \<and> t2 - s_shownAt a \<le> gn_reactionWindowMs s \<and>
        (gn_hits s + 1 + gn_errors s + gn_misses s) mod 10 = 0)" .
    then show ?thesis
      by (simp only: onCellClick_target [OF assms Some] gn_score_window if_False)
  qed
  show "gn_reactionWindowMs (onCellClick s c t1 t2 d) =
         gn_reactionWindowMs (adaptDifficulty
           (s\<lparr>gn_reactionList := gn_reactionList s @ [t1 - s_shownAt stim]\<rparr>))"
    if h: "tenth_hit s (color_target s c) t2" and tg: "color_target s c = Some stim"
  proof -
    from h [unfolded tg tenth_hit_Some]
    have "s_color stim = green \<and> t2 - s_shownAt stim \<le> gn_reactionWindowMs s \<and>
        (gn_hits s + 1 + gn_errors s + gn_misses s) mod 10 = 0" .
    then show ?thesis
      by (simp add: onCellClick_target [OF assms tg] gn_score_window)
  qed
qed

lemma edges_onCellClick_adapt:
  assumes "gn_running s"
  shows "gn_adaptHistory (edges_onCellClick s c t) =
       (if tenth_hit s (edges_target s c) t
        then gn_adaptHistory s @ [gn_reactionWindowMs (edges_onCellClick s c t)]
        else gn_adaptHistory s)"
    and "\<not> tenth_hit s (edges_target s c) t \<Longrightarrow>
       gn_reactionWindowMs (edges_onCellClick s c t) = gn_reactionWindowMs s"
    and "tenth_hit s (edges_target s c) t \<Longrightarrow> edges_target s c = Some stim \<Longrightarrow>
       gn_reactionWindowMs (edges_onCellClick s c t) =
         gn_reactionWindowMs (adaptDifficulty
           (s\<lparr>gn_reactionList := gn_reactionList s @ [t - s_shownAt stim]\<rparr>))"
proof -
  show "gn_adaptHistory (edges_onCellClick s c t) =
       (if tenth_hit s (edges_target s c) t
        then gn_adaptHistory s @ [gn_reactionWindowMs (edges_onCellClick s c t)]
        else gn_adaptHistory s)"
  proof (cases "edges_target s c")
    case None
    with assms show ?thesis by (simp add: edges_onCellClick_empty)
  next
    case (Some a)
    with assms show ?thesis
      by (simp only: edges_onCellClick_target [OF assms Some] gn_score_history tenth_hit_Some)
  qed
  show "gn_reactionWindowMs (edges_onCellClick s c t) = gn_reactionWindowMs s"
    if "\<not> tenth_hit s (edges_target s c) t"
  proof (cases "edges_target s c")
    case None
    with assms show ?thesis by (simp add: edges_onCellClick_empty)
  next
    case (Some a)
    from that [unfolded Some tenth_hit_Some]
    have "\<not> (s_color a = green \<and> t - s_shownAt a \<le> gn_reactionWindowMs s \<and>
        (gn_hits s + 1 + gn_errors s + gn_misses s) mod 10 = 0)" .
    then show ?thesis
      by (simp only: edges_onCellClick_target [OF assms Some] gn_score_window if_False)
  qed
  show "gn_reactionWindowMs (edges_onCellClick s c t) =
         gn_reactionWindowMs (adaptDifficulty
           (s\<lparr>gn_reactionList := gn_reactionList s @ [t - s_shownAt stim]\<rparr>))"
    if h: "tenth_hit s (edges_target s c) t" and tg: "edges_target s c = Some stim"
  proof -
    from h [unfolded tg tenth_hit_Some]
    have "s_color stim = green \<and> t - s_shownAt stim \<le> gn_reactionWindowMs s \<and>
        (gn_hits s + 1 + gn_errors s + gn_misses s) mod 10 = 0" .
    then show ?thesis
      by (simp add: edges_onCellClick_target [OF assms tg] gn_score_window)
  qed
qed

lemma gn_expire_no_adapt:
  "gn_adaptHistory (gn_expire s sid) = gn_adaptHistory s"
  "gn_reactionWindowMs (gn_expire s sid) = gn_reactionWindowMs s"
  by (simp_all add: gn_expire_def Let_def split: option.splits)

text \<open>
  C6 as the code has it. While the engine runs, a click calls adaptDifficulty exactly
  when it is a hit and that hit brings hits + errors + misses to a multiple of ten: then
  the history grows by exactly one entry, the new window, which adaptDifficulty computes
  with the reaction time of this hit already recorded, from the last ten recorded
  reaction times. Every other click (an error, also as the tenth scored response)
  leaves window and history as they were, and so does every firing of a display timer
  (a miss, also as the tenth scored response).
\<close>

theorem adaptation_on_tenth_hit:
  "(gn_running s \<longrightarrow>
      gn_adaptHistory (onCellClick s c t1 t2 d) =
        (if tenth_hit s (color_target s c) t2
         then gn_adaptHistory s @ [gn_reactionWindowMs (onCellClick s c t1 t2 d)]
         else gn_adaptHistory s)
      \<and> (\<not> tenth_hit s (color_target s c) t2 \<longrightarrow>
            gn_reactionWindowMs (onCellClick s c t1 t2 d) = gn_reactionWindowMs s)
      \<and> (\<forall>stim. tenth_hit s (color_target s c) t2 \<and> color_target s c = Some stim \<longrightarrow>
            gn_reactionWindowMs (onCellClick s c t1 t2 d) =
              gn_reactionWindowMs (adaptDifficulty
                (s\<lparr>gn_reactionList := gn_reactionList s @ [t1 - s_shownAt stim]\<rparr>))))
   \<and> (gn_running s \<longrightarrow>
      gn_adaptHistory (edges_onCellClick s c t) =
        (if tenth_hit s (edges_target s c) t
         then gn_adaptHistory s @ [gn_reactionWindowMs (edges_onCellClick s c t)]
         else gn_adaptHistory s)
      \<and> (\<not> tenth_hit s (edges_target s c) t \<longrightarrow>
            gn_reactionWindowMs (edges_onCellClick s c t) = gn_reactionWindowMs s)
      \<and> (\<forall>stim. tenth_hit s (edges_target s c) t \<and> edges_target s c = Some stim \<longrightarrow>
            gn_reactionWindowMs (edges_onCellClick s c t) =
              gn_reactionWindowMs (adaptDifficulty
                (s\<lparr>gn_reactionList := gn_reactionList s @ [t - s_shownAt stim]\<rparr>))))
   \<and> gn_adaptHistory (gn_expire s sid) = gn_adaptHistory s
   \<and> gn_reactionWindowMs (gn_expire s sid) = gn_reactionWindowMs s
   \<and> gn_reactionWindowMs (adaptDifficulty s) =
       gn_reactionWindowMs (adaptDifficulty (s\<lparr>gn_reactionList := slice_last10 (gn_reactionList s)\<rparr>))"
proof -
  have A: "gn_running s \<longrightarrow>
      gn_adaptHistory (onCellClick s c t1 t2 d) =
        (if tenth_hit s (color_target s c) t2
         then gn_adaptHistory s @ [gn_reactionWindowMs (onCellClick s c t1 t2 d)]
         else gn_adaptHistory s)
      \<and> (\<not> tenth_hit s (color_target s c) t2 \<longrightarrow>
            gn_reactionWindowMs (onCellClick s c t1 t2 d) = gn_reactionWindowMs s)
      \<and> (\<forall>stim. tenth_hit s (color_target s c) t2 \<and> color_target s c = Some stim \<longrightarrow>
            gn_reactionWindowMs (onCellClick s c t1 t2 d) =
              gn_reactionWindowMs (adaptDifficulty
                (s\<lparr>gn_reactionList := gn_reactionList s @ [t1 - s_shownAt stim]\<rparr>)))"
    using onCellClick_adapt [where s = s and c = c and ?t1.0 = t1 and ?t2.0 = t2 and d = d]
    by blast
  have B: "gn_running s \<longrightarrow>
      gn_adaptHistory (edges_onCellClick s c t) =
        (if tenth_hit s (edges_target s c) t
         then gn_adaptHistory s @ [gn_reactionWindowMs (edges_onCellClick s c t)]
         else gn_adaptHistory s)
      \<and> (\<not> tenth_hit s (edges_target s c) t \<longrightarrow>
            gn_reactionWindowMs (edges_onCellClick s c t) = gn_reactionWindowMs s)
      \<and> (\<forall>stim. tenth_hit s (edges_target s c) t \<and> edges_target s c = Some stim \<longrightarrow>
            gn_reactionWindowMs (edges_onCellClick s c t) =
              gn_reactionWindowMs (adaptDifficulty
                (s\<lparr>gn_reactionList := gn_reactionList s @ [t - s_shownAt stim]\<rparr>)))"
    using edges_onCellClick_adapt [where s = s and c = c and t = t] by blast
  note E = gn_expire_no_adapt [of s sid] and L = adaptDifficulty_last10 [of s, symmetric]
  show ?thesis
    by (intro conjI) (rule A B E L)+
qed

lemma tenth_red_fields:
  "gn_running tenth_red" "gn_hits tenth_red = 9" "gn_errors tenth_red = 0"
  "gn_misses tenth_red = 0" "gn_adaptHistory tenth_red = [800]"
  "gn_reactionWindowMs tenth_red = 800" "gn_totalShown tenth_red = 10"
  "gn_stimuli tenth_red =
     [\<lparr>s_id = 10, s_idx = 42, s_color = red, s_shownAt = 10000, s_expiresAt = 10900\<rparr>]"
  by (simp_all add: tenth_red_state nine_hits_state)

lemma tenth_green_fields:
  "gn_running tenth_green" "gn_hits tenth_green = 9" "gn_errors tenth_green = 0"
  "gn_misses tenth_green = 0" "gn_adaptHistory tenth_green = [800]"
  "gn_reactionWindowMs tenth_green = 800" "gn_totalShown tenth_green = 10"
  "gn_reactionList tenth_green = [300, 300, 300, 300, 300, 300, 300, 300, 300]"
  "gn_stimuli tenth_green =
     [\<lparr>s_id = 10, s_idx = 42, s_color = green, s_shownAt = 10000, s_expiresAt = 10900\<rparr>]"
  by (simp_all add: tenth_green_state nine_hits_state)

text \<open>
  C6 fails as stated. After nine hits the tenth stimulus is red and is clicked: the click
  is an error, it brings hits + errors + misses to 10, and the adaptation history is
  still [800] with the window at 800, in both go/no-go games. After nine hits the tenth
  stimulus is green and its display timer fires: the miss brings the sum to 10, and the
  history is still [800].
\<close>

theorem tenth_response_without_adaptation:
  "gn_running tenth_red
   \<and> gn_hits tenth_red + gn_errors tenth_red + gn_misses tenth_red = 9
   \<and> gn_adaptHistory tenth_red = [800]
   \<and> gn_hits (onCellClick tenth_red 42 10300 10300 0)
       + gn_errors (onCellClick tenth_red 42 10300 10300 0)
       + gn_misses (onCellClick tenth_red 42 10300 10300 0) = 10
   \<and> gn_errors (onCellClick tenth_red 42 10300 10300 0) = 1
   \<and> gn_adaptHistory (onCellClick tenth_red 42 10300 10300 0) = [800]
   \<and> gn_reactionWindowMs (onCellClick tenth_red 42 10300 10300 0) = 800
   \<and> gn_hits (edges_onCellClick tenth_red 42 10300)
       + gn_errors (edges_onCellClick tenth_red 42 10300)
       + gn_misses (edges_onCellClick tenth_red 42 10300) = 10
   \<and> gn_adaptHistory (edges_onCellClick tenth_red 42 10300) = [800]
   \<and> gn_running tenth_green
   \<and> gn_hits tenth_green + gn_errors tenth_green + gn_misses tenth_green = 9
   \<and> gn_hits (gn_expire tenth_green 10) + gn_errors (gn_expire tenth_green 10)
       + gn_misses (gn_expire tenth_green 10) = 10
   \<and> gn_misses (gn_expire tenth_green 10) = 1
   \<and> gn_adaptHistory (gn_expire tenth_green 10) = [800]
   \<and> gn_reactionWindowMs (gn_expire tenth_green 10) = 800"
  by (simp add: tenth_red_fields tenth_green_fields onCellClick_def edges_onCellClick_def
      gn_score_def gn_expire_def Let_def)

lemma tenth_green_target:
  "color_target tenth_green 42
     = Some \<lparr>s_id = 10, s_idx = 42, s_color = green, s_shownAt = 10000, s_expiresAt = 10900\<rparr>"
  "color_target tenth_red 42
     = Some \<lparr>s_id = 10, s_idx = 42, s_color = red, s_shownAt = 10000, s_expiresAt = 10900\<rparr>"
  by (simp_all add: color_target_def tenth_green_fields tenth_red_fields)

lemma tenth_green_next_window:
  "gn_reactionWindowMs (adaptDifficulty
     (tenth_green\<lparr>gn_reactionList := gn_reactionList tenth_green @ [10300 - 10000]\<rparr>)) = 400"
  by (simp add: adaptDifficulty_def tenth_green_fields slice_last10_def rt_sum_def Let_def)

text \<open>
  The corrected C6 after nine hits: a tenth hit at 300 ms recomputes the window (ten
  reaction times of 300 ms tighten it to 400) and the history becomes [800, 400]; a
  click on a red tenth stimulus changes neither.
\<close>

theorem adaptation_on_tenth_hit_witness:
  "gn_running tenth_green
   \<and> tenth_hit tenth_green (color_target tenth_green 42) 10300
   \<and> color_target tenth_green 42
       = Some \<lparr>s_id = 10, s_idx = 42, s_color = green, s_shownAt = 10000, s_expiresAt = 10900\<rparr>
   \<and> gn_reactionWindowMs (onCellClick tenth_green 42 10300 10300 0) = 400
   \<and> gn_adaptHistory (onCellClick tenth_green 42 10300 10300 0) = [800, 400]
   \<and> gn_running tenth_red
   \<and> \<not> tenth_hit tenth_red (color_target tenth_red 42) 10300
   \<and> gn_reactionWindowMs (onCellClick tenth_red 42 10300 10300 0) = 800
   \<and> gn_adaptHistory (onCellClick tenth_red 42 10300 10300 0) = [800]"
proof -
  let ?g = "\<lparr>s_id = 10, s_idx = 42, s_color = green, s_shownAt = 10000, s_expiresAt = 10900\<rparr>"
  have h: "tenth_hit tenth_green (color_target tenth_green 42) 10300"
    by (simp add: tenth_green_target tenth_hit_Some tenth_green_fields)
  have n: "\<not> tenth_hit tenth_red (color_target tenth_red 42) 10300"
    by (simp add: tenth_green_target tenth_hit_Some tenth_red_fields)
  from adaptation_on_tenth_hit [where s = tenth_green and c = 42 and ?t1.0 = 10300
      and ?t2.0 = 10300 and d = 0 and t = 10300 and sid = 10]
    tenth_green_fields(1) h tenth_green_target(1)
  have w: "gn_reactionWindowMs (onCellClick tenth_green 42 10300 10300 0) =
      gn_reactionWindowMs (adaptDifficulty
        (tenth_green\<lparr>gn_reactionList := gn_reactionList tenth_green @ [10300 - s_shownAt ?g]\<rparr>))"
    and hi: "gn_adaptHistory (onCellClick tenth_green 42 10300 10300 0) =
      gn_adaptHistory tenth_green @ [gn_reactionWindowMs (onCellClick tenth_green 42 10300 10300 0)]"
    by auto
  from w tenth_green_next_window
  have w': "gn_reactionWindowMs (onCellClick tenth_green 42 10300 10300 0) = 400" by simp
  from hi w' have hi': "gn_adaptHistory (onCellClick tenth_green 42 10300 10300 0) = [800, 400]"
    by (simp add: tenth_green_fields)
  from adaptation_on_tenth_hit [where s = tenth_red and c = 42 and ?t1.0 = 10300
      and ?t2.0 = 10300 and d = 0 and t = 10300 and sid = 10]
    tenth_red_fields(1) n
  have r: "gn_reactionWindowMs (onCellClick tenth_red 42 10300 10300 0) = 800"
    and rh: "gn_adaptHistory (onCellClick tenth_red 42 10300 10300 0) = [800]"
    by (simp_all add: tenth_red_fields)
  from tenth_green_fields(1) tenth_red_fields(1) h n tenth_green_target(1) w' hi' r rh
  show ?thesis by blast
qed

subsection \<open>Accuracy in the reports\<close>

lemma accuracy_spec_div:
  assumes "0 < t"
  shows "accuracy_spec h t = (200 * int h + int t) div (2 * int t)"
proof -
  have "(of_nat h / of_nat t) * 100 + 1 / 2 = (of_int (200 * int h + int t) / of_int (2 * int t) :: rat)"
    using assms by (simp add: field_simps)
  then have "Math_round ((of_nat h / of_nat t) * 100)
      = \<lfloor>of_int (200 * int h + int t) / of_int (2 * int t) :: rat\<rfloor>"
    by (simp only: Math_round_def)
  then have "Math_round ((of_nat h / of_nat t) * 100) = (200 * int h + int t) div (2 * int t)"
    by (simp only: floor_divide_of_int_eq)
  with assms show ?thesis by (simp add: accuracy_spec_def)
qed

text \<open>
  The percentage the code computes in doubles against the exactly rounded one, for a
  divisor below \<open>2 ^ 43\<close>.
\<close>

lemma pct_rounded_exact:
  assumes t: "0 < t" and b: "t < 2 ^ 43" and h: "h \<le> t"
  shows "((200 * int h + int t) mod (2 * int t) \<noteq> 0 \<longrightarrow> pct_rounded h t = accuracy_spec h t)
       \<and> (pct_rounded h t = accuracy_spec h t \<or> pct_rounded h t = accuracy_spec h t - 1)"
  unfolding pct_rounded_def accuracy_spec_div [OF t]
  by (rule Math_round_near [OF t b pct_err [OF t h]])

lemma gn_stop_report:
  "g_accuracyPct (last (gn_scores (gn_stop g)))
     = (if gn_hits g + gn_errors g + gn_misses g = 0 then 100
        else pct_rounded (gn_hits g) (gn_hits g + gn_errors g + gn_misses g))"
  by (simp add: gn_stop_def gn_accuracyPct_def Let_def)

lemma gn_remove_last_stimulus:
  "gn_totalShown g \<ge> TOTAL_STIMULI \<Longrightarrow> filter (\<lambda>x. s_id x \<noteq> sid) (gn_stimuli g) = [] \<Longrightarrow>
     gn_remove g sid = gn_stop (g\<lparr>gn_stimuli := []\<rparr>)"
  by (simp add: gn_remove_def Let_def TOTAL_STIMULI_def)

lemma ft_stop_report:
  "f_accuracyPct (last (ft_scores (ft_stop f))) = ft_accuracyPct (ft_hits f) (ft_errors f)"
  by (simp add: ft_stop_def Let_def)

lemma ft_rounded:
  assumes "h + e \<noteq> 0"
  shows "js_round (js_times (js_div h (h + e)) 100) = Num (of_int (pct_rounded h (h + e)))"
proof -
  from assms have "js_div h (h + e) = Num (dbl_div (of_nat h) (of_nat (h + e)))"
    by (simp only: js_div_def if_False)
  then show ?thesis by (simp only: js_times.simps js_round.simps pct_rounded_def)
qed

lemma ft_accuracy_nonzero:
  assumes "h + e \<noteq> 0" and "pct_rounded h (h + e) \<noteq> 0"
  shows "ft_accuracyPct h e = Num (of_int (pct_rounded h (h + e)))"
proof -
  from assms(2) have nz: "(of_int (pct_rounded h (h + e)) :: rat) \<noteq> 0" by simp
  have "ft_accuracyPct h e = js_or (Num (of_int (pct_rounded h (h + e)))) (Num 100)"
    by (simp only: ft_accuracyPct_def ft_rounded [OF assms(1)])
  also from nz have "\<dots> = Num (of_int (pct_rounded h (h + e)))" by (simp add: js_or_def)
  finally show ?thesis .
qed

lemma ft_accuracy_unscored: "ft_accuracyPct 0 0 = Num 100"
  by (simp add: ft_accuracyPct_def js_div_def js_or_def)

lemma ft_spawnSet_ends:
  "ft_running f \<Longrightarrow> ft_currentSet f \<ge> TOTAL_SETS \<Longrightarrow> ft_spawnSet f ind now = ft_stop f"
  by (simp add: ft_spawnSet_def)

lemma sp_acc_eq:
  "sp_acc st = (if ms_total st = 0 then 0 else pct_rounded (ms_hits st) (ms_total st))"
  by (simp add: sp_acc_def)

lemma sp_buildReport_acc: "r_accuracyPct (sp_buildReport s) m = sp_acc (sp_stats s m)"
  by (simp add: sp_buildReport_def Let_def)

lemma sp_stop_report:
  "last (sp_scores (sp_stop s)) = sp_buildReport (s\<lparr>sp_presentTimers := [], sp_running := False\<rparr>)"
  by (simp add: sp_stop_def Let_def)

lemma sp_stop_acc: "r_accuracyPct (last (sp_scores (sp_stop s))) m = sp_acc (sp_stats s m)"
  by (simp add: sp_stop_report sp_buildReport_acc)

lemma sp_presentSequence_stats [simp]: "sp_stats (sp_presentSequence s arr) = sp_stats s"
  by (simp add: sp_presentSequence_def Let_def split: prod.splits)

lemma sp_startTrial_stats: "sp_startTrial s len draws = Some s' \<Longrightarrow> sp_stats s' = sp_stats s"
  by (auto simp add: sp_startTrial_def split: option.splits)

lemma sp_finishTrial_counts:
  assumes "sp_finishTrial s ok draws = Some s'"
  shows "ms_hits (sp_stats s' m) = ms_hits (sp_stats s m)
       \<and> ms_total (sp_stats s' m) = ms_total (sp_stats s m)
       \<and> ms_errors (sp_stats s' m) = ms_errors (sp_stats s m)"
  using assms
  by (auto simp add: sp_finishTrial_def Let_def sp_buildReport_def
      dest!: sp_startTrial_stats split: if_splits)

lemma totals_ok_sp_onCellClick:
  assumes ok: "totals_ok s" and c: "sp_onCellClick s p cell draws = Some s'"
  shows "totals_ok s'"
proof (cases "sp_phase s = Respond")
  case False
  with c have "s' = s" by (simp add: sp_onCellClick_def)
  with ok show ?thesis by simp
next
  case True
  let ?m = "mode_of (sp_blockIdx s)"
  show ?thesis
  proof (cases "seq_at (sp_seq s) (sp_replayPos s) = Some cell")
    case correct: True
    show ?thesis
    proof (cases "sp_replayPos s + 1 \<ge> length (sp_seq s)")
      case last: True
      from c True correct last obtain s1 where
        f: "sp_finishTrial s1 True draws = Some s'" and
        s1: "\<forall>m. ms_hits (sp_stats s1 m) = (if m = ?m then ms_hits (sp_stats s m) + 1 else ms_hits (sp_stats s m))
              \<and> ms_total (sp_stats s1 m) = (if m = ?m then ms_total (sp_stats s m) + 1 else ms_total (sp_stats s m))
              \<and> ms_errors (sp_stats s1 m) = ms_errors (sp_stats s m)"
        by (simp add: sp_onCellClick_def Let_def)
      from sp_finishTrial_counts [OF f] s1 ok show ?thesis
        by (simp add: totals_ok_def)
    next
      case more: False
      from c True correct more have
        "\<forall>m. ms_hits (sp_stats s' m) = (if m = ?m then ms_hits (sp_stats s m) + 1 else ms_hits (sp_stats s m))
              \<and> ms_total (sp_stats s' m) = (if m = ?m then ms_total (sp_stats s m) + 1 else ms_total (sp_stats s m))
              \<and> ms_errors (sp_stats s' m) = ms_errors (sp_stats s m)"
        by (auto simp add: sp_onCellClick_def Let_def)
      with ok show ?thesis by (simp add: totals_ok_def)
    qed
  next
    case wrong: False
    from c True wrong obtain s1 where
      f: "sp_finishTrial s1 False draws = Some s'" and
      s1: "\<forall>m. ms_hits (sp_stats s1 m) = ms_hits (sp_stats s m)
            \<and> ms_total (sp_stats s1 m) = (if m = ?m then ms_total (sp_stats s m) + 1 else ms_total (sp_stats s m))
            \<and> ms_errors (sp_stats s1 m) = (if m = ?m then ms_errors (sp_stats s m) + 1 else ms_errors (sp_stats s m))"
      by (simp add: sp_onCellClick_def Let_def)
    from sp_finishTrial_counts [OF f] s1 ok show ?thesis
      by (simp add: totals_ok_def)
  qed
qed

lemma totals_ok_sp_init: "totals_ok sp_init"
  by (simp add: totals_ok_def sp_init_def emptyStats_def)

text \<open>
  C1 as the code has it. The report that stop builds in the go/no-go games carries
  \<open>Math.round((hits / attempts) * 100)\<close> for attempts = hits + errors + misses, and 100
  when nothing was scored; with no hit and something scored that is 0. The report of the
  five-target game carries \<open>Math.round((hits / (hits + errors)) * 100)\<close> whenever that
  value is not 0, and 100 when nothing was scored. The report of SpamperceptionBlocks
  carries, for every modality, \<open>Math.round((hits / total) * 100)\<close> when the modality has
  scored clicks and 0 when it has none; total is hits + errors there, from the mounted
  state on and after every click. The sessions that end by themselves build their
  report with the same functions. The quotient and the product are doubles: for h hits
  among t scored responses, t below \<open>2 ^ 43\<close>, the value is the exactly rounded
  percentage, \<open>(200 * h + t) div (2 * t)\<close>, unless the exact percentage lies halfway
  between two integers, where it is that or one less: 57 for 23 hits among 40, where
  the exact percentage is 57.5 and its rounding 58. The value is 0 for no hit and 100
  when every scored response is a hit.
\<close>

theorem report_accuracy:
  "g_accuracyPct (last (gn_scores (gn_stop g)))
     = (if gn_hits g + gn_errors g + gn_misses g = 0 then 100
        else pct_rounded (gn_hits g) (gn_hits g + gn_errors g + gn_misses g))
   \<and> (gn_hits g = 0 \<and> 0 < gn_errors g + gn_misses g \<longrightarrow>
        g_accuracyPct (last (gn_scores (gn_stop g))) = 0)
   \<and> (TOTAL_STIMULI \<le> gn_totalShown g \<and> filter (\<lambda>x. s_id x \<noteq> sid) (gn_stimuli g) = [] \<longrightarrow>
        gn_remove g sid = gn_stop (g\<lparr>gn_stimuli := []\<rparr>))
   \<and> (ft_hits f + ft_errors f = 0 \<longrightarrow>
        f_accuracyPct (last (ft_scores (ft_stop f))) = Num 100)
   \<and> (ft_hits f + ft_errors f \<noteq> 0
        \<and> pct_rounded (ft_hits f) (ft_hits f + ft_errors f) \<noteq> 0 \<longrightarrow>
        f_accuracyPct (last (ft_scores (ft_stop f)))
          = Num (of_int (pct_rounded (ft_hits f) (ft_hits f + ft_errors f))))
   \<and> (ft_running f \<and> TOTAL_SETS \<le> ft_currentSet f \<longrightarrow> ft_spawnSet f ind now = ft_stop f)
   \<and> (ms_total (sp_stats s m) \<noteq> 0 \<longrightarrow>
        r_accuracyPct (last (sp_scores (sp_stop s))) m
          = pct_rounded (ms_hits (sp_stats s m)) (ms_total (sp_stats s m))
        \<and> r_accuracyPct (sp_buildReport s) m
          = pct_rounded (ms_hits (sp_stats s m)) (ms_total (sp_stats s m)))
   \<and> (ms_total (sp_stats s m) = 0 \<longrightarrow>
        r_accuracyPct (last (sp_scores (sp_stop s))) m = 0
        \<and> r_accuracyPct (sp_buildReport s) m = 0)
   \<and> totals_ok sp_init
   \<and> (totals_ok s \<and> sp_onCellClick s p c draws = Some s' \<longrightarrow> totals_ok s')
   \<and> (0 < t \<and> t < 2 ^ 43 \<and> h \<le> t \<longrightarrow>
        ((200 * int h + int t) mod (2 * int t) \<noteq> 0 \<longrightarrow> pct_rounded h t = accuracy_spec h t)
        \<and> (pct_rounded h t = accuracy_spec h t \<or> pct_rounded h t = accuracy_spec h t - 1))
   \<and> (0 < t \<longrightarrow> pct_rounded 0 t = 0 \<and> pct_rounded t t = 100)
   \<and> (0 < t \<longrightarrow> accuracy_spec h t = (200 * int h + int t) div (2 * int t))
   \<and> accuracy_spec h 0 = 100
   \<and> pct_rounded 23 40 = 57
   \<and> accuracy_spec 23 40 = 58"
proof -
  note G = gn_stop_report [of g]
  have G0: "gn_hits g = 0 \<and> 0 < gn_errors g + gn_misses g \<longrightarrow>
        g_accuracyPct (last (gn_scores (gn_stop g))) = 0"
    by (simp add: gn_stop_report pct_rounded_none)
  have GE: "TOTAL_STIMULI \<le> gn_totalShown g \<and> filter (\<lambda>x. s_id x \<noteq> sid) (gn_stimuli g) = [] \<longrightarrow>
        gn_remove g sid = gn_stop (g\<lparr>gn_stimuli := []\<rparr>)"
    using gn_remove_last_stimulus [of g sid] by blast
  have F0: "ft_hits f + ft_errors f = 0 \<longrightarrow>
        f_accuracyPct (last (ft_scores (ft_stop f))) = Num 100"
    by (simp add: ft_stop_report ft_accuracy_unscored)
  have F: "ft_hits f + ft_errors f \<noteq> 0
        \<and> pct_rounded (ft_hits f) (ft_hits f + ft_errors f) \<noteq> 0 \<longrightarrow>
        f_accuracyPct (last (ft_scores (ft_stop f)))
          = Num (of_int (pct_rounded (ft_hits f) (ft_hits f + ft_errors f)))"
    using ft_accuracy_nonzero [of "ft_hits f" "ft_errors f"] by (simp only: ft_stop_report) blast
  have FE: "ft_running f \<and> TOTAL_SETS \<le> ft_currentSet f \<longrightarrow> ft_spawnSet f ind now = ft_stop f"
    using ft_spawnSet_ends [of f ind now] by blast
  have S: "ms_total (sp_stats s m) \<noteq> 0 \<longrightarrow>
        r_accuracyPct (last (sp_scores (sp_stop s))) m
          = pct_rounded (ms_hits (sp_stats s m)) (ms_total (sp_stats s m))
        \<and> r_accuracyPct (sp_buildReport s) m
          = pct_rounded (ms_hits (sp_stats s m)) (ms_total (sp_stats s m))"
    by (simp add: sp_stop_acc sp_buildReport_acc sp_acc_eq)
  have S0: "ms_total (sp_stats s m) = 0 \<longrightarrow>
        r_accuracyPct (last (sp_scores (sp_stop s))) m = 0
        \<and> r_accuracyPct (sp_buildReport s) m = 0"
    by (simp add: sp_stop_acc sp_buildReport_acc sp_acc_eq)
  note T0 = totals_ok_sp_init
  have T: "totals_ok s \<and> sp_onCellClick s p c draws = Some s' \<longrightarrow> totals_ok s'"
    using totals_ok_sp_onCellClick [of s p c draws s'] by blast
  have D: "0 < t \<and> t < 2 ^ 43 \<and> h \<le> t \<longrightarrow>
        ((200 * int h + int t) mod (2 * int t) \<noteq> 0 \<longrightarrow> pct_rounded h t = accuracy_spec h t)
        \<and> (pct_rounded h t = accuracy_spec h t \<or> pct_rounded h t = accuracy_spec h t - 1)"
    using pct_rounded_exact [of t h] by blast
  have E: "0 < t \<longrightarrow> pct_rounded 0 t = 0 \<and> pct_rounded t t = 100"
    by (simp add: pct_rounded_none pct_rounded_all)
  have R: "0 < t \<longrightarrow> accuracy_spec h t = (200 * int h + int t) div (2 * int t)"
    using accuracy_spec_div [of t h] by blast
  have Z: "accuracy_spec h 0 = 100" by (simp add: accuracy_spec_def)
  have X: "pct_rounded 23 40 = 57" by code_simp
  have Y: "accuracy_spec 23 40 = 58" by (simp add: accuracy_spec_div)
  show ?thesis
    by (intro conjI) (rule G G0 GE F0 F FE S S0 T0 T D E R Z X Y)+
qed

text \<open>
  C1 fails as stated. A SpamperceptionBlocks session is stopped in its first trial: the
  modality letters has no hit, no error and no scored click, and its reported accuracy
  is 0, not 100.
\<close>

theorem unscored_modality_accuracy:
  "ms_hits (sp_stats sp_trial_4_17_82 letters) = 0
   \<and> ms_errors (sp_stats sp_trial_4_17_82 letters) = 0
   \<and> ms_total (sp_stats sp_trial_4_17_82 letters) = 0
   \<and> r_accuracyPct (last (sp_scores (sp_stop sp_trial_4_17_82))) letters = 0
   \<and> accuracy_spec 0 0 = 100"
  by (simp add: sp_trial_fields emptyStats_def sp_stop_acc sp_acc_def accuracy_spec_def)

lemma five_missed_fields:
  "ft_running five_missed" "ft_hits five_missed = 0" "ft_errors five_missed = 1"
  by (simp_all add: five_missed_def five_set_eq ft_onCellClick_def ft_init_def)

text \<open>
  The five-target game with no hit and one error (a click on the empty cell 50): the
  rounded percentage is 0, and \<open>0 || 100\<close> reports 100.
\<close>

lemma five_target_zero_hits:
  "ft_hits five_missed = 0 \<and> ft_errors five_missed = 1
   \<and> pct_rounded (ft_hits five_missed) (ft_hits five_missed + ft_errors five_missed) = 0
   \<and> accuracy_spec (ft_hits five_missed) (ft_hits five_missed + ft_errors five_missed) = 0
   \<and> f_accuracyPct (last (ft_scores (ft_stop five_missed))) = Num 100"
proof -
  have "ft_accuracyPct 0 1 = js_or (Num (of_int (pct_rounded 0 (0 + 1)))) (Num 100)"
    using ft_rounded [of 0 1] by (simp only: ft_accuracyPct_def)
  then have "ft_accuracyPct 0 1 = Num 100" by (simp add: pct_rounded_none js_or_def)
  then show ?thesis
    by (simp add: five_missed_fields ft_stop_report pct_rounded_none accuracy_spec_def)
qed

lemma five_set_counters: "ft_hits five_set = 0" "ft_errors five_set = 0"
  by (simp_all add: five_set_eq ft_init_def)

lemma mode_of_0 [simp]: "mode_of 0 = digits"
  by (simp add: mode_of_def MODES_def)

lemma sp_one_correct_ex:
  "\<exists>s1. sp_one_correct = Some s1 \<and> ms_hits (sp_stats s1 digits) = 1
     \<and> ms_total (sp_stats s1 digits) = 1 \<and> ms_errors (sp_stats s1 digits) = 0
     \<and> ms_total (sp_stats s1 letters) = 0
     \<and> sp_replayPos s1 = 1 \<and> sp_phase s1 = Respond \<and> sp_seq s1 = [4, 17, 82]
     \<and> sp_blockIdx s1 = 0 \<and> sp_trialIdx s1 = 0 \<and> sp_seqLen s1 = 3"
  by (simp add: sp_one_correct_def sp_onCellClick_def sp_trial_fields seq_at_def Let_def
      emptyStats_def)

lemma totals_ok_sp_trial: "totals_ok sp_trial_4_17_82"
  by (simp add: totals_ok_def sp_trial_fields emptyStats_def)

text \<open>
  C1 at a go/no-go session with one miss and no hit (accuracy 0), at one whose fiftieth
  stimulus leaves the board, at the five-target game before any click and after one hit
  (accuracy 100 both times) and at its tenth set, at SpamperceptionBlocks after one
  correct click (digits at 100, letters unscored at 0), and at 9 hits among 10 scored
  responses (90), none among 10 (0) and 10 among 10 (100).
\<close>

theorem report_accuracy_witness:
  "gn_hits (gn_expire green_board 1) = 0
   \<and> 0 < gn_errors (gn_expire green_board 1) + gn_misses (gn_expire green_board 1)
   \<and> g_accuracyPct (last (gn_scores (gn_stop (gn_expire green_board 1)))) = 0
   \<and> TOTAL_STIMULI \<le> gn_totalShown (tenth_red\<lparr>gn_totalShown := 50\<rparr>)
   \<and> filter (\<lambda>x. s_id x \<noteq> 10) (gn_stimuli (tenth_red\<lparr>gn_totalShown := 50\<rparr>)) = []
   \<and> gn_remove (tenth_red\<lparr>gn_totalShown := 50\<rparr>) 10
       = gn_stop (tenth_red\<lparr>gn_totalShown := 50, gn_stimuli := []\<rparr>)
   \<and> ft_hits five_set + ft_errors five_set = 0
   \<and> f_accuracyPct (last (ft_scores (ft_stop five_set))) = Num 100
   \<and> ft_hits five_clicked + ft_errors five_clicked \<noteq> 0
   \<and> pct_rounded (ft_hits five_clicked) (ft_hits five_clicked + ft_errors five_clicked) \<noteq> 0
   \<and> f_accuracyPct (last (ft_scores (ft_stop five_clicked))) = Num 100
   \<and> ft_running (five_clicked\<lparr>ft_currentSet := 10\<rparr>)
   \<and> TOTAL_SETS \<le> ft_currentSet (five_clicked\<lparr>ft_currentSet := 10\<rparr>)
   \<and> ft_spawnSet (five_clicked\<lparr>ft_currentSet := 10\<rparr>) [1, 2, 3, 4, 5] 9000
       = ft_stop (five_clicked\<lparr>ft_currentSet := 10\<rparr>)
   \<and> totals_ok sp_trial_4_17_82
   \<and> (\<exists>s1. sp_onCellClick sp_trial_4_17_82 5400 4 [] = Some s1
         \<and> totals_ok s1
         \<and> ms_total (sp_stats s1 digits) \<noteq> 0
         \<and> r_accuracyPct (last (sp_scores (sp_stop s1))) digits = 100
         \<and> ms_total (sp_stats s1 letters) = 0
         \<and> r_accuracyPct (last (sp_scores (sp_stop s1))) letters = 0)
   \<and> (0::nat) < 10 \<and> (10::nat) < 2 ^ 43 \<and> (9::nat) \<le> 10
   \<and> (200 * int 9 + int 10) mod (2 * int 10) \<noteq> 0
   \<and> pct_rounded 9 10 = 90
   \<and> pct_rounded 0 10 = 0
   \<and> pct_rounded 10 10 = 100
   \<and> accuracy_spec 9 10 = 90"
proof -
  let ?g = "gn_expire green_board 1"
  let ?g50 = "tenth_red\<lparr>gn_totalShown := 50\<rparr>"
  let ?f10 = "five_clicked\<lparr>ft_currentSet := 10\<rparr>"
  obtain s1 where s1: "sp_one_correct = Some s1" "ms_hits (sp_stats s1 digits) = 1"
      "ms_total (sp_stats s1 digits) = 1" "ms_total (sp_stats s1 letters) = 0"
    using sp_one_correct_ex by blast
  then have c1: "sp_onCellClick sp_trial_4_17_82 5400 4 [] = Some s1"
    by (simp add: sp_one_correct_def)
  have g: "gn_hits ?g = 0" "0 < gn_errors ?g + gn_misses ?g"
    by (simp_all add: gn_expire_counters green_board_eq gn_init_def)
  have g50: "TOTAL_STIMULI \<le> gn_totalShown ?g50"
    "filter (\<lambda>x. s_id x \<noteq> 10) (gn_stimuli ?g50) = []"
    by (simp_all add: TOTAL_STIMULI_def tenth_red_fields)
  have f0: "ft_hits five_set + ft_errors five_set = 0"
    by (simp add: five_set_counters)
  have f: "ft_hits five_clicked + ft_errors five_clicked \<noteq> 0"
    by (simp add: five_clicked_fields)
  have fp: "pct_rounded (ft_hits five_clicked) (ft_hits five_clicked + ft_errors five_clicked) = 100"
    by (simp add: five_clicked_fields pct_rounded_all)
  then have fn: "pct_rounded (ft_hits five_clicked) (ft_hits five_clicked + ft_errors five_clicked) \<noteq> 0"
    by simp
  have f10: "ft_running ?f10" "TOTAL_SETS \<le> ft_currentSet ?f10"
    by (simp_all add: five_clicked_fields TOTAL_SETS_def)
  have n: "(0::nat) < 10" "(10::nat) < 2 ^ 43" "(9::nat) \<le> 10"
    "(200 * int 9 + int 10) mod (2 * int 10) \<noteq> 0"
    by simp_all
  note A = report_accuracy [where g = ?g and sid = 1 and f = five_clicked and s = s1
      and m = digits and t = 10 and h = 9 and p = 5400 and c = 4 and draws = "[]"
      and s' = s1 and ind = "[]" and now = 0]
  note B = report_accuracy [where g = ?g50 and sid = 10 and f = ?f10 and s = sp_trial_4_17_82
      and m = letters and t = 10 and h = 9 and p = 5400 and c = 4 and draws = "[]"
      and s' = s1 and ind = "[1, 2, 3, 4, 5]" and now = 9000]
  note C = report_accuracy [where g = ?g and sid = 1 and f = five_set and s = s1
      and m = letters and t = 10 and h = 9 and p = 5400 and c = 4 and draws = "[]"
      and s' = s1 and ind = "[]" and now = 0]
  from A g have 1: "g_accuracyPct (last (gn_scores (gn_stop ?g))) = 0" by blast
  from B g50 have 2: "gn_remove ?g50 10 = gn_stop (?g50\<lparr>gn_stimuli := []\<rparr>)" by blast
  from C f0 have 30: "f_accuracyPct (last (ft_scores (ft_stop five_set))) = Num 100" by blast
  from A f fn have "f_accuracyPct (last (ft_scores (ft_stop five_clicked)))
      = Num (of_int (pct_rounded (ft_hits five_clicked) (ft_hits five_clicked + ft_errors five_clicked)))"
    by blast
  then have 3: "f_accuracyPct (last (ft_scores (ft_stop five_clicked))) = Num 100"
    by (simp only: fp) simp
  from B f10 have 4: "ft_spawnSet ?f10 [1, 2, 3, 4, 5] 9000 = ft_stop ?f10" by blast
  from B totals_ok_sp_trial c1 have 5: "totals_ok s1" by blast
  have s1n: "ms_total (sp_stats s1 digits) \<noteq> 0" using s1 by simp
  from A s1n have "r_accuracyPct (last (sp_scores (sp_stop s1))) digits
      = pct_rounded (ms_hits (sp_stats s1 digits)) (ms_total (sp_stats s1 digits))"
    by blast
  then have 6: "r_accuracyPct (last (sp_scores (sp_stop s1))) digits = 100"
    by (simp add: s1 pct_rounded_all)
  from C s1 have 7: "r_accuracyPct (last (sp_scores (sp_stop s1))) letters = 0" by blast
  from A n(1) have "accuracy_spec 9 10 = (200 * int 9 + int 10) div (2 * int 10)" by blast
  then have 11: "accuracy_spec 9 10 = 90" by simp
  from A n have "pct_rounded 9 10 = accuracy_spec 9 10" by blast
  with 11 have 8: "pct_rounded 9 10 = 90" by simp
  from A n(1) have 9: "pct_rounded 0 10 = 0" and 10: "pct_rounded 10 10 = 100" by blast+
  from c1 5 s1n 6 s1(4) 7
  have E: "\<exists>s1. sp_onCellClick sp_trial_4_17_82 5400 4 [] = Some s1
         \<and> totals_ok s1
         \<and> ms_total (sp_stats s1 digits) \<noteq> 0
         \<and> r_accuracyPct (last (sp_scores (sp_stop s1))) digits = 100
         \<and> ms_total (sp_stats s1 letters) = 0
         \<and> r_accuracyPct (last (sp_scores (sp_stop s1))) letters = 0"
    by blast
  from 2 have r2: "gn_remove ?g50 10 = gn_stop (tenth_red\<lparr>gn_totalShown := 50, gn_stimuli := []\<rparr>)"
    by simp
  show ?thesis
    by (intro conjI) (rule g g50 1 r2 f0 30 f fn 3 f10 4 totals_ok_sp_trial E n 8 9 10 11)+
qed

subsection \<open>Sequence generation\<close>

lemma uniqueLoop_result:
  assumes "uniqueLoop pick len used sq draws = Some r" and "used = set sq" and "distinct sq"
  shows "distinct r \<and> set r \<subseteq> set sq \<union> pick ` set draws \<and>
         (length sq \<le> len \<longrightarrow> length r = len) \<and> take (length sq) r = sq"
  using assms
proof (induction draws arbitrary: used sq)
  case Nil
  then show ?case by (auto split: if_splits)
next
  case (Cons d ds)
  show ?case
  proof (cases "length sq < len")
    case False
    with Cons.prems show ?thesis by auto
  next
    case True
    show ?thesis
    proof (cases "pick d \<in> used")
      case True
      with \<open>length sq < len\<close> Cons.prems
      have "uniqueLoop pick len used sq ds = Some r" by simp
      from Cons.IH [OF this Cons.prems(2) Cons.prems(3)] show ?thesis by auto
    next
      case False
      with \<open>length sq < len\<close> Cons.prems
      have r: "uniqueLoop pick len (insert (pick d) used) (sq @ [pick d]) ds = Some r"
        by (simp add: Let_def)
      from False Cons.prems have u: "insert (pick d) used = set (sq @ [pick d])"
        and di: "distinct (sq @ [pick d])" by auto
      from Cons.IH [OF r u di] \<open>length sq < len\<close>
      have a: "distinct r" and b: "set r \<subseteq> set (sq @ [pick d]) \<union> pick ` set ds"
        and c: "length r = len" and e: "take (length (sq @ [pick d])) r = sq @ [pick d]"
        by auto
      from e have "take (length sq) (take (length (sq @ [pick d])) r) = take (length sq) (sq @ [pick d])"
        by simp
      then have "take (length sq) r = sq" by (simp add: min_def)
      with a b c show ?thesis by auto
    qed
  qed
qed

lemma uniqueLoop_too_long:
  assumes "used = set sq" and "distinct sq" and "finite S" and "card S < len"
    and "set sq \<union> pick ` set draws \<subseteq> S"
  shows "uniqueLoop pick len used sq draws = None"
proof (rule ccontr)
  assume "uniqueLoop pick len used sq draws \<noteq> None"
  then obtain r where r: "uniqueLoop pick len used sq draws = Some r" by auto
  from uniqueLoop_result [OF r assms(1) assms(2)]
  have d: "distinct r" and s: "set r \<subseteq> set sq \<union> pick ` set draws"
    and l: "length sq \<le> len \<longrightarrow> length r = len" by auto
  from assms(2) have "length sq = card (set sq)" by (simp add: distinct_card)
  also from assms(5) have "set sq \<subseteq> S" by blast
  with assms(3) have "card (set sq) \<le> card S" by (rule card_mono)
  finally have "length sq \<le> len" using assms(4) by simp
  with l have "length r = len" by simp
  moreover from d have "length r = card (set r)" by (simp add: distinct_card)
  moreover from s assms(5) have "set r \<subseteq> S" by blast
  with assms(3) have "card (set r) \<le> card S" by (rule card_mono)
  ultimately show False using assms(4) by simp
qed

lemma uniqueLoop_fresh_draws:
  assumes "distinct av" and "len \<le> length av" and "k \<le> len"
  shows "uniqueLoop (\<lambda>d. av ! d) len (set (take k av)) (take k av) [k..<len] = Some (take len av)"
  using assms
proof (induction "len - k" arbitrary: k)
  case 0
  then show ?case by simp
next
  case (Suc n)
  then have k: "k < len" "k < length av" by simp_all
  then have up: "[k..<len] = k # [Suc k..<len]" by (simp add: upt_conv_Cons)
  from k Suc.prems(1) have fresh: "av ! k \<notin> set (take k av)"
    by (auto simp add: in_set_conv_nth distinct_conv_nth)
  from k have t: "take (Suc k) av = take k av @ [av ! k]" by (simp add: take_Suc_conv_app_nth)
  from Suc.hyps(2) have n: "n = len - Suc k" by simp
  from k have "Suc k \<le> len" by simp
  from Suc.hyps(1) [OF n Suc.prems(1) Suc.prems(2) this]
  have "uniqueLoop (\<lambda>d. av ! d) len (set (take (Suc k) av)) (take (Suc k) av) [Suc k..<len]
          = Some (take len av)" .
  with k fresh show ?case by (simp add: up t Let_def)
qed

lemma uniqueLoop_same_draw:
  assumes "2 \<le> len"
  shows "uniqueLoop pick len {pick d} [pick d] (replicate n d) = None"
  using assms by (induction n) simp_all

lemma uniqueLoop_same_draw_start:
  assumes "2 \<le> len"
  shows "uniqueLoop pick len {} [] (replicate n d) = None"
proof (cases n)
  case 0
  with assms show ?thesis by simp
next
  case (Suc m)
  with assms uniqueLoop_same_draw [OF assms, of pick d m] show ?thesis by (simp add: Let_def)
qed

lemma regionFilter_central:
  "regionFilter (Some Central) =
     [33, 34, 35, 36, 43, 44, 45, 46, 53, 54, 55, 56, 63, 64, 65, 66]"
  by (simp add: regionFilter_def GRID_def upt_rec Let_def)

lemma regionFilter_other:
  "rg \<noteq> Some Central \<Longrightarrow> regionFilter rg = regionFilter (Some Peripheral)"
  by (simp add: regionFilter_def)

lemma regionFilter_peripheral:
  "regionFilter (Some Peripheral) =
     [0..<33] @ [37..<43] @ [47..<53] @ [57..<63] @ [67..<100]"
  by (simp add: regionFilter_def GRID_def upt_rec Let_def)

lemma regionFilter_distinct: "distinct (regionFilter rg)"
proof (cases "rg = Some Central")
  case True
  then show ?thesis by (simp add: regionFilter_central)
next
  case False
  then show ?thesis by (simp add: regionFilter_other regionFilter_peripheral)
qed

lemma regionFilter_length:
  "length (regionFilter rg) = (if rg = Some Central then 16 else 84)"
  by (simp add: regionFilter_other regionFilter_peripheral regionFilter_central)

lemma uniqueLoop_cong:
  "(\<And>d. d \<in> set draws \<Longrightarrow> pick d = pick' d) \<Longrightarrow>
     uniqueLoop pick len used sq draws = uniqueLoop pick' len used sq draws"
  by (induction draws arbitrary: used sq) (simp_all add: Let_def)

lemma randSeq_too_long:
  assumes "length (regionFilter rg) < len" and "\<forall>d \<in> set draws. d < length (regionFilter rg)"
  shows "randSeq len rg draws = None"
proof -
  let ?av = "regionFilter rg"
  have c: "card (set ?av) < len"
    using assms(1) regionFilter_distinct [of rg] by (simp add: distinct_card)
  have "set [] \<union> (\<lambda>d. ?av ! d) ` set draws \<subseteq> set ?av"
    using assms(2) by auto
  with c have "uniqueLoop (\<lambda>d. ?av ! d) len {} [] draws = None"
    by (intro uniqueLoop_too_long [where S = "set ?av"]) simp_all
  then show ?thesis by (simp add: randSeq_def)
qed

lemma randUniqueSeq_too_long:
  assumes "CELLS < len" and "\<forall>d \<in> set draws. d < CELLS"
  shows "randUniqueSeq len draws = None"
proof -
  have "set [] \<union> (\<lambda>d. d) ` set draws \<subseteq> {0..<CELLS}"
    using assms(2) by auto
  with assms(1) have "uniqueLoop (\<lambda>d. d) len {} [] draws = None"
    by (intro uniqueLoop_too_long [where S = "{0..<CELLS}"]) simp_all
  then show ?thesis by (simp add: randUniqueSeq_def)
qed

lemma randSeq_result:
  assumes "randSeq len rg draws = Some sq" and "\<forall>d \<in> set draws. d < length (regionFilter rg)"
  shows "length sq = len \<and> distinct sq \<and> set sq \<subseteq> set (regionFilter rg)"
proof -
  let ?av = "regionFilter rg"
  from assms(1) have "uniqueLoop (\<lambda>d. ?av ! d) len {} [] draws = Some sq"
    by (simp add: randSeq_def)
  from uniqueLoop_result [OF this] have "distinct sq" "length sq = len"
    "set sq \<subseteq> (\<lambda>d. ?av ! d) ` set draws" by simp_all
  moreover have "(\<lambda>d. ?av ! d) ` set draws \<subseteq> set ?av" using assms(2) by auto
  ultimately show ?thesis by blast
qed

lemma randUniqueSeq_result:
  assumes "randUniqueSeq len draws = Some sq" and "\<forall>d \<in> set draws. d < CELLS"
  shows "length sq = len \<and> distinct sq \<and> (\<forall>c \<in> set sq. c < CELLS)"
proof -
  from assms(1) have "uniqueLoop (\<lambda>d. d) len {} [] draws = Some sq"
    by (simp add: randUniqueSeq_def)
  from uniqueLoop_result [OF this] have "distinct sq" "length sq = len"
    "set sq \<subseteq> (\<lambda>d. d) ` set draws" by simp_all
  with assms(2) show ?thesis by auto
qed

lemma randSeq_fresh:
  assumes "len \<le> length (regionFilter rg)"
  shows "randSeq len rg [0..<len] = Some (take len (regionFilter rg))"
  using uniqueLoop_fresh_draws [OF regionFilter_distinct assms, of 0]
  by (simp add: randSeq_def)

lemma randUniqueSeq_fresh: "randUniqueSeq len [0..<len] = Some [0..<len]"
proof -
  have "uniqueLoop (\<lambda>d. [0..<len] ! d) len (set (take 0 [0..<len])) (take 0 [0..<len]) [0..<len]
      = Some (take len [0..<len])"
    by (rule uniqueLoop_fresh_draws) simp_all
  moreover have "uniqueLoop (\<lambda>d. d) len {} [] [0..<len]
      = uniqueLoop (\<lambda>d. [0..<len] ! d) len {} [] [0..<len]"
    by (rule uniqueLoop_cong) simp
  ultimately show ?thesis by (simp add: randUniqueSeq_def)
qed

lemma randSeq_same_draw: "2 \<le> len \<Longrightarrow> randSeq len rg (replicate n d) = None"
  by (simp add: randSeq_def uniqueLoop_same_draw_start)

lemma randUniqueSeq_same_draw: "2 \<le> len \<Longrightarrow> randUniqueSeq len (replicate n d) = None"
  by (simp add: randUniqueSeq_def uniqueLoop_same_draw_start)

lemma uniqueLoop_returns:
  assumes "used = set sq" and "distinct sq" and "len \<le> card (set sq \<union> pick ` set draws)"
  shows "\<exists>r. uniqueLoop pick len used sq draws = Some r"
  using assms
proof (induction draws arbitrary: used sq)
  case Nil
  then have "len \<le> length sq" by (simp add: distinct_card)
  then show ?case by simp
next
  case (Cons d ds)
  show ?case
  proof (cases "length sq < len")
    case False
    then show ?thesis by simp
  next
    case True
    show ?thesis
    proof (cases "pick d \<in> used")
      case True
      with Cons.prems(1) have "set sq \<union> pick ` set (d # ds) = set sq \<union> pick ` set ds"
        by auto
      with Cons.prems(3) have "len \<le> card (set sq \<union> pick ` set ds)" by simp
      from Cons.IH [OF Cons.prems(1) Cons.prems(2) this] True \<open>length sq < len\<close>
      show ?thesis by (simp add: Let_def)
    next
      case False
      with Cons.prems have u: "insert (pick d) used = set (sq @ [pick d])"
        and di: "distinct (sq @ [pick d])" by auto
      have "set (sq @ [pick d]) \<union> pick ` set ds = set sq \<union> pick ` set (d # ds)" by auto
      with Cons.prems(3) have "len \<le> card (set (sq @ [pick d]) \<union> pick ` set ds)" by simp
      from Cons.IH [OF u di this] False \<open>length sq < len\<close>
      show ?thesis by (simp add: Let_def)
    qed
  qed
qed

lemma uniqueLoop_returns_iff:
  "(\<exists>r. uniqueLoop pick len {} [] draws = Some r) \<longleftrightarrow> len \<le> card (pick ` set draws)"
proof
  assume "\<exists>r. uniqueLoop pick len {} [] draws = Some r"
  then obtain r where r: "uniqueLoop pick len {} [] draws = Some r" by blast
  from uniqueLoop_result [OF r] have "distinct r" "length r = len" "set r \<subseteq> pick ` set draws"
    by simp_all
  then have "len = card (set r)" by (simp add: distinct_card)
  also from \<open>set r \<subseteq> pick ` set draws\<close> have "\<dots> \<le> card (pick ` set draws)"
    by (intro card_mono) simp_all
  finally show "len \<le> card (pick ` set draws)" .
next
  assume "len \<le> card (pick ` set draws)"
  then show "\<exists>r. uniqueLoop pick len {} [] draws = Some r"
    by (intro uniqueLoop_returns) simp_all
qed

lemma randSeq_returns_iff:
  "(\<exists>sq. randSeq len rg draws = Some sq) \<longleftrightarrow>
     len \<le> card ((\<lambda>d. regionFilter rg ! d) ` set draws)"
  by (simp add: randSeq_def uniqueLoop_returns_iff)

lemma randUniqueSeq_returns_iff:
  "(\<exists>sq. randUniqueSeq len draws = Some sq) \<longleftrightarrow> len \<le> card (set draws)"
  using uniqueLoop_returns_iff [of "\<lambda>d. d" len draws] by (simp add: randUniqueSeq_def)

lemma uniqueLoop_first_seen:
  assumes "used = set sq" and "length sq \<le> len"
  shows "uniqueLoop pick len used sq draws =
     (if len \<le> length (sq @ first_seen sq (map pick draws))
      then Some (take len (sq @ first_seen sq (map pick draws))) else None)"
  using assms
proof (induction draws arbitrary: used sq)
  case Nil
  then show ?case by auto
next
  case (Cons d ds)
  show ?case
  proof (cases "length sq < len")
    case False
    with Cons.prems show ?thesis by simp
  next
    case True
    show ?thesis
    proof (cases "pick d \<in> used")
      case True
      with Cons.IH [OF Cons.prems] Cons.prems(1) \<open>length sq < len\<close>
      show ?thesis by (simp add: Let_def)
    next
      case False
      with Cons.prems have u: "insert (pick d) used = set (sq @ [pick d])" by simp
      from True have l: "length (sq @ [pick d]) \<le> len" by simp
      from Cons.IH [OF u l] False Cons.prems(1) \<open>length sq < len\<close>
      show ?thesis by (simp add: Let_def)
    qed
  qed
qed

lemma randSeq_first_seen:
  "randSeq len rg draws =
     (if len \<le> length (first_seen [] (map (\<lambda>d. regionFilter rg ! d) draws))
      then Some (take len (first_seen [] (map (\<lambda>d. regionFilter rg ! d) draws))) else None)"
  using uniqueLoop_first_seen [of "{}" "[]" len "\<lambda>d. regionFilter rg ! d" draws]
  by (simp add: randSeq_def)

lemma randUniqueSeq_first_seen:
  "randUniqueSeq len draws =
     (if len \<le> length (first_seen [] draws) then Some (take len (first_seen [] draws)) else None)"
  using uniqueLoop_first_seen [of "{}" "[]" len "\<lambda>d. d" draws]
  by (simp add: randUniqueSeq_def)

text \<open>
  C7 as the code has it. Neither generator checks the requested length and neither
  raises. The generator returns exactly when the draws hit at least as many different
  cells as asked for, and then it returns the first len different cells in the order
  in which they were drawn: the requested number of cells, no cell twice, only cells of
  the region. So it returns as soon as the draws have hit len different cells, however
  many repeated draws lie between them, and it does not return while they have not.
  When the length exceeds the number of cells to draw from (16 central, 84 peripheral,
  100 for randUniqueSeq), the loop never returns, whatever the draws and however many.
  For a length within the region the draws 0, 1, ..., len - 1 give the first len cells
  of the region, and the loop never returns when the same draw keeps coming and two or
  more cells are asked for.
\<close>

theorem sequence_generation:
  "((\<exists>sq. randSeq len rg draws = Some sq) \<longleftrightarrow>
      len \<le> card ((\<lambda>d. regionFilter rg ! d) ` set draws))
   \<and> ((\<exists>sq. randUniqueSeq len draws = Some sq) \<longleftrightarrow> len \<le> card (set draws))
   \<and> randSeq len rg draws =
       (if len \<le> length (first_seen [] (map (\<lambda>d. regionFilter rg ! d) draws))
        then Some (take len (first_seen [] (map (\<lambda>d. regionFilter rg ! d) draws)))
        else None)
   \<and> randUniqueSeq len draws =
       (if len \<le> length (first_seen [] draws)
        then Some (take len (first_seen [] draws)) else None)
   \<and> (length (regionFilter rg) < len \<and> (\<forall>d \<in> set draws. d < length (regionFilter rg)) \<longrightarrow>
      randSeq len rg draws = None)
   \<and> (CELLS < len \<and> (\<forall>d \<in> set draws. d < CELLS) \<longrightarrow> randUniqueSeq len draws = None)
   \<and> (randSeq len rg draws = Some sq \<and> (\<forall>d \<in> set draws. d < length (regionFilter rg)) \<longrightarrow>
      length sq = len \<and> distinct sq \<and> set sq \<subseteq> set (regionFilter rg))
   \<and> (randUniqueSeq len draws = Some sq \<and> (\<forall>d \<in> set draws. d < CELLS) \<longrightarrow>
      length sq = len \<and> distinct sq \<and> (\<forall>c \<in> set sq. c < CELLS))
   \<and> (len \<le> length (regionFilter rg) \<longrightarrow>
      randSeq len rg [0..<len] = Some (take len (regionFilter rg)))
   \<and> (len \<le> CELLS \<longrightarrow> randUniqueSeq len [0..<len] = Some [0..<len])
   \<and> (2 \<le> len \<longrightarrow>
      randSeq len rg (replicate n d) = None \<and> randUniqueSeq len (replicate n d) = None)
   \<and> length (regionFilter rg) = (if rg = Some Central then 16 else 84)
   \<and> CELLS = 100"
proof -
  have A: "length (regionFilter rg) < len \<and> (\<forall>d \<in> set draws. d < length (regionFilter rg)) \<longrightarrow>
      randSeq len rg draws = None"
    using randSeq_too_long [of rg len draws] by blast
  have B: "CELLS < len \<and> (\<forall>d \<in> set draws. d < CELLS) \<longrightarrow> randUniqueSeq len draws = None"
    using randUniqueSeq_too_long [of len draws] by blast
  have C: "randSeq len rg draws = Some sq \<and> (\<forall>d \<in> set draws. d < length (regionFilter rg)) \<longrightarrow>
      length sq = len \<and> distinct sq \<and> set sq \<subseteq> set (regionFilter rg)"
    using randSeq_result [of len rg draws sq] by blast
  have D: "randUniqueSeq len draws = Some sq \<and> (\<forall>d \<in> set draws. d < CELLS) \<longrightarrow>
      length sq = len \<and> distinct sq \<and> (\<forall>c \<in> set sq. c < CELLS)"
    using randUniqueSeq_result [of len draws sq] by blast
  have E: "len \<le> length (regionFilter rg) \<longrightarrow>
      randSeq len rg [0..<len] = Some (take len (regionFilter rg))"
    using randSeq_fresh [of len rg] by blast
  have F: "len \<le> CELLS \<longrightarrow> randUniqueSeq len [0..<len] = Some [0..<len]"
    using randUniqueSeq_fresh [of len] by blast
  have G: "2 \<le> len \<longrightarrow>
      randSeq len rg (replicate n d) = None \<and> randUniqueSeq len (replicate n d) = None"
    using randSeq_same_draw [of len rg n d] randUniqueSeq_same_draw [of len n d] by blast
  note H = regionFilter_length [of rg]
  have I: "CELLS = 100" by (simp add: CELLS_def GRID_def)
  note R1 = randSeq_returns_iff [of len rg draws]
    and R2 = randUniqueSeq_returns_iff [of len draws]
    and R3 = randSeq_first_seen [of len rg draws]
    and R4 = randUniqueSeq_first_seen [of len draws]
  show ?thesis
    by (intro conjI) (rule R1 R2 R3 R4 A B C D E F G H I)+
qed

text \<open>
  C7 fails as stated. The central region has 16 cells. Asked for 17 central cells, and
  given draws that hit all 16 and then four more, randSeq has not returned and has
  raised nothing; the loop has no exit left. Asked for 2 central cells, which the region
  has, and given the same draw a thousand times, it has not returned either.
\<close>

theorem overlong_sequence_never_returns:
  "length (regionFilter (Some Central)) = 16
   \<and> randSeq 17 (Some Central)
        [0, 1, 2, 3, 4, 5, 6, 7, 8, 9, 10, 11, 12, 13, 14, 15, 0, 1, 2, 3] = None
   \<and> randUniqueSeq 101 [0, 1, 2, 3, 4, 5, 6, 7, 8, 9, 99, 98, 0, 1] = None
   \<and> randSeq 2 (Some Central) (replicate 1000 5) = None"
proof -
  have l: "length (regionFilter (Some Central)) = 16" by (simp add: regionFilter_length)
  have a: "randSeq 17 (Some Central)
        [0, 1, 2, 3, 4, 5, 6, 7, 8, 9, 10, 11, 12, 13, 14, 15, 0, 1, 2, 3] = None"
    by (rule randSeq_too_long) (simp_all add: l)
  have b: "randUniqueSeq 101 [0, 1, 2, 3, 4, 5, 6, 7, 8, 9, 99, 98, 0, 1] = None"
    by (rule randUniqueSeq_too_long) (simp_all add: CELLS_def GRID_def)
  have c: "randSeq 2 (Some Central) (replicate 1000 5) = None"
    by (rule randSeq_same_draw) simp
  from l a b c show ?thesis by blast
qed

lemma randSeq_example: "randSeq 3 (Some Central) [0, 0, 5, 2] = Some [33, 44, 35]"
  by (simp add: randSeq_def regionFilter_central)

lemma randUniqueSeq_example: "randUniqueSeq 3 [4, 17, 17, 82] = Some [4, 17, 82]"
  by (simp add: randUniqueSeq_def)

text \<open>
  C7 at the central region: 17 cells asked for, 3 cells asked for with a repeated draw,
  and the same for randUniqueSeq with 101 and 3 cells.
\<close>

theorem sequence_generation_witness:
  "length (regionFilter (Some Central)) < 17
   \<and> list_all (\<lambda>d. d < length (regionFilter (Some Central))) [0, 15, 7, 7]
   \<and> randSeq 17 (Some Central) [0, 15, 7, 7] = None
   \<and> CELLS < 101 \<and> list_all (\<lambda>d. d < CELLS) [4, 17, 17, 82]
   \<and> randUniqueSeq 101 [4, 17, 17, 82] = None
   \<and> list_all (\<lambda>d. d < length (regionFilter (Some Central))) [0, 0, 5, 2]
   \<and> randSeq 3 (Some Central) [0, 0, 5, 2] = Some [33, 44, 35]
   \<and> length [33, 44, 35 :: nat] = 3 \<and> distinct [33, 44, 35 :: nat]
   \<and> set [33, 44, 35] \<subseteq> set (regionFilter (Some Central))
   \<and> randUniqueSeq 3 [4, 17, 17, 82] = Some [4, 17, 82]
   \<and> list_all (\<lambda>c. c < CELLS) [4, 17, 82]
   \<and> 3 \<le> length (regionFilter (Some Central))
   \<and> randSeq 3 (Some Central) [0..<3] = Some [33, 34, 35]
   \<and> 3 \<le> CELLS \<and> randUniqueSeq 3 [0..<3] = Some [0, 1, 2]
   \<and> (2::nat) \<le> 3 \<and> randSeq 3 (Some Central) (replicate 40 7) = None"
proof -
  let ?c = "Some Central"
  have l: "length (regionFilter ?c) = 16" by (simp add: regionFilter_length)
  have c: "CELLS = 100" by (simp add: CELLS_def GRID_def)
  have d1: "\<forall>d \<in> set [0, 15, 7, 7]. d < length (regionFilter ?c)" by (simp add: l)
  have d2: "\<forall>d \<in> set [4, 17, 17, 82]. d < CELLS" by (simp add: c)
  have d3: "\<forall>d \<in> set [0, 0, 5, 2]. d < length (regionFilter ?c)" by (simp add: l)
  note A = sequence_generation [where rg = ?c and len = 17 and draws = "[0, 15, 7, 7]"]
  note B = sequence_generation [where rg = ?c and len = 101 and draws = "[4, 17, 17, 82]"]
  note C = sequence_generation [where rg = ?c and len = 3 and draws = "[0, 0, 5, 2]"
      and sq = "[33, 44, 35]" and n = 40 and d = 7]
  note D = sequence_generation [where rg = ?c and len = 3 and draws = "[4, 17, 17, 82]"
      and sq = "[4, 17, 82]"]
  from A [THEN conjunct2, THEN conjunct2, THEN conjunct2, THEN conjunct2, THEN conjunct1] l d1 have 1: "randSeq 17 ?c [0, 15, 7, 7] = None" by simp
  from B [THEN conjunct2, THEN conjunct2, THEN conjunct2, THEN conjunct2, THEN conjunct2, THEN conjunct1] c d2 have 2: "randUniqueSeq 101 [4, 17, 17, 82] = None" by simp
  from C [THEN conjunct2, THEN conjunct2, THEN conjunct2, THEN conjunct2, THEN conjunct2, THEN conjunct2, THEN conjunct1] randSeq_example d3
  have 3: "length [33, 44, 35 :: nat] = 3 \<and> distinct [33, 44, 35 :: nat]
      \<and> set [33, 44, 35] \<subseteq> set (regionFilter ?c)" by blast
  from D [THEN conjunct2, THEN conjunct2, THEN conjunct2, THEN conjunct2, THEN conjunct2, THEN conjunct2, THEN conjunct2, THEN conjunct1] randUniqueSeq_example d2
  have 4: "\<forall>c \<in> set [4, 17, 82]. c < CELLS" by blast
  from C [THEN conjunct2, THEN conjunct2, THEN conjunct2, THEN conjunct2, THEN conjunct2, THEN conjunct2, THEN conjunct2, THEN conjunct2, THEN conjunct1] l have "randSeq 3 ?c [0..<3] = Some (take 3 (regionFilter ?c))" by simp
  then have 5: "randSeq 3 ?c [0..<3] = Some [33, 34, 35]" by (simp add: regionFilter_central)
  from C [THEN conjunct2, THEN conjunct2, THEN conjunct2, THEN conjunct2, THEN conjunct2, THEN conjunct2, THEN conjunct2, THEN conjunct2, THEN conjunct2, THEN conjunct1] c have "randUniqueSeq 3 [0..<3] = Some [0..<3]" by simp
  then have 6: "randUniqueSeq 3 [0..<3] = Some [0, 1, 2]" by (simp add: upt_rec)
  from C [THEN conjunct2, THEN conjunct2, THEN conjunct2, THEN conjunct2, THEN conjunct2, THEN conjunct2, THEN conjunct2, THEN conjunct2, THEN conjunct2, THEN conjunct2, THEN conjunct1] have 7: "randSeq 3 ?c (replicate 40 7) = None" by simp
  have 8: "list_all (\<lambda>d. d < length (regionFilter ?c)) [0, 15, 7, 7]"
    "list_all (\<lambda>d. d < CELLS) [4, 17, 17, 82]"
    "list_all (\<lambda>d. d < length (regionFilter ?c)) [0, 0, 5, 2]"
    "list_all (\<lambda>c. c < CELLS) [4, 17, 82]"
    by (simp_all add: l c)
  have 9: "length (regionFilter ?c) < 17" "CELLS < 101" "3 \<le> length (regionFilter ?c)"
    "3 \<le> CELLS" "(2::nat) \<le> 3"
    by (simp_all add: l c)
  show ?thesis
    by (intro conjI) (rule 1 2 3 [THEN conjunct1] 3 [THEN conjunct2, THEN conjunct1]
        3 [THEN conjunct2, THEN conjunct2] 5 6 7 8 9 randSeq_example randUniqueSeq_example)+
qed

subsection \<open>Matching an ordered sequence\<close>

text \<open>
  presentSequence of SpamperceptionBlocks puts the replay position back to 0 for every
  trial. In CentralPeripheralSpanTask no handler does: start, startTrial, presentSeq and
  finishTrial all leave \<open>replayPos\<close> as it is, and onCellClick only ever adds one.
\<close>

lemma sp_presentSequence_replayPos: "sp_replayPos (sp_presentSequence s arr) = 0"
  by (simp add: sp_presentSequence_def Let_def split: prod.splits)

lemma sp_startTrial_replayPos: "sp_startTrial s len draws = Some s' \<Longrightarrow> sp_replayPos s' = 0"
  by (auto simp add: sp_startTrial_def sp_presentSequence_replayPos split: option.splits)

lemma cp_presentSeq_replayPos: "cp_replayPos (cp_presentSeq st arr) = cp_replayPos st"
  by (simp add: cp_presentSeq_def split: prod.splits)

lemma cp_startTrial_replayPos:
  "cp_startTrial st len draws = Some st' \<Longrightarrow> cp_replayPos st' = cp_replayPos st"
  by (auto simp add: cp_startTrial_def cp_presentSeq_replayPos split: option.splits)

lemma cp_finishTrial_replayPos: "cp_replayPos (cp_finishTrial st ok) = cp_replayPos st"
  by (simp add: cp_finishTrial_def Let_def split: option.splits)

lemma cp_start_replayPos: "cp_replayPos (cp_start st) = cp_replayPos st"
  by (simp add: cp_start_def)

lemma cp_onCellClick_replayPos:
  "cp_replayPos (cp_onCellClick st i) = cp_replayPos st \<or>
   cp_replayPos (cp_onCellClick st i) = cp_replayPos st + 1"
  by (simp add: cp_onCellClick_def Let_def cp_finishTrial_replayPos)

text \<open>One click in the respond phase, in both span tasks.\<close>

lemma cp_click_log:
  "cp_phase st = Respond \<Longrightarrow>
     cp_logs (cp_onCellClick st i) = cp_logs st @
       [\<lparr>cl_i = i, cl_correct = (seq_at (cp_seq st) (cp_replayPos st) = Some i),
         cl_block = BLOCKS_at (cp_blockIdx st), cl_pos = cp_replayPos st\<rparr>]"
  by (simp add: cp_onCellClick_def Let_def cp_finishTrial_def split: option.splits)

lemma cp_click_advance:
  "cp_phase st = Respond \<Longrightarrow> seq_at (cp_seq st) (cp_replayPos st) = Some i \<Longrightarrow>
   cp_replayPos st + 1 < length (cp_seq st) \<Longrightarrow>
     cp_replayPos (cp_onCellClick st i) = cp_replayPos st + 1 \<and>
     cp_phase (cp_onCellClick st i) = Respond \<and> cp_seq (cp_onCellClick st i) = cp_seq st"
  by (simp add: cp_onCellClick_def Let_def)

lemma cp_finishTrial_phase: "cp_phase (cp_finishTrial st ok) \<noteq> Respond"
  by (simp add: cp_finishTrial_def Let_def split: option.splits)

lemma cp_click_wrong:
  "cp_phase st = Respond \<Longrightarrow> seq_at (cp_seq st) (cp_replayPos st) \<noteq> Some i \<Longrightarrow>
     cp_phase (cp_onCellClick st i) \<noteq> Respond \<and>
     cp_onCellClick (cp_onCellClick st i) j = cp_onCellClick st i"
  by (simp add: cp_onCellClick_def Let_def cp_finishTrial_phase)

lemma sp_click_advance:
  "sp_phase s = Respond \<Longrightarrow> seq_at (sp_seq s) (sp_replayPos s) = Some c \<Longrightarrow>
   sp_replayPos s + 1 < length (sp_seq s) \<Longrightarrow>
     \<exists>s'. sp_onCellClick s p c draws = Some s' \<and> sp_replayPos s' = sp_replayPos s + 1 \<and>
          sp_phase s' = Respond \<and> sp_seq s' = sp_seq s"
  by (simp add: sp_onCellClick_def Let_def)

lemma sp_finishTrial_phase: "sp_finishTrial s ok draws = Some s' \<Longrightarrow> sp_phase s' \<noteq> Respond"
  by (auto simp add: sp_finishTrial_def sp_startTrial_def sp_presentSequence_def Let_def
      split: if_splits option.splits prod.splits)

lemma sp_click_wrong:
  assumes "sp_phase s = Respond" and "seq_at (sp_seq s) (sp_replayPos s) \<noteq> Some c"
    and "sp_onCellClick s p c draws = Some s'"
  shows "sp_phase s' \<noteq> Respond \<and> sp_onCellClick s' p' c' draws' = Some s'"
proof -
  from assms obtain s1 where "sp_finishTrial s1 False draws = Some s'"
    by (simp add: sp_onCellClick_def Let_def)
  then have "sp_phase s' \<noteq> Respond" by (rule sp_finishTrial_phase)
  then show ?thesis by (simp add: sp_onCellClick_def)
qed

lemma cp_after_first_fields:
  "cp_running cp_after_first" "cp_phase cp_after_first = Between"
  "cp_replayPos cp_after_first = 2" "cp_seqLen cp_after_first = 4"
  "cp_blockIdx cp_after_first = 0" "cp_trialIdx cp_after_first = 1"
  "cp_spanMax cp_after_first Central = 3"
  "cp_logs cp_after_first =
     [\<lparr>cl_i = 4, cl_correct = True, cl_block = Some Central, cl_pos = 0\<rparr>,
      \<lparr>cl_i = 17, cl_correct = True, cl_block = Some Central, cl_pos = 1\<rparr>,
      \<lparr>cl_i = 82, cl_correct = True, cl_block = Some Central, cl_pos = 2\<rparr>]"
  "cp_timeouts cp_after_first = [(500, CpStartTrial 3), (600, CpStartTrial 4)]"
  by (simp_all add: cp_after_first_def cp_onCellClick_def cp_finishTrial_def cp_nextLen_def
      cp_trial_4_17_82_def cp_presentSeq_def cp_start_def cp_init_def seq_at_def
      BLOCKS_at_def BLOCKS_def SEQS_PER_BLOCK_def START_LEN_def MIN_LEN_def MAX_LEN_def
      Let_def split: prod.splits)

lemma cp_second_ex:
  "\<exists>st. cp_second = Some st \<and> cp_phase st = Respond \<and> cp_seq st = [33, 34, 35, 36]
     \<and> cp_replayPos st = 2 \<and> cp_seqLen st = 4 \<and> cp_blockIdx st = 0 \<and> cp_trialIdx st = 1
     \<and> cp_logs st = cp_logs cp_after_first"
  by (simp add: cp_second_def cp_startTrial_def randSeq_def regionFilter_central
      cp_presentSeq_def cp_after_first_fields BLOCKS_at_def BLOCKS_def split: prod.splits)

text \<open>
  C2 on CentralPeripheralSpanTask. The first trial presents 4, 17, 82 and is answered
  4, 17, 82: three correct log entries, the span of the block becomes 3, the next length
  is 4, and the replay position is left at 2. The second trial presents 33, 34, 35, 36.
  Its first response, 33, is the first element of the sequence; the handler compares it
  with the element at the stale position 2, logs it as incorrect at position 2, and ends
  the trial as incorrect (next length 3, phase between). SpamperceptionBlocks, given the
  same clicks and the same second sequence, starts the second trial at position 0.
\<close>

theorem stale_replay_position:
  "cp_replayPos cp_trial_4_17_82 = 0
   \<and> map cl_correct (cp_logs cp_after_first) = [True, True, True]
   \<and> cp_spanMax cp_after_first Central = 3
   \<and> cp_seqLen cp_after_first = 4
   \<and> cp_replayPos cp_after_first = 2
   \<and> (\<exists>st. cp_second = Some st \<and> cp_phase st = Respond \<and> cp_seq st = [33, 34, 35, 36]
         \<and> cp_replayPos st = 2
         \<and> cp_logs (cp_onCellClick st 33) = cp_logs st @
              [\<lparr>cl_i = 33, cl_correct = False, cl_block = Some Central, cl_pos = 2\<rparr>]
         \<and> cp_phase (cp_onCellClick st 33) = Between
         \<and> cp_seqLen (cp_onCellClick st 33) = 3)
   \<and> (\<exists>s'. sp_clicks sp_trial_4_17_82
               [(5400, 4, []), (5900, 17, []), (6300, 82, [33, 34, 35, 36])] = Some s'
         \<and> sp_seq s' = [33, 34, 35, 36] \<and> sp_replayPos s' = 0
         \<and> trials (sp_stats s' digits) = [\<lparr>tr_len = 3, tr_ok = True\<rparr>])"
proof -
  obtain st where st: "cp_second = Some st" "cp_phase st = Respond"
      "cp_seq st = [33, 34, 35, 36]" "cp_replayPos st = 2" "cp_seqLen st = 4"
      "cp_blockIdx st = 0" "cp_trialIdx st = 1"
    using cp_second_ex by blast
  have l: "cp_logs (cp_onCellClick st 33) = cp_logs st @
              [\<lparr>cl_i = 33, cl_correct = False, cl_block = Some Central, cl_pos = 2\<rparr>]"
    using st by (simp add: cp_click_log seq_at_def BLOCKS_at_def BLOCKS_def)
  have p: "cp_phase (cp_onCellClick st 33) = Between \<and> cp_seqLen (cp_onCellClick st 33) = 3"
    using st
    by (simp add: cp_onCellClick_def cp_finishTrial_def cp_nextLen_def seq_at_def Let_def
        BLOCKS_at_def BLOCKS_def SEQS_PER_BLOCK_def MIN_LEN_def MAX_LEN_def)
  from st l p have A: "\<exists>st. cp_second = Some st \<and> cp_phase st = Respond
         \<and> cp_seq st = [33, 34, 35, 36] \<and> cp_replayPos st = 2
         \<and> cp_logs (cp_onCellClick st 33) = cp_logs st @
              [\<lparr>cl_i = 33, cl_correct = False, cl_block = Some Central, cl_pos = 2\<rparr>]
         \<and> cp_phase (cp_onCellClick st 33) = Between
         \<and> cp_seqLen (cp_onCellClick st 33) = 3"
    by blast
  have B: "\<exists>s'. sp_clicks sp_trial_4_17_82
               [(5400, 4, []), (5900, 17, []), (6300, 82, [33, 34, 35, 36])] = Some s'
         \<and> sp_seq s' = [33, 34, 35, 36] \<and> sp_replayPos s' = 0
         \<and> trials (sp_stats s' digits) = [\<lparr>tr_len = 3, tr_ok = True\<rparr>]"
    by (simp add: sp_onCellClick_def sp_finishTrial_def sp_startTrial_def randUniqueSeq_def
        sp_presentSequence_def sp_trial_fields seq_at_def clamp_def emptyStats_def
        SEQS_PER_BLOCK_def MIN_LEN_def MAX_LEN_def Let_def split: prod.splits)
  have C: "cp_replayPos cp_trial_4_17_82 = 0" by (simp add: cp_trial_fields)
  have D: "map cl_correct (cp_logs cp_after_first) = [True, True, True]"
    by (simp add: cp_after_first_fields)
  note E = cp_after_first_fields(7) cp_after_first_fields(4) cp_after_first_fields(3)
  show ?thesis
    by (intro conjI) (rule A B C D E)+
qed

text \<open>
  The first trial of either task, where the replay position is 0: after 4 the response
  99 is logged as incorrect at position 1, the trial ends as incorrect, and a further
  click is not consumed.
\<close>

lemma first_trial_incorrect_at_1:
  "cp_logs (cp_onCellClick (cp_onCellClick cp_trial_4_17_82 4) 99) =
     [\<lparr>cl_i = 4, cl_correct = True, cl_block = Some Central, cl_pos = 0\<rparr>,
      \<lparr>cl_i = 99, cl_correct = False, cl_block = Some Central, cl_pos = 1\<rparr>]
   \<and> cp_phase (cp_onCellClick (cp_onCellClick cp_trial_4_17_82 4) 99) = Between
   \<and> cp_seqLen (cp_onCellClick (cp_onCellClick cp_trial_4_17_82 4) 99) = 2
   \<and> cp_onCellClick (cp_onCellClick (cp_onCellClick cp_trial_4_17_82 4) 99) 82
       = cp_onCellClick (cp_onCellClick cp_trial_4_17_82 4) 99
   \<and> (\<exists>s'. sp_clicks sp_trial_4_17_82 [(5400, 4, []), (5900, 99, [9, 8])] = Some s'
         \<and> trials (sp_stats s' digits) = [\<lparr>tr_len = 3, tr_ok = False\<rparr>]
         \<and> map lg_correct (sp_trialLog s') = [True, False]
         \<and> map lg_pos (sp_trialLog s') = [0, 1]
         \<and> sp_seqLen s' = 2
         \<and> sp_clicks s' [(6300, 82, [])] = Some s')"
proof -
  let ?st = "cp_onCellClick (cp_onCellClick cp_trial_4_17_82 4) 99"
  have f: "cp_logs ?st =
     [\<lparr>cl_i = 4, cl_correct = True, cl_block = Some Central, cl_pos = 0\<rparr>,
      \<lparr>cl_i = 99, cl_correct = False, cl_block = Some Central, cl_pos = 1\<rparr>]"
    "cp_phase ?st = Between" "cp_seqLen ?st = 2"
    by (simp_all add: cp_onCellClick_def cp_finishTrial_def cp_nextLen_def
      cp_trial_4_17_82_def cp_presentSeq_def cp_start_def cp_init_def seq_at_def
      BLOCKS_at_def BLOCKS_def SEQS_PER_BLOCK_def START_LEN_def MIN_LEN_def MAX_LEN_def
      Let_def split: prod.splits)
  from f(2) have g: "cp_onCellClick ?st 82 = ?st" by (simp add: cp_onCellClick_def)
  have h: "\<exists>s'. sp_clicks sp_trial_4_17_82 [(5400, 4, []), (5900, 99, [9, 8])] = Some s'
         \<and> trials (sp_stats s' digits) = [\<lparr>tr_len = 3, tr_ok = False\<rparr>]
         \<and> map lg_correct (sp_trialLog s') = [True, False]
         \<and> map lg_pos (sp_trialLog s') = [0, 1]
         \<and> sp_seqLen s' = 2
         \<and> sp_clicks s' [(6300, 82, [])] = Some s'"
    by (simp add: sp_onCellClick_def sp_finishTrial_def sp_startTrial_def randUniqueSeq_def
        sp_presentSequence_def sp_trial_fields seq_at_def clamp_def emptyStats_def
        SEQS_PER_BLOCK_def MIN_LEN_def MAX_LEN_def Let_def split: prod.splits)
  show ?thesis
    by (intro conjI) (rule f g h)+
qed

subsection \<open>Span length adjustment across a session\<close>

lemma cp_nextLen_clamp: "cp_nextLen len ok = clamp (len + (if ok then 1 else - 1)) MIN_LEN MAX_LEN"
  by (simp add: cp_nextLen_def clamp_def)

lemma cp_nextLen_range: "2 \<le> cp_nextLen len ok \<and> cp_nextLen len ok \<le> 7"
  by (simp add: cp_nextLen_def MIN_LEN_def MAX_LEN_def)

lemma cp_finishTrial_seqLen_all:
  "cp_seqLen (cp_finishTrial st ok) =
     (if SEQS_PER_BLOCK \<le> cp_trialIdx st + 1 \<and> cp_blockIdx st + 1 < length BLOCKS
      then START_LEN else cp_nextLen (cp_seqLen st) ok)"
  by (simp add: cp_finishTrial_def Let_def split: option.splits)

lemma cp_finishTrial_timeouts_all:
  "cp_timeouts (cp_finishTrial st ok) = cp_timeouts st @
     (if cp_trialIdx st + 1 < SEQS_PER_BLOCK then [(600, CpStartTrial (cp_nextLen (cp_seqLen st) ok))]
      else if cp_blockIdx st + 1 < length BLOCKS then [(800, CpStartTrial START_LEN)]
      else [])"
  by (simp add: cp_finishTrial_def Let_def split: option.splits)

lemma cp_finishTrial_blockIdx:
  "cp_trialIdx st + 1 < SEQS_PER_BLOCK \<Longrightarrow> cp_blockIdx (cp_finishTrial st ok) = cp_blockIdx st"
  by (simp add: cp_finishTrial_def Let_def split: option.splits)

lemma cp_lengths_last_block:
  "length BLOCKS \<le> cp_blockIdx st + 1 \<Longrightarrow> cp_trialIdx st + length oks \<le> SEQS_PER_BLOCK \<Longrightarrow>
     cp_lengths st oks = span_lengths (cp_seqLen st) oks"
proof (induction oks arbitrary: st)
  case Nil
  then show ?case by simp
next
  case (Cons ok oks)
  show ?case
  proof (cases "cp_trialIdx st + 1 < SEQS_PER_BLOCK")
    case True
    with Cons.prems have "length BLOCKS \<le> cp_blockIdx (cp_finishTrial st ok) + 1"
      and "cp_trialIdx (cp_finishTrial st ok) + length oks \<le> SEQS_PER_BLOCK"
      by (simp_all add: cp_finishTrial_blockIdx cp_finishTrial_trialIdx)
    from Cons.IH [OF this] True show ?thesis by (simp add: cp_finishTrial_seqLen)
  next
    case False
    from Cons.prems(2) have "cp_trialIdx st + Suc (length oks) \<le> SEQS_PER_BLOCK" by simp
    with False have "length oks < 1" by arith
    then have "oks = []" by simp
    with Cons.prems False show ?thesis by (simp add: cp_finishTrial_seqLen_all)
  qed
qed

lemma sp_finishTrial_returns_iff:
  "(\<exists>s'. sp_finishTrial s ok draws = Some s') \<longleftrightarrow>
     (SEQS_PER_BLOCK \<le> sp_trialIdx s + 1 \<or>
      nat (cp_nextLen (sp_seqLen s) ok) \<le> card (set draws))"
proof (cases "SEQS_PER_BLOCK \<le> sp_trialIdx s + 1")
  case True
  then show ?thesis by (simp add: sp_finishTrial_def Let_def)
next
  case False
  let ?n = "nat (cp_nextLen (sp_seqLen s) ok)"
  from False have "(\<exists>s'. sp_finishTrial s ok draws = Some s') \<longleftrightarrow>
      (\<exists>sq. randUniqueSeq ?n draws = Some sq)"
    by (auto simp add: sp_finishTrial_def sp_startTrial_def cp_nextLen_clamp Let_def
        split: option.splits)
  with False show ?thesis by (simp add: randUniqueSeq_returns_iff)
qed

lemma sp_finishTrial_next_seq:
  assumes "sp_finishTrial s ok draws = Some s'" and "sp_trialIdx s + 1 < SEQS_PER_BLOCK"
  shows "length (sp_seq s') = nat (cp_nextLen (sp_seqLen s) ok) \<and> distinct (sp_seq s')
       \<and> sp_trialIdx s' = sp_trialIdx s + 1 \<and> sp_phase s' = Present \<and> sp_replayPos s' = 0"
proof -
  let ?n = "nat (cp_nextLen (sp_seqLen s) ok)"
  from assms obtain sq where sq: "randUniqueSeq ?n draws = Some sq" and s': "sp_seq s' = sq"
    "sp_trialIdx s' = sp_trialIdx s + 1" "sp_phase s' = Present" "sp_replayPos s' = 0"
    by (auto simp add: sp_finishTrial_def sp_startTrial_def sp_presentSequence_def
        cp_nextLen_clamp Let_def split: option.splits prod.splits)
  from sq have "uniqueLoop (\<lambda>d. d) ?n {} [] draws = Some sq" by (simp add: randUniqueSeq_def)
  from uniqueLoop_result [OF this] have "length sq = ?n" "distinct sq" by simp_all
  with s' show ?thesis by simp
qed

lemma sp_finishTrial_trialIdx_le:
  "sp_finishTrial s ok draws = Some s' \<Longrightarrow> sp_trialIdx s + 1 < SEQS_PER_BLOCK \<Longrightarrow>
     sp_trialIdx s' = sp_trialIdx s + 1"
  using sp_finishTrial_next_seq by blast

lemma sp_nextBlock_restart:
  assumes "sp_nextBlock s nb draws = Some s'"
  shows "sp_seqLen s' = START_LEN \<and> length (sp_seq s') = nat START_LEN \<and> sp_trialIdx s' = 0
       \<and> sp_blockIdx s' = nb"
proof -
  from assms obtain sq where sq: "randUniqueSeq (nat START_LEN) draws = Some sq"
    and s': "sp_seq s' = sq" "sp_seqLen s' = START_LEN" "sp_trialIdx s' = 0" "sp_blockIdx s' = nb"
    by (auto simp add: sp_nextBlock_def sp_startTrial_def sp_presentSequence_def Let_def
        split: option.splits prod.splits)
  from sq have "uniqueLoop (\<lambda>d. d) (nat START_LEN) {} [] draws = Some sq"
    by (simp add: randUniqueSeq_def)
  from uniqueLoop_result [OF this] have "length sq = nat START_LEN" by simp
  with s' show ?thesis by simp
qed

lemma sp_lengths_span:
  assumes "sp_trialIdx s + length run \<le> SEQS_PER_BLOCK"
    and "\<forall>r \<in> set run. nat MAX_LEN \<le> card (set (snd r))"
  shows "sp_lengths s run = Some (span_lengths (sp_seqLen s) (map fst run))"
  using assms
proof (induction run arbitrary: s)
  case Nil
  then show ?case by simp
next
  case (Cons r run)
  obtain ok draws where r: "r = (ok, draws)" by (cases r)
  from Cons.prems(2) r have c: "nat MAX_LEN \<le> card (set draws)" by simp
  have "nat (cp_nextLen (sp_seqLen s) ok) \<le> nat MAX_LEN"
    using cp_nextLen_range [of "sp_seqLen s" ok] by (simp add: MAX_LEN_def) arith
  with c have "nat (cp_nextLen (sp_seqLen s) ok) \<le> card (set draws)" by simp
  then obtain s' where s': "sp_finishTrial s ok draws = Some s'"
    using sp_finishTrial_returns_iff [of s ok draws] by blast
  from sp_finishTrial_seqLen [OF s'] have l: "sp_seqLen s' = cp_nextLen (sp_seqLen s) ok"
    by (simp add: cp_nextLen_clamp)
  show ?case
  proof (cases "sp_trialIdx s + 1 < SEQS_PER_BLOCK")
    case True
    from sp_finishTrial_trialIdx_le [OF s' True] Cons.prems(1)
    have "sp_trialIdx s' + length run \<le> SEQS_PER_BLOCK" by simp
    moreover from Cons.prems(2) have "\<forall>r \<in> set run. nat MAX_LEN \<le> card (set (snd r))" by simp
    ultimately have "sp_lengths s' run = Some (span_lengths (sp_seqLen s') (map fst run))"
      by (rule Cons.IH)
    with s' l r show ?thesis by simp
  next
    case False
    from Cons.prems(1) have "sp_trialIdx s + Suc (length run) \<le> SEQS_PER_BLOCK" by simp
    with False have "length run < 1" by arith
    then have "run = []" by simp
    with s' l r show ?thesis by simp
  qed
qed

text \<open>
  C4 as the code has it. In both span tasks finishTrial computes the next length as the
  current length plus one after a correct trial and minus one after an incorrect one,
  clamped to 2..7, from nothing but the current length and the outcome; 7 stays 7 after
  a correct trial and 2 stays 2 after an incorrect one. In CentralPeripheralSpanTask
  that is the new \<open>seqLen\<close> and the length of the trial scheduled next, except after the
  last trial of a block that another block follows: there \<open>seqLen\<close> and the scheduled
  trial restart at START_LEN = 3 whatever the outcome (after the last trial of the
  session no trial is scheduled). In SpamperceptionBlocks finishTrial returns exactly
  when it has no trial to start or the draws hit enough different cells; it then leaves
  the clamped length in \<open>seqLen\<close>, inside a block the sequence it has started has that
  length, and the callback that opens the next block restarts at START_LEN. So within a
  block, and up to the end of the session, the lengths follow the clamped update: five
  correct trials from length 3 give 3,4,5,6,7,7 and six incorrect trials from length 7
  give 7,6,5,4,3,2,2.
\<close>

theorem span_length_update:
  "cp_nextLen len ok = clamp_spec (len + (if ok then 1 else - 1)) 2 7
   \<and> clamp (len + (if ok then 1 else - 1)) MIN_LEN MAX_LEN
       = clamp_spec (len + (if ok then 1 else - 1)) 2 7
   \<and> cp_nextLen 7 True = 7 \<and> cp_nextLen 2 False = 2
   \<and> cp_seqLen (cp_finishTrial st ok) =
       (if SEQS_PER_BLOCK \<le> cp_trialIdx st + 1 \<and> cp_blockIdx st + 1 < length BLOCKS
        then START_LEN else clamp_spec (cp_seqLen st + (if ok then 1 else - 1)) 2 7)
   \<and> cp_timeouts (cp_finishTrial st ok) = cp_timeouts st @
       (if cp_trialIdx st + 1 < SEQS_PER_BLOCK
        then [(600, CpStartTrial (clamp_spec (cp_seqLen st + (if ok then 1 else - 1)) 2 7))]
        else if cp_blockIdx st + 1 < length BLOCKS then [(800, CpStartTrial START_LEN)]
        else [])
   \<and> ((\<exists>s'. sp_finishTrial s ok draws = Some s') \<longleftrightarrow>
        (SEQS_PER_BLOCK \<le> sp_trialIdx s + 1 \<or>
         nat (clamp_spec (sp_seqLen s + (if ok then 1 else - 1)) 2 7) \<le> card (set draws)))
   \<and> (sp_finishTrial s ok draws = Some s' \<longrightarrow>
        sp_seqLen s' = clamp_spec (sp_seqLen s + (if ok then 1 else - 1)) 2 7
        \<and> (sp_trialIdx s + 1 < SEQS_PER_BLOCK \<longrightarrow>
             length (sp_seq s') = nat (clamp_spec (sp_seqLen s + (if ok then 1 else - 1)) 2 7)))
   \<and> (sp_nextBlock s nb draws = Some s' \<longrightarrow>
        sp_seqLen s' = START_LEN \<and> length (sp_seq s') = nat START_LEN)
   \<and> (cp_trialIdx st + length oks < SEQS_PER_BLOCK
        \<or> (length BLOCKS \<le> cp_blockIdx st + 1 \<and> cp_trialIdx st + length oks \<le> SEQS_PER_BLOCK)
        \<longrightarrow> cp_lengths st oks = span_lengths (cp_seqLen st) oks)
   \<and> (sp_trialIdx s + length run \<le> SEQS_PER_BLOCK
        \<and> (\<forall>r \<in> set run. nat MAX_LEN \<le> card (set (snd r)))
        \<longrightarrow> sp_lengths s run = Some (span_lengths (sp_seqLen s) (map fst run)))
   \<and> span_lengths 3 [True, True, True, True, True] = [3, 4, 5, 6, 7, 7]
   \<and> span_lengths 7 [False, False, False, False, False, False] = [7, 6, 5, 4, 3, 2, 2]
   \<and> START_LEN = 3 \<and> SEQS_PER_BLOCK = 10 \<and> MAX_LEN = 7"
proof -
  note A = cp_nextLen_spec [of len ok]
  have B: "clamp (len + (if ok then 1 else - 1)) MIN_LEN MAX_LEN
             = clamp_spec (len + (if ok then 1 else - 1)) 2 7"
    using clamp_is_spec [of 2 7] by (simp add: MIN_LEN_def MAX_LEN_def)
  have C: "cp_nextLen 7 True = 7" "cp_nextLen 2 False = 2"
    by (simp_all add: cp_nextLen_def MIN_LEN_def MAX_LEN_def)
  note D = cp_finishTrial_seqLen_all [of st ok, unfolded cp_nextLen_spec]
  note E = cp_finishTrial_timeouts_all [of st ok, unfolded cp_nextLen_spec]
  note F = sp_finishTrial_returns_iff [of s ok draws, unfolded cp_nextLen_spec]
  have G: "sp_finishTrial s ok draws = Some s' \<longrightarrow>
        sp_seqLen s' = clamp_spec (sp_seqLen s + (if ok then 1 else - 1)) 2 7
        \<and> (sp_trialIdx s + 1 < SEQS_PER_BLOCK \<longrightarrow>
             length (sp_seq s') = nat (clamp_spec (sp_seqLen s + (if ok then 1 else - 1)) 2 7))"
  proof
    assume h: "sp_finishTrial s ok draws = Some s'"
    from sp_finishTrial_seqLen [OF h]
    have 1: "sp_seqLen s' = clamp_spec (sp_seqLen s + (if ok then 1 else - 1)) 2 7"
      by (simp only: cp_nextLen_clamp [symmetric] cp_nextLen_spec)
    have 2: "sp_trialIdx s + 1 < SEQS_PER_BLOCK \<longrightarrow>
        length (sp_seq s') = nat (clamp_spec (sp_seqLen s + (if ok then 1 else - 1)) 2 7)"
      using sp_finishTrial_next_seq [OF h] by (simp only: cp_nextLen_spec) blast
    from 1 2 show "sp_seqLen s' = clamp_spec (sp_seqLen s + (if ok then 1 else - 1)) 2 7
        \<and> (sp_trialIdx s + 1 < SEQS_PER_BLOCK \<longrightarrow>
             length (sp_seq s') = nat (clamp_spec (sp_seqLen s + (if ok then 1 else - 1)) 2 7))"
      by (rule conjI)
  qed
  have H: "sp_nextBlock s nb draws = Some s' \<longrightarrow>
        sp_seqLen s' = START_LEN \<and> length (sp_seq s') = nat START_LEN"
    using sp_nextBlock_restart [of s nb draws s'] by blast
  have I: "cp_trialIdx st + length oks < SEQS_PER_BLOCK
        \<or> (length BLOCKS \<le> cp_blockIdx st + 1 \<and> cp_trialIdx st + length oks \<le> SEQS_PER_BLOCK)
        \<longrightarrow> cp_lengths st oks = span_lengths (cp_seqLen st) oks"
    using cp_lengths_span [of st oks] cp_lengths_last_block [of st oks] by blast
  have J: "sp_trialIdx s + length run \<le> SEQS_PER_BLOCK
        \<and> (\<forall>r \<in> set run. nat MAX_LEN \<le> card (set (snd r)))
        \<longrightarrow> sp_lengths s run = Some (span_lengths (sp_seqLen s) (map fst run))"
    using sp_lengths_span [of s run] by blast
  have K: "START_LEN = 3" "SEQS_PER_BLOCK = 10" "MAX_LEN = 7"
    by (simp_all add: START_LEN_def SEQS_PER_BLOCK_def MAX_LEN_def)
  show ?thesis
    by (intro conjI) (rule A B C D E F G H I J span_lengths_up span_lengths_down K)+
qed

lemma cp_first_block_at_7_fields:
  "cp_seqLen cp_first_block_at_7 = 7" "cp_trialIdx cp_first_block_at_7 = 4"
  "cp_blockIdx cp_first_block_at_7 = 0" "cp_running cp_first_block_at_7"
  by (simp_all add: cp_first_block_at_7_def cp_trials_def cp_finishTrial_seqLen_all
      cp_finishTrial_def cp_nextLen_def cp_start_def cp_init_def BLOCKS_at_def BLOCKS_def
      SEQS_PER_BLOCK_def START_LEN_def MIN_LEN_def MAX_LEN_def Let_def)

lemma cp_last_block_at_7_fields:
  "cp_seqLen cp_last_block_at_7 = 7" "cp_trialIdx cp_last_block_at_7 = 4"
  "cp_blockIdx cp_last_block_at_7 = 1" "cp_running cp_last_block_at_7"
  by (simp_all add: cp_last_block_at_7_def cp_trials_def cp_finishTrial_def cp_nextLen_def
      cp_start_def cp_init_def BLOCKS_at_def BLOCKS_def
      SEQS_PER_BLOCK_def START_LEN_def MIN_LEN_def MAX_LEN_def Let_def)

text \<open>
  C4 fails as stated. A CentralPeripheralSpanTask session reaches length 7 at the fifth
  trial of its first block, after four correct trials. Six incorrect trials follow: the
  lengths go 7,6,5,4,3,2, and the sixth incorrect trial, the last of the block, leaves
  the length at 3, not at 2, and schedules a trial of length 3, although the clamped
  update of 2 after an incorrect trial is 2.
\<close>

theorem block_boundary_restarts_length:
  "cp_seqLen cp_first_block_at_7 = 7 \<and> cp_trialIdx cp_first_block_at_7 = 4
   \<and> cp_blockIdx cp_first_block_at_7 = 0
   \<and> cp_lengths cp_first_block_at_7 [False, False, False, False, False, False]
       = [7, 6, 5, 4, 3, 2, 3]
   \<and> last (cp_timeouts (cp_trials cp_first_block_at_7
         [False, False, False, False, False, False])) = (800, CpStartTrial 3)
   \<and> clamp_spec (2 + (if False then 1 else - 1)) 2 7 = 2"
  by (simp add: cp_first_block_at_7_def cp_trials_def cp_finishTrial_def cp_nextLen_def
      cp_start_def cp_init_def BLOCKS_at_def BLOCKS_def clamp_spec_def
      SEQS_PER_BLOCK_def START_LEN_def MIN_LEN_def MAX_LEN_def Let_def)

lemma sp_trial_correct_ex:
  "\<exists>s'. sp_finishTrial sp_trial_4_17_82 True [0, 1, 2, 3, 4, 5, 6] = Some s'"
  "\<exists>s'. sp_nextBlock sp_trial_4_17_82 1 [0, 1, 1, 2] = Some s'"
  by (simp_all add: sp_finishTrial_def sp_nextBlock_def sp_startTrial_def randUniqueSeq_def
      sp_trial_fields SEQS_PER_BLOCK_def clamp_def START_LEN_def MIN_LEN_def MAX_LEN_def
      Let_def)

text \<open>
  C4 on sessions as the components run them: the first five trials of a
  CentralPeripheralSpanTask session, all correct; its last block from the fifth trial
  on, all incorrect; a whole block of SpamperceptionBlocks with four correct and six
  incorrect trials, every trial given seven different draws; one correct trial of
  SpamperceptionBlocks; and the opening of its second block.
\<close>

theorem span_length_update_witness:
  "cp_trialIdx (cp_start cp_init) + length [True, True, True, True, True] < SEQS_PER_BLOCK
   \<and> cp_seqLen (cp_start cp_init) = 3
   \<and> cp_lengths (cp_start cp_init) [True, True, True, True, True] = [3, 4, 5, 6, 7, 7]
   \<and> length BLOCKS \<le> cp_blockIdx cp_last_block_at_7 + 1
   \<and> cp_trialIdx cp_last_block_at_7 + length [False, False, False, False, False, False]
       \<le> SEQS_PER_BLOCK
   \<and> cp_seqLen cp_last_block_at_7 = 7
   \<and> cp_lengths cp_last_block_at_7 [False, False, False, False, False, False]
       = [7, 6, 5, 4, 3, 2, 2]
   \<and> sp_trialIdx sp_trial_4_17_82 + 10 \<le> SEQS_PER_BLOCK
   \<and> nat MAX_LEN \<le> card (set [0, 1, 2, 3, 4, 5, 6 :: nat])
   \<and> sp_lengths sp_trial_4_17_82
        [(True, [0, 1, 2, 3, 4, 5, 6]), (True, [0, 1, 2, 3, 4, 5, 6]),
         (True, [0, 1, 2, 3, 4, 5, 6]), (True, [0, 1, 2, 3, 4, 5, 6]),
         (False, [0, 1, 2, 3, 4, 5, 6]), (False, [0, 1, 2, 3, 4, 5, 6]),
         (False, [0, 1, 2, 3, 4, 5, 6]), (False, [0, 1, 2, 3, 4, 5, 6]),
         (False, [0, 1, 2, 3, 4, 5, 6]), (False, [0, 1, 2, 3, 4, 5, 6])]
       = Some [3, 4, 5, 6, 7, 6, 5, 4, 3, 2, 2]
   \<and> (\<exists>s'. sp_finishTrial sp_trial_4_17_82 True [0, 1, 2, 3, 4, 5, 6] = Some s'
         \<and> sp_trialIdx sp_trial_4_17_82 + 1 < SEQS_PER_BLOCK
         \<and> sp_seqLen s' = 4 \<and> length (sp_seq s') = 4)
   \<and> (\<exists>s'. sp_nextBlock sp_trial_4_17_82 1 [0, 1, 1, 2] = Some s'
         \<and> sp_seqLen s' = 3 \<and> length (sp_seq s') = 3)"
proof -
  let ?up = "[True, True, True, True, True]"
  let ?down = "[False, False, False, False, False, False]"
  let ?d = "[0, 1, 2, 3, 4, 5, 6 :: nat]"
  let ?run = "[(True, ?d), (True, ?d), (True, ?d), (True, ?d), (False, ?d), (False, ?d),
      (False, ?d), (False, ?d), (False, ?d), (False, ?d)]"
  have a: "cp_trialIdx (cp_start cp_init) + length ?up < SEQS_PER_BLOCK"
    "cp_seqLen (cp_start cp_init) = 3"
    by (simp_all add: cp_start_def cp_init_def SEQS_PER_BLOCK_def START_LEN_def)
  have b: "length BLOCKS \<le> cp_blockIdx cp_last_block_at_7 + 1"
    "cp_trialIdx cp_last_block_at_7 + length ?down \<le> SEQS_PER_BLOCK"
    by (simp_all add: cp_last_block_at_7_fields BLOCKS_def SEQS_PER_BLOCK_def)
  have c: "sp_trialIdx sp_trial_4_17_82 + 10 \<le> SEQS_PER_BLOCK"
    "sp_trialIdx sp_trial_4_17_82 + length ?run \<le> SEQS_PER_BLOCK"
    "sp_trialIdx sp_trial_4_17_82 + 1 < SEQS_PER_BLOCK"
    by (simp_all add: sp_trial_fields SEQS_PER_BLOCK_def)
  have d: "nat MAX_LEN \<le> card (set ?d)" by (simp add: MAX_LEN_def)
  then have d': "\<forall>r \<in> set ?run. nat MAX_LEN \<le> card (set (snd r))" by simp
  obtain s1 where s1: "sp_finishTrial sp_trial_4_17_82 True ?d = Some s1"
    using sp_trial_correct_ex(1) by blast
  obtain s2 where s2: "sp_nextBlock sp_trial_4_17_82 1 [0, 1, 1, 2] = Some s2"
    using sp_trial_correct_ex(2) by blast
  note U = span_length_update [where st = "cp_start cp_init" and oks = ?up
      and s = sp_trial_4_17_82 and run = ?run and ok = True and draws = ?d and s' = s1]
  note V = span_length_update [where st = cp_last_block_at_7 and oks = ?down
      and s = sp_trial_4_17_82 and nb = 1 and draws = "[0, 1, 1, 2]" and s' = s2]
  have "cp_lengths (cp_start cp_init) ?up = span_lengths (cp_seqLen (cp_start cp_init)) ?up"
    using U [THEN conjunct2, THEN conjunct2, THEN conjunct2, THEN conjunct2, THEN conjunct2,
      THEN conjunct2, THEN conjunct2, THEN conjunct2, THEN conjunct2, THEN conjunct1] a(1)
    by blast
  then have 1: "cp_lengths (cp_start cp_init) ?up = [3, 4, 5, 6, 7, 7]"
    by (simp only: a(2) span_lengths_up)
  have "cp_lengths cp_last_block_at_7 ?down = span_lengths (cp_seqLen cp_last_block_at_7) ?down"
    using V [THEN conjunct2, THEN conjunct2, THEN conjunct2, THEN conjunct2, THEN conjunct2,
      THEN conjunct2, THEN conjunct2, THEN conjunct2, THEN conjunct2, THEN conjunct1] b
    by blast
  then have 2: "cp_lengths cp_last_block_at_7 ?down = [7, 6, 5, 4, 3, 2, 2]"
    by (simp only: cp_last_block_at_7_fields(1) span_lengths_down)
  have "sp_lengths sp_trial_4_17_82 ?run
      = Some (span_lengths (sp_seqLen sp_trial_4_17_82) (map fst ?run))"
    using U [THEN conjunct2, THEN conjunct2, THEN conjunct2, THEN conjunct2, THEN conjunct2,
      THEN conjunct2, THEN conjunct2, THEN conjunct2, THEN conjunct2, THEN conjunct2,
      THEN conjunct1] c(2) d'
    by blast
  then have 3: "sp_lengths sp_trial_4_17_82 ?run = Some [3, 4, 5, 6, 7, 6, 5, 4, 3, 2, 2]"
    by (simp add: sp_trial_fields cp_nextLen_def MIN_LEN_def MAX_LEN_def)
  have "sp_seqLen s1 = clamp_spec (sp_seqLen sp_trial_4_17_82 + (if True then 1 else - 1)) 2 7
      \<and> (sp_trialIdx sp_trial_4_17_82 + 1 < SEQS_PER_BLOCK \<longrightarrow>
         length (sp_seq s1)
           = nat (clamp_spec (sp_seqLen sp_trial_4_17_82 + (if True then 1 else - 1)) 2 7))"
    using U [THEN conjunct2, THEN conjunct2, THEN conjunct2, THEN conjunct2, THEN conjunct2,
      THEN conjunct2, THEN conjunct2, THEN conjunct1] s1
    by blast
  with c(3) have 4: "sp_seqLen s1 = 4 \<and> length (sp_seq s1) = 4"
    by (simp add: sp_trial_fields clamp_spec_def)
  have "sp_seqLen s2 = START_LEN \<and> length (sp_seq s2) = nat START_LEN"
    using V [THEN conjunct2, THEN conjunct2, THEN conjunct2, THEN conjunct2, THEN conjunct2,
      THEN conjunct2, THEN conjunct2, THEN conjunct2, THEN conjunct1] s2
    by blast
  then have 5: "sp_seqLen s2 = 3 \<and> length (sp_seq s2) = 3" by (simp add: START_LEN_def)
  from s1 c(3) 4 have E1: "\<exists>s'. sp_finishTrial sp_trial_4_17_82 True ?d = Some s'
         \<and> sp_trialIdx sp_trial_4_17_82 + 1 < SEQS_PER_BLOCK
         \<and> sp_seqLen s' = 4 \<and> length (sp_seq s') = 4"
    by blast
  from s2 5 have E2: "\<exists>s'. sp_nextBlock sp_trial_4_17_82 1 [0, 1, 1, 2] = Some s'
         \<and> sp_seqLen s' = 3 \<and> length (sp_seq s') = 3"
    by blast
  show ?thesis
    by (intro conjI) (rule a b c(1) d 1 2 3 E1 E2 cp_last_block_at_7_fields(1))+
qed

end
